theory Spec2Isabelle
  imports Complex_Main "HOL-Library.Char_ord" "HOL-Library.List_Lexorder"
    "HOL-Library.Product_Lexorder" "HOL-Library.Multiset"
begin

section \<open>Static route finder (\<open>BusRouteFinder.find_routes\<close>)\<close>

text \<open>
  \<^verbatim>\<open>bus_info_project/main.py\<close> and \<^verbatim>\<open>route_stop_info.py\<close> hold the same method:
  \<^verbatim>\<open>
  def find_routes(self, origin, destination):
      results = []
      for (route_name, direction), group in self.df.groupby(['route_name', 'direction_text']):
          stops = group.sort_values('stop_number')['stop_name'].tolist()
          if origin in stops and destination in stops:
              if stops.index(origin) < stops.index(destination):
                  results.append({
                      'route_name': route_name,
                      'direction_text': direction,
                      'stops': stops[stops.index(origin):stops.index(destination)+1]
                  })
      return results
  \<close>
  The data frame read from the CSV file is a list of rows (the columns carry the prefix
  \<open>csv_\<close> here, the stop tables below use the plain names). \<^verbatim>\<open>read_csv\<close> chooses the type
  of each column from the file, so the types of the cells are parameters: \<open>'r\<close> and \<open>'d\<close>
  for the two key columns, \<open>'n\<close> for the stop numbers, \<open>'t\<close> for text (\<^verbatim>\<open>str\<close>). A cell of
  a key column can be missing (\<open>None\<close>, the \<^verbatim>\<open>NaN\<close> of the frame). A cell of the column
  \<open>stop_name\<close> is a text or a value that is no text (a number, or the \<^verbatim>\<open>NaN\<close> of a missing
  cell); \<open>origin\<close> and \<open>destination\<close> are texts, and a text is equal to text cells only.
\<close>

datatype ('t, 'x) cell = Text 't | Other 'x

record ('r, 'd, 'n, 't, 'x) csv_row =
  csv_route_name :: "'r option"
  csv_direction_text :: "'d option"
  csv_stop_number :: 'n
  csv_stop_name :: "('t, 'x) cell"

record ('r, 'd, 't, 'x) route_result =
  res_route_name :: 'r
  res_direction_text :: 'd
  res_stops :: "('t, 'x) cell list"

definition group_key :: "('r, 'd, 'n, 't, 'x) csv_row \<Rightarrow> ('r \<times> 'd) option" where
  "group_key r =
     (case csv_route_name r of
        None \<Rightarrow> None
      | Some a \<Rightarrow> (case csv_direction_text r of None \<Rightarrow> None | Some b \<Rightarrow> Some (a, b)))"

text \<open>
  \<open>groupby\<close> leaves out the rows with a missing key cell, and visits the distinct keys in
  ascending order, each with its rows in frame order.
\<close>

definition groupby ::
    "('r::linorder, 'd::linorder, 'n, 't, 'x) csv_row list \<Rightarrow>
       (('r \<times> 'd) \<times> ('r, 'd, 'n, 't, 'x) csv_row list) list" where
  "groupby df =
     map (\<lambda>k. (k, filter (\<lambda>r. group_key r = Some k) df))
       (sort (remdups (List.map_filter group_key df)))"

text \<open>
  \<^verbatim>\<open>sort_values('stop_number')\<close> sorts with \<^verbatim>\<open>kind='quicksort'\<close>, which is not stable: the
  result is the group's rows in ascending order of \<open>stop_number\<close>, and the order in which
  rows with the same number come out is not fixed by the frame order. So the sort is a
  parameter \<open>sort_values\<close> of the model, and \<open>sort_spec\<close> says what is known of it. (The
  order of the type \<open>'n\<close> is the order the sort uses on the column, in which a missing
  number comes last.)
\<close>

definition sort_spec ::
    "(('r, 'd, 'n::linorder, 't, 'x) csv_row list \<Rightarrow> ('r, 'd, 'n, 't, 'x) csv_row list) \<Rightarrow> bool" where
  "sort_spec sort_values \<longleftrightarrow>
     (\<forall>grp. mset (sort_values grp) = mset grp
            \<and> sorted (map csv_stop_number (sort_values grp)))"

text \<open>\<open>list.index\<close>: the position of the first equal element; \<open>None\<close> is Python's ValueError.\<close>

fun list_index :: "'a list \<Rightarrow> 'a \<Rightarrow> nat option" where
  "list_index [] x = None"
| "list_index (y # ys) x = (if y = x then Some 0 else map_option Suc (list_index ys x))"

text \<open>The slice \<open>xs[i:j+1]\<close> for indices within the list.\<close>

definition slice_incl :: "'a list \<Rightarrow> nat \<Rightarrow> nat \<Rightarrow> 'a list" where
  "slice_incl xs i j = take (j + 1 - i) (drop i xs)"

definition route_step ::
    "(('r, 'd, 'n, 't, 'x) csv_row list \<Rightarrow> ('r, 'd, 'n, 't, 'x) csv_row list) \<Rightarrow> 't \<Rightarrow> 't \<Rightarrow>
       ('r \<times> 'd) \<times> ('r, 'd, 'n, 't, 'x) csv_row list \<Rightarrow> ('r, 'd, 't, 'x) route_result list" where
  "route_step sort_values origin destination kg =
     (let stops = map csv_stop_name (sort_values (snd kg)) in
      if Text origin \<in> set stops \<and> Text destination \<in> set stops then
        (case list_index stops (Text origin) of
           None \<Rightarrow> []
         | Some i \<Rightarrow>
            (case list_index stops (Text destination) of
               None \<Rightarrow> []
             | Some j \<Rightarrow>
                 if i < j then
                   [\<lparr>res_route_name = fst (fst kg), res_direction_text = snd (fst kg),
                     res_stops = slice_incl stops i j\<rparr>]
                 else []))
      else [])"

definition find_routes ::
    "(('r::linorder, 'd::linorder, 'n, 't, 'x) csv_row list \<Rightarrow> ('r, 'd, 'n, 't, 'x) csv_row list) \<Rightarrow>
       ('r, 'd, 'n, 't, 'x) csv_row list \<Rightarrow> 't \<Rightarrow> 't \<Rightarrow> ('r, 'd, 't, 'x) route_result list" where
  "find_routes sort_values df origin destination =
     concat (map (route_step sort_values origin destination) (groupby df))"

text \<open>The rows of the group a result belongs to.\<close>

definition group_rows ::
    "('r, 'd, 'n, 't, 'x) csv_row list \<Rightarrow> ('r, 'd, 't, 'x) route_result \<Rightarrow> ('r, 'd, 'n, 't, 'x) csv_row list" where
  "group_rows df res =
     filter (\<lambda>r. csv_route_name r = Some (res_route_name res)
                \<and> csv_direction_text r = Some (res_direction_text res)) df"

definition first_at :: "'a list \<Rightarrow> 'a \<Rightarrow> nat \<Rightarrow> bool" where
  "first_at xs x i \<longleftrightarrow> i < length xs \<and> xs ! i = x \<and> (\<forall>k<i. xs ! k \<noteq> x)"

subsection \<open>Properties of the route finder\<close>

lemma list_index_first: "list_index xs x = Some i \<Longrightarrow> first_at xs x i"
proof (induction xs arbitrary: i)
  case Nil
  then show ?case by simp
next
  case (Cons y ys)
  show ?case
  proof (cases "y = x")
    case True
    with Cons.prems show ?thesis by (simp add: first_at_def)
  next
    case False
    with Cons.prems obtain i' where i': "list_index ys x = Some i'" "i = Suc i'"
      by auto
    from Cons.IH [OF i'(1)] have "first_at ys x i'" .
    with False i'(2) show ?thesis
      by (auto simp: first_at_def nth_Cons split: nat.splits)
  qed
qed

lemma slice_incl_ends:
  assumes "i < j" "j < length xs"
  shows "slice_incl xs i j \<noteq> []" "hd (slice_incl xs i j) = xs ! i"
    "last (slice_incl xs i j) = xs ! j"
proof -
  from assms show ne: "slice_incl xs i j \<noteq> []"
    by (simp add: slice_incl_def)
  from assms show "hd (slice_incl xs i j) = xs ! i"
    by (simp add: slice_incl_def hd_drop_conv_nth)
  have len: "length (slice_incl xs i j) = j + 1 - i"
    using assms by (simp add: slice_incl_def)
  from assms len ne have "last (slice_incl xs i j) = slice_incl xs i j ! (j - i)"
    by (simp add: last_conv_nth)
  also from assms have "\<dots> = xs ! j"
    by (simp add: slice_incl_def)
  finally show "last (slice_incl xs i j) = xs ! j" .
qed

lemma route_step_sound:
  assumes "res \<in> set (route_step srt origin destination (k, grp))"
  shows "\<exists>i j. first_at (map csv_stop_name (srt grp)) (Text origin) i
           \<and> first_at (map csv_stop_name (srt grp)) (Text destination) j
           \<and> i < j \<and> res_route_name res = fst k \<and> res_direction_text res = snd k
           \<and> res_stops res = slice_incl (map csv_stop_name (srt grp)) i j"
proof (cases "list_index (map csv_stop_name (srt grp)) (Text origin)")
  case None
  then have "route_step srt origin destination (k, grp) = []"
    by (simp add: route_step_def Let_def)
  with assms show ?thesis by simp
next
  case oi: (Some i)
  show ?thesis
  proof (cases "list_index (map csv_stop_name (srt grp)) (Text destination)")
    case None
    with oi have "route_step srt origin destination (k, grp) = []"
      by (simp add: route_step_def Let_def)
    with assms show ?thesis by simp
  next
    case dj: (Some j)
    show ?thesis
    proof (cases "i < j")
      case False
      with oi dj have "route_step srt origin destination (k, grp) = []"
        by (simp add: route_step_def Let_def)
      with assms show ?thesis by simp
    next
      case True
      with oi dj have "route_step srt origin destination (k, grp) = [] \<or>
        route_step srt origin destination (k, grp) =
          [\<lparr>res_route_name = fst k, res_direction_text = snd k,
            res_stops = slice_incl (map csv_stop_name (srt grp)) i j\<rparr>]"
        by (simp add: route_step_def Let_def)
      with assms have res: "res = \<lparr>res_route_name = fst k, res_direction_text = snd k,
            res_stops = slice_incl (map csv_stop_name (srt grp)) i j\<rparr>"
        by auto
      from oi have "first_at (map csv_stop_name (srt grp)) (Text origin) i"
        by (rule list_index_first)
      moreover from dj have "first_at (map csv_stop_name (srt grp)) (Text destination) j"
        by (rule list_index_first)
      ultimately show ?thesis
        using True res by auto
    qed
  qed
qed

lemma group_key_Some:
  "group_key r = Some k \<longleftrightarrow> csv_route_name r = Some (fst k) \<and> csv_direction_text r = Some (snd k)"
  by (cases k) (auto simp: group_key_def split: option.splits)

lemma groupby_groups:
  assumes "kg \<in> set (groupby df)"
  shows "snd kg = filter (\<lambda>r. csv_route_name r = Some (fst (fst kg))
                \<and> csv_direction_text r = Some (snd (fst kg))) df"
    "\<exists>r \<in> set df. csv_route_name r = Some (fst (fst kg))
        \<and> csv_direction_text r = Some (snd (fst kg))"
proof -
  from assms obtain k where k: "k \<in> set (List.map_filter group_key df)"
    and kg: "kg = (k, filter (\<lambda>r. group_key r = Some k) df)"
    by (auto simp: groupby_def)
  from kg show "snd kg = filter (\<lambda>r. csv_route_name r = Some (fst (fst kg))
                \<and> csv_direction_text r = Some (snd (fst kg))) df"
    by (simp add: group_key_Some)
  from k obtain r where "r \<in> set df" "group_key r = Some k"
    by (auto simp: List.map_filter_def)
  with kg show "\<exists>r \<in> set df. csv_route_name r = Some (fst (fst kg))
        \<and> csv_direction_text r = Some (snd (fst kg))"
    by (auto simp: group_key_Some)
qed

text \<open>
  Claim C10. Whatever order \<^verbatim>\<open>sort_values\<close> gives to rows with the same stop number: every
  result of \<open>find_routes\<close> is a (route, direction) group of the data set; the stops of the
  loop body are the stop names of the group's rows in ascending order of \<open>stop_number\<close>;
  origin and destination both occur among them, the first occurrence of origin strictly
  before the first occurrence of destination; the result's stops list is the part from
  the one to the other, so it is not empty, begins with origin and ends with
  destination; and with origin equal to destination there is no result.
\<close>

theorem find_routes_sound:
  assumes "sort_spec sort_values"
  shows "(\<forall>res \<in> set (find_routes sort_values df origin destination).
      (\<exists>r \<in> set df. csv_route_name r = Some (res_route_name res)
          \<and> csv_direction_text r = Some (res_direction_text res))
      \<and> mset (sort_values (group_rows df res)) = mset (group_rows df res)
      \<and> sorted (map csv_stop_number (sort_values (group_rows df res)))
      \<and> (\<exists>i j. first_at (map csv_stop_name (sort_values (group_rows df res))) (Text origin) i
               \<and> first_at (map csv_stop_name (sort_values (group_rows df res))) (Text destination) j
               \<and> i < j
               \<and> res_stops res
                   = slice_incl (map csv_stop_name (sort_values (group_rows df res))) i j)
      \<and> res_stops res \<noteq> []
      \<and> hd (res_stops res) = Text origin
      \<and> last (res_stops res) = Text destination)
   \<and> find_routes sort_values df origin origin = []"
proof (intro conjI ballI)
  fix res
  assume "res \<in> set (find_routes sort_values df origin destination)"
  then obtain kg where kgin: "kg \<in> set (groupby df)"
    and kgres: "res \<in> set (route_step sort_values origin destination kg)"
    by (auto simp: find_routes_def)
  obtain k grp where kg: "kg = (k, grp)" by (cases kg)
  let ?stops = "map csv_stop_name (sort_values grp)"
  from kgres kg have "res \<in> set (route_step sort_values origin destination (k, grp))"
    by simp
  from route_step_sound [OF this] obtain i j where ij:
    "first_at ?stops (Text origin) i" "first_at ?stops (Text destination) j"
    "i < j" "res_route_name res = fst k" "res_direction_text res = snd k"
    "res_stops res = slice_incl ?stops i j"
    by blast
  from groupby_groups(1) [OF kgin] kg ij(4,5) have grp: "grp = group_rows df res"
    by (simp add: group_rows_def)
  from groupby_groups(2) [OF kgin] kg ij(4,5)
  show "\<exists>r \<in> set df. csv_route_name r = Some (res_route_name res)
          \<and> csv_direction_text r = Some (res_direction_text res)"
    by simp
  from assms show "mset (sort_values (group_rows df res)) = mset (group_rows df res)"
    by (simp add: sort_spec_def)
  from assms show "sorted (map csv_stop_number (sort_values (group_rows df res)))"
    by (simp add: sort_spec_def)
  from ij(1,2,3,6) grp
  show "\<exists>i j. first_at (map csv_stop_name (sort_values (group_rows df res))) (Text origin) i
      \<and> first_at (map csv_stop_name (sort_values (group_rows df res))) (Text destination) j
      \<and> i < j
      \<and> res_stops res = slice_incl (map csv_stop_name (sort_values (group_rows df res))) i j"
    by auto
  from ij(2) have jlen: "j < length ?stops"
    by (simp add: first_at_def)
  from slice_incl_ends(1) [OF ij(3) jlen] ij(6) show "res_stops res \<noteq> []"
    by simp
  from slice_incl_ends(2) [OF ij(3) jlen] ij(6) ij(1) show "hd (res_stops res) = Text origin"
    by (simp add: first_at_def)
  from slice_incl_ends(3) [OF ij(3) jlen] ij(6) ij(2)
  show "last (res_stops res) = Text destination"
    by (simp add: first_at_def)
next
  have "route_step sort_values origin origin kg = []" for kg
    by (auto simp: route_step_def Let_def split: option.splits)
  then show "find_routes sort_values df origin origin = []"
    by (simp add: find_routes_def)
qed

definition demo_row ::
    "string option \<Rightarrow> string option \<Rightarrow> int \<Rightarrow> (string, int) cell \<Rightarrow>
       (string, string, int, string, int) csv_row" where
  "demo_row rn d n nm =
     \<lparr>csv_route_name = rn, csv_direction_text = d, csv_stop_number = n, csv_stop_name = nm\<rparr>"

definition demo_csv :: "(string, string, int, string, int) csv_row list" where
  "demo_csv =
     [demo_row (Some ''R1'') (Some ''go'') 1 (Text ''A''),
      demo_row (Some ''R1'') (Some ''go'') 3 (Text ''D''),
      demo_row (Some ''R1'') (Some ''back'') 1 (Text ''D''),
      demo_row None (Some ''go'') 1 (Text ''A''),
      demo_row (Some ''R1'') (Some ''go'') 2 (Text ''C''),
      demo_row None (Some ''go'') 2 (Text ''C''),
      demo_row (Some ''R1'') (Some ''go'') 2 (Text ''B''),
      demo_row (Some ''R1'') (Some ''back'') 2 (Text ''A''),
      demo_row (Some ''R2'') (Some ''go'') 1 (Other 7),
      demo_row (Some ''R2'') (Some ''go'') 2 (Text ''C'')]"

text \<open>
  Two sorts that meet \<open>sort_spec\<close>: one keeps rows with the same stop number in frame
  order, the other reverses them. The group \<open>(R1, go)\<close> of \<open>demo_csv\<close> has two rows with
  the stop number 2, so the two sorts give different answers for the trip from \<open>A\<close> to
  \<open>C\<close>.
\<close>

definition sort_keeping_ties ::
    "(string, string, int, string, int) csv_row list \<Rightarrow> (string, string, int, string, int) csv_row list" where
  "sort_keeping_ties grp = sort_key csv_stop_number grp"

definition sort_reversing_ties ::
    "(string, string, int, string, int) csv_row list \<Rightarrow> (string, string, int, string, int) csv_row list" where
  "sort_reversing_ties grp = rev (sort_key (\<lambda>r. - csv_stop_number r) grp)"

lemma sort_keeping_ties_spec: "sort_spec sort_keeping_ties"
  by (simp add: sort_spec_def sort_keeping_ties_def)

lemma sort_reversing_ties_spec: "sort_spec sort_reversing_ties"
proof -
  have "sorted (map csv_stop_number (rev (sort_key (\<lambda>r. - csv_stop_number r) grp)))"
    for grp :: "(string, string, int, string, int) csv_row list"
  proof -
    have "sorted (map (\<lambda>r. - csv_stop_number r) (sort_key (\<lambda>r. - csv_stop_number r) grp))"
      by (rule sorted_sort_key)
    then have "sorted_wrt (\<lambda>a b. csv_stop_number b \<le> csv_stop_number a)
        (sort_key (\<lambda>r. - csv_stop_number r) grp)"
      by (simp add: sorted_map)
    then show ?thesis
      by (simp add: sorted_map sorted_wrt_rev)
  qed
  then show ?thesis
    by (simp add: sort_spec_def sort_reversing_ties_def)
qed

lemma demo_find_routes:
  "find_routes sort_keeping_ties demo_csv ''A'' ''C''
     = [\<lparr>res_route_name = ''R1'', res_direction_text = ''go'',
         res_stops = [Text ''A'', Text ''C'']\<rparr>]"
  "find_routes sort_reversing_ties demo_csv ''A'' ''C''
     = [\<lparr>res_route_name = ''R1'', res_direction_text = ''go'',
         res_stops = [Text ''A'', Text ''B'', Text ''C'']\<rparr>]"
  by code_simp+

definition demo_result :: "(string, string, string, int) route_result" where
  "demo_result =
     \<lparr>res_route_name = ''R1'', res_direction_text = ''go'',
      res_stops = [Text ''A'', Text ''B'', Text ''C'']\<rparr>"

theorem find_routes_sound_witness:
  "sort_spec sort_reversing_ties
   \<and> find_routes sort_reversing_ties demo_csv ''A'' ''C'' = [demo_result]
   \<and> (\<exists>r \<in> set demo_csv. csv_route_name r = Some (res_route_name demo_result)
          \<and> csv_direction_text r = Some (res_direction_text demo_result))
   \<and> sorted (map csv_stop_number (sort_reversing_ties (group_rows demo_csv demo_result)))
   \<and> res_stops demo_result \<noteq> []
   \<and> hd (res_stops demo_result) = Text ''A''
   \<and> last (res_stops demo_result) = Text ''C''
   \<and> find_routes sort_reversing_ties demo_csv ''A'' ''A'' = []"
proof -
  have f: "find_routes sort_reversing_ties demo_csv ''A'' ''C'' = [demo_result]"
    by (simp add: demo_find_routes(2) demo_result_def)
  then have mem: "demo_result \<in> set (find_routes sort_reversing_ties demo_csv ''A'' ''C'')"
    by simp
  from find_routes_sound [OF sort_reversing_ties_spec, of demo_csv "''A''" "''C''"] mem
  have "(\<exists>r \<in> set demo_csv. csv_route_name r = Some (res_route_name demo_result)
          \<and> csv_direction_text r = Some (res_direction_text demo_result))
    \<and> sorted (map csv_stop_number (sort_reversing_ties (group_rows demo_csv demo_result)))
    \<and> res_stops demo_result \<noteq> [] \<and> hd (res_stops demo_result) = Text ''A''
    \<and> last (res_stops demo_result) = Text ''C''"
    by blast
  moreover from find_routes_sound [OF sort_reversing_ties_spec, of demo_csv "''A''" "''A''"]
  have "find_routes sort_reversing_ties demo_csv ''A'' ''A'' = []"
    by blast
  ultimately show ?thesis
    using sort_reversing_ties_spec f by simp
qed

section \<open>Pattern matching (\<open>re.findall\<close> on the two page shapes)\<close>

text \<open>
  The extractors apply two fixed patterns with \<^verbatim>\<open>re.findall\<close> under \<^verbatim>\<open>re.DOTALL\<close>.
  Both patterns are sequences of literal texts and repetitions of a character class
  (\<^verbatim>\<open>.*?\<close>, \<^verbatim>\<open>\s*\<close>, \<^verbatim>\<open>\d+\<close>, \<^verbatim>\<open>[^>]+\<close>, \<^verbatim>\<open>[^>]*\<close>, \<^verbatim>\<open>[\d\.]+\<close>), some of them
  capture groups. The matcher below is the backtracking semantics of \<^verbatim>\<open>re\<close> for that
  fragment: a lazy repetition tries the shortest length first, a greedy one the longest
  first, and the first choice for which the rest of the pattern matches is taken.

  Page text is a \<^typ>\<open>string\<close>: a character is a code point below 256, so a page is a
  text over Latin-1 (code points from 256 on are not represented). On these code points
  the classes of \<^verbatim>\<open>re\<close> for \<^verbatim>\<open>str\<close> patterns are: \<^verbatim>\<open>\d\<close> the decimal digits \<open>0\<close> to \<open>9\<close>;
  \<^verbatim>\<open>\s\<close> the characters for which \<^verbatim>\<open>str.isspace\<close> holds, which are tab, line feed,
  vertical tab, form feed, carriage return, the four separators \<open>0x1C\<close> to \<open>0x1F\<close>,
  the space, next line \<open>0x85\<close> and the no-break space \<open>0xA0\<close>. \<^verbatim>\<open>str.strip()\<close> removes
  the same characters.
\<close>

definition is_digit :: "char \<Rightarrow> bool" where
  "is_digit c \<longleftrightarrow> c \<in> set ''0123456789''"

definition is_space :: "char \<Rightarrow> bool" where
  "is_space c \<longleftrightarrow>
     c \<in> set [CHR 0x09, CHR 0x0A, CHR 0x0B, CHR 0x0C, CHR 0x0D,
               CHR 0x1C, CHR 0x1D, CHR 0x1E, CHR 0x1F, CHR 0x20, CHR 0x85, CHR 0xA0]"

datatype cclass = AnyChar | Space | Digit | NotGt | DigitDot

fun in_class :: "cclass \<Rightarrow> char \<Rightarrow> bool" where
  "in_class AnyChar c = True"
| "in_class Space c = is_space c"
| "in_class Digit c = is_digit c"
| "in_class NotGt c = (c \<noteq> CHR ''>'')"
| "in_class DigitDot c = (is_digit c \<or> c = CHR ''.'')"

text \<open>
  A pattern item is a literal or a repetition \<open>Rep greedy class minimum captured\<close>.
\<close>

datatype item = Lit string | Rep bool cclass nat bool

fun strip_prefix :: "string \<Rightarrow> string \<Rightarrow> string option" where
  "strip_prefix [] s = Some s"
| "strip_prefix (c # l) [] = None"
| "strip_prefix (c # l) (d # s) = (if c = d then strip_prefix l s else None)"

text \<open>
  \<open>rep_lazy c mn cont k s\<close>: \<open>k\<close> characters of the class are already consumed and
  \<open>s\<close> is the text after them; the continuation is tried before one more character
  is taken. \<open>rep_greedy\<close> takes one more character first and falls back to the
  continuation. Both return the number of characters the repetition consumed.
\<close>

fun rep_lazy :: "cclass \<Rightarrow> nat \<Rightarrow> (string \<Rightarrow> 'a option) \<Rightarrow> nat \<Rightarrow> string \<Rightarrow> (nat \<times> 'a) option" where
  "rep_lazy c mn cont k [] = (if mn \<le> k then map_option (Pair k) (cont []) else None)"
| "rep_lazy c mn cont k (ch # t) =
     (case (if mn \<le> k then cont (ch # t) else None) of
        Some r \<Rightarrow> Some (k, r)
      | None \<Rightarrow> if in_class c ch then rep_lazy c mn cont (Suc k) t else None)"

fun rep_greedy :: "cclass \<Rightarrow> nat \<Rightarrow> (string \<Rightarrow> 'a option) \<Rightarrow> nat \<Rightarrow> string \<Rightarrow> (nat \<times> 'a) option" where
  "rep_greedy c mn cont k [] = (if mn \<le> k then map_option (Pair k) (cont []) else None)"
| "rep_greedy c mn cont k (ch # t) =
     (case (if in_class c ch then rep_greedy c mn cont (Suc k) t else None) of
        Some r \<Rightarrow> Some r
      | None \<Rightarrow> if mn \<le> k then map_option (Pair k) (cont (ch # t)) else None)"

text \<open>A match is the list of captured texts, in group order, and the length matched.\<close>

type_synonym mres = "(string list \<times> nat) option"

fun match_item :: "item \<Rightarrow> (string \<Rightarrow> mres) \<Rightarrow> string \<Rightarrow> mres" where
  "match_item (Lit l) cont s =
     (case strip_prefix l s of
        None \<Rightarrow> None
      | Some t \<Rightarrow> map_option (\<lambda>(caps, n). (caps, length l + n)) (cont t))"
| "match_item (Rep greedy c mn cap) cont s =
     map_option (\<lambda>(k, caps, n). (if cap then take k s # caps else caps, k + n))
       (if greedy then rep_greedy c mn cont 0 s else rep_lazy c mn cont 0 s)"

primrec rmatch :: "item list \<Rightarrow> string \<Rightarrow> mres" where
  "rmatch [] = (\<lambda>s. Some ([], 0))"
| "rmatch (it # p) = match_item it (rmatch p)"

text \<open>
  \<^verbatim>\<open>findall\<close> scans from left to right: a match at the current position is recorded and
  the scan goes on behind it, otherwise it moves one character on. (Both patterns begin
  with a literal, so no match is empty; an empty match would move one character on.)
\<close>

function findall :: "item list \<Rightarrow> string \<Rightarrow> string list list" where
  "findall p s =
     (case rmatch p s of
        None \<Rightarrow> (case s of [] \<Rightarrow> [] | _ # t \<Rightarrow> findall p t)
      | Some (caps, n) \<Rightarrow> caps # (if s = [] then [] else findall p (drop (max 1 n) s)))"
  by pat_completeness auto
termination
  by (relation "measure (\<lambda>(p, s). length s)") auto

declare findall.simps [simp del]

text \<open>
  \<^verbatim>\<open>r'<li><a href="javascript:go\(\'(.*?)\'\)">(.*?)</a></li>'\<close>
  (\<^verbatim>\<open>parse_route_list\<close>; \<open>CHR 0x27\<close> is the single quote).
\<close>

definition route_open :: string where
  \<open>route_open = ''<li><a href="javascript:go('' @ [CHR 0x27]\<close>

definition route_mid :: string where
  \<open>route_mid = CHR 0x27 # '')">''\<close>

definition route_close :: string where
  \<open>route_close = ''</a></li>''\<close>

definition route_list_pattern :: "item list" where
  "route_list_pattern =
     [Lit route_open, Rep False AnyChar 0 True, Lit route_mid, Rep False AnyChar 0 True,
      Lit route_close]"

text \<open>
  The stop-list pattern of \<^verbatim>\<open>parse_route_info\<close>:
  \<^verbatim>\<open>
  r'<li>.*?<span class="auto-list-stationlist-position.*?">(.*?)</span>\s*'
  r'<span class="auto-list-stationlist-number">\s*(\d+)</span>\s*'
  r'<span class="auto-list-stationlist-place">(.*?)</span>.*?'
  r'<input[^>]+name="item\.UniStopId"[^>]+value="(\d+)"[^>]*>.*?'
  r'<input[^>]+name="item\.Latitude"[^>]+value="([\d\.]+)"[^>]*>.*?'
  r'<input[^>]+name="item\.Longitude"[^>]+value="([\d\.]+)"[^>]*>'
  \<close>
\<close>

definition stop_pattern :: "item list" where
  \<open>stop_pattern =
     [Lit ''<li>'', Rep False AnyChar 0 False,
      Lit ''<span class="auto-list-stationlist-position'', Rep False AnyChar 0 False,
      Lit ''">'', Rep False AnyChar 0 True, Lit ''</span>'', Rep True Space 0 False,
      Lit ''<span class="auto-list-stationlist-number">'', Rep True Space 0 False,
      Rep True Digit 1 True, Lit ''</span>'', Rep True Space 0 False,
      Lit ''<span class="auto-list-stationlist-place">'', Rep False AnyChar 0 True,
      Lit ''</span>'', Rep False AnyChar 0 False,
      Lit ''<input'', Rep True NotGt 1 False, Lit ''name="item.UniStopId"'',
      Rep True NotGt 1 False, Lit ''value="'', Rep True Digit 1 True, Lit ''"'',
      Rep True NotGt 0 False, Lit ''>'', Rep False AnyChar 0 False,
      Lit ''<input'', Rep True NotGt 1 False, Lit ''name="item.Latitude"'',
      Rep True NotGt 1 False, Lit ''value="'', Rep True DigitDot 1 True, Lit ''"'',
      Rep True NotGt 0 False, Lit ''>'', Rep False AnyChar 0 False,
      Lit ''<input'', Rep True NotGt 1 False, Lit ''name="item.Longitude"'',
      Rep True NotGt 1 False, Lit ''value="'', Rep True DigitDot 1 True, Lit ''"'',
      Rep True NotGt 0 False, Lit ''>'']\<close>

section \<open>Record extraction (\<open>parse_route_list\<close>, \<open>parse_route_info\<close>)\<close>

text \<open>A raised exception is a value; functions that can raise return \<open>error + 'a\<close>.\<close>

datatype error =
    ValueError string
  | OverflowError string
  | BrowserError string
  | DatabaseError string
  | PlotError string

text \<open>A loop over rows that raises at the first row that fails.\<close>

fun collect :: "('a \<Rightarrow> error + 'b) \<Rightarrow> 'a list \<Rightarrow> error + 'b list" where
  "collect f [] = Inr []"
| "collect f (x # xs) =
     (case f x of
        Inl e \<Rightarrow> Inl e
      | Inr y \<Rightarrow> (case collect f xs of Inl e \<Rightarrow> Inl e | Inr ys \<Rightarrow> Inr (y # ys)))"

text \<open>\<^verbatim>\<open>str.strip()\<close>\<close>

definition strip :: "string \<Rightarrow> string" where
  "strip s = rev (dropWhile is_space (rev (dropWhile is_space s)))"

subsection \<open>Route list\<close>

text \<open>
  \<^verbatim>\<open>
  def parse_route_list(self):
      pattern = r'<li><a href="javascript:go\(\'(.*?)\'\)">(.*?)</a></li>'
      matches = re.findall(pattern, self.content, re.DOTALL)
      if not matches:
          raise ValueError("No data found for route table")
      bus_routes = [(route_id, route_name.strip()) for route_id, route_name in matches]
      self.dataframe = pd.DataFrame(bus_routes, columns=["route_id", "route_name"])
      return self.dataframe
  \<close>
  The frame is the list of its rows, here pairs \<open>(route_id, route_name)\<close>.
\<close>

fun unpack_route :: "string list \<Rightarrow> error + string \<times> string" where
  "unpack_route [route_id, route_name] = Inr (route_id, strip route_name)"
| "unpack_route _ = Inl (ValueError ''wrong number of values to unpack'')"

definition parse_route_list :: "string \<Rightarrow> error + (string \<times> string) list" where
  "parse_route_list content =
     (let matches = findall route_list_pattern content in
      if matches = [] then Inl (ValueError ''No data found for route table'')
      else collect unpack_route matches)"

subsection \<open>Stop list\<close>

text \<open>
  A row of the stop frame, and of the stop table. The columns \<open>stop_number\<close>, \<open>latitude\<close>
  and \<open>longitude\<close> hold captured text in one variant of \<^verbatim>\<open>parse_route_info\<close> and numbers in
  another, and the table holds numbers where a frame holds text, so the types of the
  numeric columns are parameters (\<open>'n\<close> for the stop number, \<open>'i\<close> for the stop id, \<open>'f\<close> for
  the coordinates). The column \<open>route_id\<close> of the frame is the field \<open>stop_route_id\<close>.
\<close>

record ('n, 'i, 'f) stop_row =
  arrival_info :: string
  stop_number :: 'n
  stop_name :: string
  stop_id :: 'i
  latitude :: 'f
  longitude :: 'f
  direction :: string
  stop_route_id :: string

fun frame_row :: "string \<Rightarrow> string \<Rightarrow> string list \<Rightarrow> error + (string, string, string) stop_row" where
  "frame_row rid dir [a, n, nm, sid, la, lo] =
     Inr \<lparr>arrival_info = a, stop_number = n, stop_name = nm, stop_id = sid,
          latitude = la, longitude = lo, direction = dir, stop_route_id = rid\<rparr>"
| "frame_row rid dir _ = Inl (ValueError ''6 columns passed'')"

text \<open>
  \<^verbatim>\<open>00003.py\<close>: the captured texts are the frame, nothing is converted.
  \<^verbatim>\<open>
  matches = pattern.findall(self.content)
  if not matches:
      raise ValueError(f"No data found for route ID {self.route_id}")
  self.dataframe = pd.DataFrame(matches, columns=["arrival_info", "stop_number",
      "stop_name", "stop_id", "latitude", "longitude"])
  self.dataframe["direction"] = self.direction
  self.dataframe["route_id"] = self.route_id
  return self.dataframe
  \<close>
\<close>

definition parse_route_info_text :: "string \<Rightarrow> string \<Rightarrow> string \<Rightarrow> error + (string, string, string) stop_row list" where
  "parse_route_info_text rid dir content =
     (let matches = findall stop_pattern content in
      if matches = [] then Inl (ValueError (''No data found for route ID '' @ rid))
      else collect (frame_row rid dir) matches)"

text \<open>
  \<^verbatim>\<open>astype(float)\<close> and \<^verbatim>\<open>astype(int)\<close> on a column of captured texts. The captured texts
  consist of digits, or of digits and dots, and the two conversions are given for such
  texts (any other text is refused). A float is represented by the decimal value of its
  text; an integer column is \<^verbatim>\<open>int64\<close>, so a value from \<open>2^63 = 9223372036854775808\<close>
  on raises.
\<close>

definition digit_val :: "char \<Rightarrow> int" where
  "digit_val c = of_char c - 48"

definition decimal :: "string \<Rightarrow> int" where
  "decimal s = foldl (\<lambda>a c. 10 * a + digit_val c) 0 s"

definition to_float :: "string \<Rightarrow> error + rat" where
  "to_float s =
     (let ip = takeWhile is_digit s in
      case dropWhile is_digit s of
        [] \<Rightarrow> if ip = [] then Inl (ValueError ''could not convert string to float'')
              else Inr (of_int (decimal ip))
      | c # fp \<Rightarrow>
          if c = CHR ''.'' \<and> list_all is_digit fp \<and> (ip \<noteq> [] \<or> fp \<noteq> [])
          then Inr (of_int (decimal ip) + of_int (decimal fp) / 10 ^ length fp)
          else Inl (ValueError ''could not convert string to float''))"

definition to_int :: "string \<Rightarrow> error + int" where
  "to_int s =
     (if s \<noteq> [] \<and> list_all is_digit s then
        if decimal s < 9223372036854775808 then Inr (decimal s)
        else Inl (OverflowError ''Python int too large to convert to C long'')
      else Inl (ValueError ''invalid literal for int()''))"

definition retype :: "('a, 'i, 'b) stop_row \<Rightarrow> 'n \<Rightarrow> 'f \<Rightarrow> 'f \<Rightarrow> ('n, 'i, 'f) stop_row" where
  "retype r n la lo =
     \<lparr>arrival_info = arrival_info r, stop_number = n, stop_name = stop_name r,
      stop_id = stop_id r, latitude = la, longitude = lo, direction = direction r,
      stop_route_id = stop_route_id r\<rparr>"

text \<open>
  \<^verbatim>\<open>scraper/realtime_scraper.py\<close>: as above, then
  \<^verbatim>\<open>
  self.dataframe["latitude"] = self.dataframe["latitude"].astype(float)
  self.dataframe["longitude"] = self.dataframe["longitude"].astype(float)
  self.dataframe["stop_number"] = self.dataframe["stop_number"].astype(int)
  \<close>
  column by column, in this order.
\<close>

definition parse_route_info :: "string \<Rightarrow> string \<Rightarrow> string \<Rightarrow> error + (int, string, rat) stop_row list" where
  "parse_route_info rid dir content =
     (case parse_route_info_text rid dir content of
        Inl e \<Rightarrow> Inl e
      | Inr df \<Rightarrow>
         (case collect to_float (map latitude df) of
            Inl e \<Rightarrow> Inl e
          | Inr lats \<Rightarrow>
             (case collect to_float (map longitude df) of
                Inl e \<Rightarrow> Inl e
              | Inr lons \<Rightarrow>
                 (case collect to_int (map stop_number df) of
                    Inl e \<Rightarrow> Inl e
                  | Inr nums \<Rightarrow>
                      Inr (map (\<lambda>(r, n, la, lo). retype r n la lo)
                             (zip df (zip nums (zip lats lons))))))))"

text \<open>
  \<^verbatim>\<open>interactive_bus_info.py\<close>: without a match the method prints a message and returns an
  empty frame; otherwise the two coordinate columns are converted.
  \<^verbatim>\<open>
  if not matches:
      print(...)
      return pd.DataFrame()
  \<close>
\<close>

definition parse_route_info_interactive :: "string \<Rightarrow> string \<Rightarrow> string \<Rightarrow> error + (string, string, rat) stop_row list" where
  "parse_route_info_interactive rid dir content =
     (let matches = findall stop_pattern content in
      if matches = [] then Inr []
      else
        (case collect (frame_row rid dir) matches of
           Inl e \<Rightarrow> Inl e
         | Inr df \<Rightarrow>
            (case collect to_float (map latitude df) of
               Inl e \<Rightarrow> Inl e
             | Inr lats \<Rightarrow>
                (case collect to_float (map longitude df) of
                   Inl e \<Rightarrow> Inl e
                 | Inr lons \<Rightarrow>
                     Inr (map (\<lambda>(r, la, lo). retype r (stop_number r) la lo)
                            (zip df (zip lats lons)))))))"

section \<open>Persistence store\<close>

text \<open>
  The two tables of the SQLite file are lists of rows. \<^verbatim>\<open>session.merge(obj)\<close> looks the
  primary key of \<open>obj\<close> up: a row that has it takes over the attributes \<open>obj\<close> was given,
  otherwise \<open>obj\<close> becomes a new row.
\<close>

fun session_merge :: "('r \<Rightarrow> 'k) \<Rightarrow> ('r \<Rightarrow> 'r \<Rightarrow> 'r) \<Rightarrow> 'r \<Rightarrow> 'r list \<Rightarrow> 'r list" where
  "session_merge key upd x [] = [x]"
| "session_merge key upd x (r # tbl) =
     (if key r = key x then upd r x # tbl else r # session_merge key upd x tbl)"

subsection \<open>Route table (\<open>taipei_route_list\<close>)\<close>

text \<open>
  \<^verbatim>\<open>
  class RouteORM(Base):
      __tablename__ = 'data_route_list'
      route_id = Column(String, primary_key=True)
      route_name = Column(String)
      route_data_updated = Column(Enum(RouteStatus), default=RouteStatus.pending)
  \<close>
  In \<^verbatim>\<open>00003.py\<close> the status column is an integer with default 0, so the status type is
  a parameter.
\<close>

datatype RouteStatus = pending | updated | failed

record 's route_row =
  route_id :: string
  route_name :: string
  route_data_updated :: 's

text \<open>
  \<^verbatim>\<open>
  def save_to_database(self):
      for _, row in self.dataframe.iterrows():
          self.session.merge(RouteORM(route_id=row['route_id'], route_name=row['route_name']))
      self.session.commit()
  \<close>
  The merged object carries no status: an existing row keeps its status, a new row gets
  the column default.
\<close>

definition set_route_name :: "'s route_row \<Rightarrow> 's route_row \<Rightarrow> 's route_row" where
  "set_route_name old new = old\<lparr>route_name := route_name new\<rparr>"

definition RouteORM :: "'s \<Rightarrow> string \<times> string \<Rightarrow> 's route_row" where
  "RouteORM dflt row = \<lparr>route_id = fst row, route_name = snd row, route_data_updated = dflt\<rparr>"

definition route_list_save_to_database ::
    "'s \<Rightarrow> (string \<times> string) list \<Rightarrow> 's route_row list \<Rightarrow> 's route_row list" where
  "route_list_save_to_database dflt df tbl =
     fold (\<lambda>row. session_merge route_id set_route_name (RouteORM dflt row)) df tbl"

text \<open>\<^verbatim>\<open>read_from_database\<close>: the whole table as a frame, in table order.\<close>

definition read_from_database :: "'s route_row list \<Rightarrow> 's route_row list" where
  "read_from_database tbl = tbl"

text \<open>
  \<^verbatim>\<open>
  def set_route_status(self, route_id, status: RouteStatus):
      self.session.query(RouteORM).filter_by(route_id=route_id).update({"route_data_updated": status})
      self.session.commit()
  \<close>
  (\<^verbatim>\<open>set_route_data_updated\<close> and \<^verbatim>\<open>set_route_data_unexcepted\<close> of \<^verbatim>\<open>00003.py\<close> are the same
  update with the values 1 and 2.)
\<close>

definition set_route_status :: "string \<Rightarrow> 's \<Rightarrow> 's route_row list \<Rightarrow> 's route_row list" where
  "set_route_status rid status tbl =
     map (\<lambda>r. if route_id r = rid then r\<lparr>route_data_updated := status\<rparr> else r) tbl"

subsection \<open>Stop table (\<open>taipei_route_info\<close>)\<close>

text \<open>
  \<^verbatim>\<open>
  class StopORM(Base):
      __tablename__ = "data_route_info_busstop"
      stop_id = Column(Integer)
      arrival_info = Column(String)
      stop_number = Column(Integer, primary_key=True)
      stop_name = Column(String)
      latitude = Column(Float)
      longitude = Column(Float)
      direction = Column(String, primary_key=True)
      route_id = Column(String, primary_key=True)
  \<close>
  (\<^verbatim>\<open>bus_stop_orm\<close> of \<^verbatim>\<open>00003.py\<close> has the same columns.) What a cell of the table holds is
  decided when a value is bound to its column:
  \<^item> an \<^verbatim>\<open>Integer\<close> column of SQLite has integer affinity. An integer is stored as it is.
    A text of digits is stored as the integer it denotes, so the texts \<open>1\<close> and \<open>01\<close> are
    one value, also as a key; a number from \<open>2^63\<close> on does not fit and is stored as a
    \<^verbatim>\<open>REAL\<close>, given here by the number that was written (two such numbers can be one
    \<^verbatim>\<open>REAL\<close>, so what is proved about keys is proved for numbers below \<open>2^63\<close>). The
    conversion is given for texts of digits, the texts the pattern captures; another
    text is kept as text here.
  \<^item> a \<^verbatim>\<open>Float\<close> column converts the value with \<^verbatim>\<open>float()\<close> when the statement is sent,
    which raises for a text that is no float literal; the statement fails and the
    session rolls its transaction back;
  \<^item> a \<^verbatim>\<open>String\<close> column keeps the text.
\<close>

datatype sql_value = SqlInteger int | SqlReal rat | SqlText string

type_synonym stored_stop = "(sql_value, sql_value, rat) stop_row"

definition integer_affinity :: "string \<Rightarrow> sql_value" where
  "integer_affinity t =
     (if t \<noteq> [] \<and> list_all is_digit t then
        if decimal t < 9223372036854775808 then SqlInteger (decimal t)
        else SqlReal (of_int (decimal t))
      else SqlText t)"

definition stop_key :: "('n, 'i, 'f) stop_row \<Rightarrow> string \<times> string \<times> 'n" where
  "stop_key r = (stop_route_id r, direction r, stop_number r)"

text \<open>
  The loop of \<^verbatim>\<open>save_to_database\<close> on the rows as the table holds them. Every attribute is
  given, so a merge replaces the whole row.
  \<^verbatim>\<open>
  for _, row in self.dataframe.iterrows():
      session.merge(StopORM(stop_id=row["stop_id"], arrival_info=row["arrival_info"],
          stop_number=row["stop_number"], stop_name=row["stop_name"],
          latitude=row["latitude"], longitude=row["longitude"],
          direction=row["direction"], route_id=row["route_id"]))
  session.commit()
  session.close()
  \<close>
\<close>

definition merge_rows ::
    "('n, 'i, 'f) stop_row list \<Rightarrow> ('n, 'i, 'f) stop_row list \<Rightarrow> ('n, 'i, 'f) stop_row list" where
  "merge_rows rows tbl = fold (session_merge stop_key (\<lambda>old new. new)) rows tbl"

text \<open>
  \<^verbatim>\<open>scraper/realtime_scraper.py\<close>: the frame holds the stop number as an integer below
  \<open>2^63\<close> and the coordinates as floats; the stop id is captured text. Nothing raises.
\<close>

definition StopORM :: "(int, string, rat) stop_row \<Rightarrow> stored_stop" where
  "StopORM r =
     \<lparr>arrival_info = arrival_info r, stop_number = SqlInteger (stop_number r),
      stop_name = stop_name r, stop_id = integer_affinity (stop_id r),
      latitude = latitude r, longitude = longitude r, direction = direction r,
      stop_route_id = stop_route_id r\<rparr>"

definition route_info_save_to_database ::
    "(int, string, rat) stop_row list \<Rightarrow> stored_stop list \<Rightarrow>
       stored_stop list" where
  "route_info_save_to_database df tbl = merge_rows (map StopORM df) tbl"

text \<open>
  \<^verbatim>\<open>00003.py\<close>: the frame holds captured texts only. The coordinates go through \<^verbatim>\<open>float()\<close>
  when a row is sent to the table; when that raises for a row, \<^verbatim>\<open>save_to_database\<close> raises
  and the table is as it was before the call.

  The session finds the object of an earlier merge by the key as it was given, a text
  here, and the row of the table by the key as the table holds it, a number. For a frame
  in which every stop number occurs once, as on a page of the site, the two agree and
  the method is the loop above on the converted rows. The theorems on this method are
  stated for such frames.
\<close>

definition bus_stop_orm ::
    "(string, string, string) stop_row \<Rightarrow> error + stored_stop" where
  "bus_stop_orm r =
     (case to_float (latitude r) of
        Inl e \<Rightarrow> Inl (DatabaseError ''could not convert string to float'')
      | Inr la \<Rightarrow>
         (case to_float (longitude r) of
            Inl e \<Rightarrow> Inl (DatabaseError ''could not convert string to float'')
          | Inr lo \<Rightarrow>
              Inr \<lparr>arrival_info = arrival_info r,
                   stop_number = integer_affinity (stop_number r),
                   stop_name = stop_name r, stop_id = integer_affinity (stop_id r),
                   latitude = la, longitude = lo, direction = direction r,
                   stop_route_id = stop_route_id r\<rparr>))"

definition route_info_save_to_database_00003 ::
    "(string, string, string) stop_row list \<Rightarrow> stored_stop list \<Rightarrow>
       error + stored_stop list" where
  "route_info_save_to_database_00003 df tbl =
     (case collect bus_stop_orm df of
        Inl e \<Rightarrow> Inl e
      | Inr rows \<Rightarrow> Inr (merge_rows rows tbl))"

section \<open>Page renderer\<close>

text \<open>
  What the browser does is the environment of the program: \<open>loaded\<close> is the content
  after \<^verbatim>\<open>page.goto\<close> and the settle delay (\<open>None\<close>: \<^verbatim>\<open>goto\<close> raises), \<open>after_click\<close>
  the content after the inbound tab was clicked (\<open>None\<close>: \<^verbatim>\<open>page.click\<close> raises, because
  the target is absent or the click timed out).
\<close>

record browser_page =
  loaded :: "string option"
  after_click :: "string option"

text \<open>
  \<^verbatim>\<open>00003.py\<close>, \<^verbatim>\<open>scraper/realtime_scraper.py\<close>:
  \<^verbatim>\<open>
  def _fetch_content(self):
      with sync_playwright() as p:
          browser = p.chromium.launch(headless=True)
          page = browser.new_page()
          page.goto(self.url)
          if self.direction == 'come':
              page.click('a.stationlist-come-go-gray.stationlist-come')
          page.wait_for_timeout(3000)
          self.content = page.content()
          browser.close()
  \<close>
\<close>

definition fetch_content :: "string \<Rightarrow> browser_page \<Rightarrow> error + string" where
  "fetch_content dir pg =
     (case loaded pg of
        None \<Rightarrow> Inl (BrowserError ''goto failed'')
      | Some c \<Rightarrow>
          if dir = ''come'' then
            (case after_click pg of
               None \<Rightarrow> Inl (BrowserError ''click failed'')
             | Some c' \<Rightarrow> Inr c')
          else Inr c)"

text \<open>The constructor checks the direction and fetches.\<close>

definition new_route_info :: "string \<Rightarrow> browser_page \<Rightarrow> error + string" where
  "new_route_info dir pg =
     (if dir \<noteq> ''go'' \<and> dir \<noteq> ''come'' then Inl (ValueError ''Direction must be go or come'')
      else fetch_content dir pg)"

text \<open>
  \<^verbatim>\<open>interactive_bus_info.py\<close>:
  \<^verbatim>\<open>
  def fetch_route_info(self):
      print(...)
      with sync_playwright() as p:
          ...
          page.goto(self.url)
          if self.direction == 'come':
              try:
                  page.click('a.stationlist-come-go-gray.stationlist-come', timeout=5000)
                  page.wait_for_timeout(1000)
              except Exception as e:
                  print(...)
          page.wait_for_timeout(3000)
          self.content = page.content()
          browser.close()
  \<close>
  The result is the list of printed messages (rendered in English) and the content.
\<close>

definition fetch_route_info :: "string \<Rightarrow> browser_page \<Rightarrow> error + string list \<times> string" where
  "fetch_route_info dir pg =
     (case loaded pg of
        None \<Rightarrow> Inl (BrowserError ''goto failed'')
      | Some c \<Rightarrow>
          if dir = ''come'' then
            (case after_click pg of
               None \<Rightarrow> Inr ([''fetching'', ''click on the inbound tab failed''], c)
             | Some c' \<Rightarrow> Inr ([''fetching''], c'))
          else Inr ([''fetching''], c))"

section \<open>Driver loop\<close>

text \<open>
  The state of a run is the two tables. \<open>status_writes\<close> is a history added for the
  verification: every call of \<^verbatim>\<open>set_route_status\<close> appends the route, the status values
  its rows had before the call, and the value written.
\<close>

record ('s, 'n, 'i, 'f) store =
  route_table :: "'s route_row list"
  stop_table :: "('n, 'i, 'f) stop_row list"
  status_writes :: "(string \<times> 's list \<times> 's) list"

text \<open>
  The status is a \<open>RouteStatus\<close> in \<^verbatim>\<open>scraper/realtime_scraper.py\<close> and an integer in
  \<^verbatim>\<open>00003.py\<close>; the stop table holds the rows as the columns store them.
\<close>

type_synonym realtime_store = "(RouteStatus, sql_value, sql_value, rat) store"

type_synonym store_00003 = "(int, sql_value, sql_value, rat) store"

definition status_of :: "string \<Rightarrow> 's route_row list \<Rightarrow> 's list" where
  "status_of rid tbl = map route_data_updated (filter (\<lambda>r. route_id r = rid) tbl)"

definition store_set_route_status ::
    "string \<Rightarrow> 's \<Rightarrow> ('s, 'n, 'i, 'f) store \<Rightarrow> ('s, 'n, 'i, 'f) store" where
  "store_set_route_status rid status st =
     st\<lparr>route_table := set_route_status rid status (route_table st),
        status_writes := status_writes st @ [(rid, status_of rid (route_table st), status)]\<rparr>"

text \<open>
  One pass of the loop body works on one route; what the browser, the database and the
  plotting library do to it is given with the attempt (\<open>att_db_ok = False\<close>: the
  database raises inside \<^verbatim>\<open>save_to_database\<close> and nothing is committed;
  \<open>att_plot_ok = False\<close>: \<^verbatim>\<open>plot_route_map\<close> raises).
\<close>

record attempt =
  att_route :: string
  att_page :: browser_page
  att_db_ok :: bool
  att_plot_ok :: bool

text \<open>
  \<^verbatim>\<open>scraper/realtime_scraper.py\<close>:
  \<^verbatim>\<open>
  for route_id in bus_list:
      try:
          route_info = taipei_route_info(route_id, direction="go", save_html=True)
          route_info.parse_route_info()
          route_info.save_to_database()
          ... print ...
          route_list.set_route_status(route_id, RouteStatus.updated)
      except Exception as e:
          print(f"[Error] Route {route_id} failed: {e}")
          logging.error(f"Route {route_id} failed with error: {e}")
          route_list.set_route_status(route_id, RouteStatus.failed)
  \<close>
  \<open>try_route\<close> is the body of \<^verbatim>\<open>try\<close> up to the status update: the exception raised, if
  any, and the state reached.
\<close>

definition try_route ::
    "attempt \<Rightarrow> realtime_store \<Rightarrow> error option \<times> realtime_store" where
  "try_route a st =
     (case new_route_info ''go'' (att_page a) of
        Inl e \<Rightarrow> (Some e, st)
      | Inr content \<Rightarrow>
         (case parse_route_info (att_route a) ''go'' content of
            Inl e \<Rightarrow> (Some e, st)
          | Inr df \<Rightarrow>
              if att_db_ok a
              then (None, st\<lparr>stop_table := route_info_save_to_database df (stop_table st)\<rparr>)
              else (Some (DatabaseError ''save_to_database failed''), st)))"

definition process_route ::
    "attempt \<Rightarrow> realtime_store \<Rightarrow> realtime_store" where
  "process_route a st =
     (case try_route a st of
        (None, st') \<Rightarrow> store_set_route_status (att_route a) updated st'
      | (Some e, st') \<Rightarrow> store_set_route_status (att_route a) failed st')"

definition driver ::
    "attempt list \<Rightarrow> realtime_store \<Rightarrow> realtime_store" where
  "driver attempts st = fold process_route attempts st"

text \<open>
  \<^verbatim>\<open>00003.py\<close>: the same loop over a fixed list, with the frame of captured texts (so
  the save can raise on its own), a plot after the save, and the status values 1 and 2.
  \<^verbatim>\<open>
  for route_id in bus_list:
      try:
          route_info = taipei_route_info(route_id, direction="go")
          route_info.parse_route_info()
          route_info.save_to_database()
          ... print ...
          route_info.plot_route_map(map_path, person_stop_number)
          route_list.set_route_data_updated(route_id)
      except Exception as e:
          print(...)
          route_list.set_route_data_unexcepted(route_id)
  \<close>
\<close>

definition try_route_00003 ::
    "attempt \<Rightarrow> store_00003 \<Rightarrow> error option \<times> store_00003" where
  "try_route_00003 a st =
     (case new_route_info ''go'' (att_page a) of
        Inl e \<Rightarrow> (Some e, st)
      | Inr content \<Rightarrow>
         (case parse_route_info_text (att_route a) ''go'' content of
            Inl e \<Rightarrow> (Some e, st)
          | Inr df \<Rightarrow>
              if att_db_ok a
              then
                (case route_info_save_to_database_00003 df (stop_table st) of
                   Inl e \<Rightarrow> (Some e, st)
                 | Inr tbl \<Rightarrow>
                     (if att_plot_ok a then None else Some (PlotError ''plot_route_map failed''),
                      st\<lparr>stop_table := tbl\<rparr>))
              else (Some (DatabaseError ''save_to_database failed''), st)))"

definition process_route_00003 ::
    "attempt \<Rightarrow> store_00003 \<Rightarrow> store_00003" where
  "process_route_00003 a st =
     (case try_route_00003 a st of
        (None, st') \<Rightarrow> store_set_route_status (att_route a) 1 st'
      | (Some e, st') \<Rightarrow> store_set_route_status (att_route a) 2 st')"

definition driver_00003 ::
    "attempt list \<Rightarrow> store_00003 \<Rightarrow> store_00003" where
  "driver_00003 attempts st = fold process_route_00003 attempts st"

text \<open>
  The list of routes of \<^verbatim>\<open>scraper/realtime_scraper.py\<close>:
  \<^verbatim>\<open>
  pending_routes = route_list.read_from_database()
  bus_list = pending_routes[pending_routes['route_data_updated'] == 'pending']['route_id'].tolist()
  \<close>
  The column is read through \<^verbatim>\<open>Enum(RouteStatus)\<close>, so its cells are the members of the
  enumeration, and the filter compares each member with the text \<^verbatim>\<open>'pending'\<close>. A member of
  a plain \<^verbatim>\<open>enum.Enum\<close> is equal to itself only: \<open>enum_eq_str\<close> is Python's \<^verbatim>\<open>==\<close> between a
  member and a text.
\<close>

definition enum_eq_str :: "RouteStatus \<Rightarrow> string \<Rightarrow> bool" where
  "enum_eq_str member text = False"

definition pending_routes :: "RouteStatus route_row list \<Rightarrow> string list" where
  "pending_routes tbl =
     map route_id
       (filter (\<lambda>r. enum_eq_str (route_data_updated r) ''pending'') (read_from_database tbl))"


section \<open>Properties of the persistence store\<close>

subsection \<open>One merge\<close>

lemma session_merge_keys:
  assumes "\<And>r. key r = key x \<Longrightarrow> key (upd r x) = key x"
  shows "map key (session_merge key upd x tbl) =
    (if key x \<in> key ` set tbl then map key tbl else map key tbl @ [key x])"
  using assms by (induction tbl) auto

lemma session_merge_distinct:
  assumes "\<And>r. key r = key x \<Longrightarrow> key (upd r x) = key x" "distinct (map key tbl)"
  shows "distinct (map key (session_merge key upd x tbl))"
  using assms by (simp add: session_merge_keys)

lemma session_merge_other:
  assumes "\<And>r. key r = key x \<Longrightarrow> key (upd r x) = key x" "k \<noteq> key x"
  shows "filter (\<lambda>r. key r = k) (session_merge key upd x tbl) = filter (\<lambda>r. key r = k) tbl"
  using assms by (induction tbl) auto

lemma filter_key_absent: "k \<notin> key ` set tbl \<Longrightarrow> filter (\<lambda>r. key r = k) tbl = []"
  by (induction tbl) auto

lemma session_merge_same:
  assumes "\<And>r. key r = key x \<Longrightarrow> key (upd r x) = key x" "distinct (map key tbl)"
  shows "filter (\<lambda>r. key r = key x) (session_merge key upd x tbl) =
    (case filter (\<lambda>r. key r = key x) tbl of [] \<Rightarrow> [x] | r # _ \<Rightarrow> [upd r x])"
  using assms
proof (induction tbl)
  case Nil
  then show ?case by simp
next
  case (Cons r tbl)
  show ?case
  proof (cases "key r = key x")
    case True
    with Cons.prems have "key x \<notin> key ` set tbl" by auto
    then have "filter (\<lambda>r. key r = key x) tbl = []" by (rule filter_key_absent)
    with True Cons.prems(1) show ?thesis by simp
  next
    case False
    with Cons show ?thesis by simp
  qed
qed

lemma session_merge_present:
  assumes "distinct (map key tbl)" "key x \<in> key ` set tbl"
  shows "session_merge key upd x tbl = map (\<lambda>r. if key r = key x then upd r x else r) tbl"
  using assms
proof (induction tbl)
  case Nil
  then show ?case by simp
next
  case (Cons r tbl)
  show ?case
  proof (cases "key r = key x")
    case True
    with Cons.prems have "key x \<notin> key ` set tbl" by auto
    then have "\<forall>r' \<in> set tbl. key r' \<noteq> key x" by (metis imageI)
    then have "map (\<lambda>r. if key r = key x then upd r x else r) tbl = tbl"
      by (simp add: map_idI)
    with True show ?thesis by simp
  next
    case False
    with Cons show ?thesis by auto
  qed
qed


subsection \<open>A sequence of merges\<close>

lemma fold_merge_distinct:
  assumes "\<And>r x. key r = key x \<Longrightarrow> key (upd r x) = key x" "distinct (map key tbl)"
  shows "distinct (map key (fold (session_merge key upd) xs tbl))"
  using assms(2)
proof (induction xs arbitrary: tbl)
  case Nil
  then show ?case by simp
next
  case (Cons x xs)
  from Cons.prems have "distinct (map key (session_merge key upd x tbl))"
    by (intro session_merge_distinct assms(1))
  then show ?case using Cons.IH by simp
qed

lemma fold_merge_key_set:
  assumes "\<And>r x. key r = key x \<Longrightarrow> key (upd r x) = key x"
  shows "key ` set (fold (session_merge key upd) xs tbl) = key ` set tbl \<union> key ` set xs"
proof (induction xs arbitrary: tbl)
  case Nil
  then show ?case by simp
next
  case (Cons x xs)
  have "set (map key (session_merge key upd x tbl)) = insert (key x) (key ` set tbl)"
    by (subst session_merge_keys) (auto simp: assms)
  then have "key ` set (session_merge key upd x tbl) = insert (key x) (key ` set tbl)"
    by simp
  with Cons.IH [of "session_merge key upd x tbl"] show ?case by auto
qed

lemma fold_merge_untouched:
  assumes "\<And>r x. key r = key x \<Longrightarrow> key (upd r x) = key x" "k \<notin> key ` set xs"
  shows "filter (\<lambda>r. key r = k) (fold (session_merge key upd) xs tbl) = filter (\<lambda>r. key r = k) tbl"
  using assms(2)
proof (induction xs arbitrary: tbl)
  case Nil
  then show ?case by simp
next
  case (Cons x xs)
  from Cons.prems have "k \<noteq> key x" "k \<notin> key ` set xs" by auto
  then show ?case
    using Cons.IH [of "session_merge key upd x tbl"] session_merge_other [of key x upd k tbl] assms(1)
    by simp
qed

lemma fold_merge_last_write:
  assumes key_upd: "\<And>r x. key r = key x \<Longrightarrow> key (upd r x) = key x"
    and view_upd: "\<And>r x. view (upd r x) = view x"
    and "distinct (map key tbl)" "k \<in> key ` set xs"
  shows "\<exists>r. filter (\<lambda>r. key r = k) (fold (session_merge key upd) xs tbl) = [r]
    \<and> view r = view (last (filter (\<lambda>x. key x = k) xs))"
  using assms(4)
proof (induction xs rule: rev_induct)
  case Nil
  then show ?case by simp
next
  case (snoc y xs)
  let ?T = "fold (session_merge key upd) xs tbl"
  have dT: "distinct (map key ?T)"
    by (rule fold_merge_distinct) (use assms in auto)
  have step: "fold (session_merge key upd) (xs @ [y]) tbl = session_merge key upd y ?T"
    by simp
  show ?case
  proof (cases "key y = k")
    case True
    have "filter (\<lambda>r. key r = key y) (session_merge key upd y ?T) =
      (case filter (\<lambda>r. key r = key y) ?T of [] \<Rightarrow> [y] | r # _ \<Rightarrow> [upd r y])"
      by (rule session_merge_same) (use key_upd dT in auto)
    then obtain r where "filter (\<lambda>r. key r = key y) (session_merge key upd y ?T) = [r]"
      "view r = view y"
      by (cases "filter (\<lambda>r. key r = key y) ?T") (auto simp: view_upd)
    with True step show ?thesis by auto
  next
    case False
    with snoc.prems have kin: "k \<in> key ` set xs" by auto
    from False have "filter (\<lambda>r. key r = k) (session_merge key upd y ?T) = filter (\<lambda>r. key r = k) ?T"
      by (intro session_merge_other key_upd) auto
    with snoc.IH [OF kin] False step show ?thesis by auto
  qed
qed

lemma fold_merge_present:
  assumes key_upd: "\<And>r x. key r = key x \<Longrightarrow> key (upd r x) = key x"
    and "distinct (map key tbl)" "key ` set xs \<subseteq> key ` set tbl"
  shows "fold (session_merge key upd) xs tbl =
    map (\<lambda>r. fold (\<lambda>x r. if key r = key x then upd r x else r) xs r) tbl"
  using assms(2,3)
proof (induction xs arbitrary: tbl)
  case Nil
  then show ?case by simp
next
  case (Cons x xs)
  let ?g = "\<lambda>r. if key r = key x then upd r x else r"
  from Cons.prems have m: "session_merge key upd x tbl = map ?g tbl"
    by (intro session_merge_present) auto
  have keys: "map key (map ?g tbl) = map key tbl"
    by (auto simp: key_upd)
  from Cons.prems(1) have "distinct (map key (map ?g tbl))"
    by (simp only: keys)
  moreover have "key ` set (map ?g tbl) = set (map key (map ?g tbl))"
    by (simp only: set_map)
  then have "key ` set (map ?g tbl) = key ` set tbl"
    by (simp only: keys set_map)
  with Cons.prems(2) have "key ` set xs \<subseteq> key ` set (map ?g tbl)"
    by simp
  ultimately have "fold (session_merge key upd) xs (map ?g tbl) =
    map (\<lambda>r. fold (\<lambda>x r. if key r = key x then upd r x else r) xs r) (map ?g tbl)"
    by (rule Cons.IH)
  with m show ?case by simp
qed

lemma row_fold_key:
  assumes key_upd: "\<And>r x. key r = key x \<Longrightarrow> key (upd r x) = key x"
  shows "key (fold (\<lambda>x r. if key r = key x then upd r x else r) xs r) = key r"
proof (induction xs arbitrary: r)
  case Nil
  then show ?case by simp
next
  case (Cons x xs)
  have "key (if key r = key x then upd r x else r) = key r"
    by (simp add: key_upd)
  with Cons.IH [of "if key r = key x then upd r x else r"] show ?case
    by simp
qed

lemma row_fold:
  assumes key_upd: "\<And>r x. key r = key x \<Longrightarrow> key (upd r x) = key x"
    and absorb: "\<And>r x y. upd (upd r x) y = upd r y"
  shows "fold (\<lambda>x r. if key r = key x then upd r x else r) xs r =
    (if key r \<in> key ` set xs then upd r (last (filter (\<lambda>x. key x = key r) xs)) else r)"
proof (induction xs rule: rev_induct)
  case Nil
  then show ?case by simp
next
  case (snoc y xs)
  let ?r' = "fold (\<lambda>x r. if key r = key x then upd r x else r) xs r"
  have k: "key ?r' = key r"
    by (rule row_fold_key [of key upd, OF key_upd])
  have step: "fold (\<lambda>x r. if key r = key x then upd r x else r) (xs @ [y]) r =
    (if key r = key y then upd ?r' y else ?r')"
    by (simp add: k)
  show ?case
  proof (cases "key r = key y")
    case True
    have "upd ?r' y = upd r y"
      by (simp add: snoc.IH absorb)
    with True step show ?thesis by simp
  next
    case False
    then have "filter (\<lambda>x. key x = key r) (xs @ [y]) = filter (\<lambda>x. key x = key r) xs"
      by auto
    moreover from False have "key r \<in> key ` set (xs @ [y]) \<longleftrightarrow> key r \<in> key ` set xs"
      by auto
    ultimately show ?thesis
      using False step snoc.IH by simp
  qed
qed

lemma fold_merge_idem:
  assumes key_upd: "\<And>r x. key r = key x \<Longrightarrow> key (upd r x) = key x"
    and view_upd: "\<And>r x. view (upd r x) = view x"
    and absorb: "\<And>r x y. upd (upd r x) y = upd r y"
    and same: "\<And>r x. key r = key x \<Longrightarrow> view r = view x \<Longrightarrow> upd r x = r"
    and "distinct (map key tbl)"
  shows "fold (session_merge key upd) xs (fold (session_merge key upd) xs tbl) =
    fold (session_merge key upd) xs tbl"
proof -
  let ?T = "fold (session_merge key upd) xs tbl"
  have dT: "distinct (map key ?T)"
    by (rule fold_merge_distinct) (use assms in auto)
  have sub: "key ` set xs \<subseteq> key ` set ?T"
    by (simp add: fold_merge_key_set [of key upd, OF key_upd])
  have "fold (session_merge key upd) xs ?T =
    map (\<lambda>r. fold (\<lambda>x r. if key r = key x then upd r x else r) xs r) ?T"
    by (rule fold_merge_present [OF key_upd dT sub])
  also have "\<dots> = map (\<lambda>r. r) ?T"
  proof (rule map_cong [OF refl])
    fix r
    assume r: "r \<in> set ?T"
    show "fold (\<lambda>x r. if key r = key x then upd r x else r) xs r = r"
    proof (cases "key r \<in> key ` set xs")
      case False
      then show ?thesis by (simp add: row_fold [of key upd, OF key_upd absorb])
    next
      case True
      from fold_merge_last_write [of key upd view, OF key_upd view_upd assms(5) True]
      obtain r' where r': "filter (\<lambda>q. key q = key r) ?T = [r']"
        "view r' = view (last (filter (\<lambda>x. key x = key r) xs))"
        by blast
      from r have "r \<in> set (filter (\<lambda>q. key q = key r) ?T)" by simp
      with r' have rr: "r = r'" by simp
      from True have "filter (\<lambda>x. key x = key r) xs \<noteq> []"
        by (auto simp: filter_empty_conv)
      then have "last (filter (\<lambda>x. key x = key r) xs) \<in> set (filter (\<lambda>x. key x = key r) xs)"
        by (rule last_in_set)
      then have "key (last (filter (\<lambda>x. key x = key r) xs)) = key r" by simp
      with r'(2) rr have "upd r (last (filter (\<lambda>x. key x = key r) xs)) = r"
        by (intro same) auto
      with True show ?thesis by (simp add: row_fold [of key upd, OF key_upd absorb])
    qed
  qed
  finally show ?thesis by simp
qed

subsection \<open>The two tables\<close>

lemma route_save_as_fold:
  "route_list_save_to_database dflt df tbl =
     fold (session_merge route_id set_route_name) (map (RouteORM dflt) df) tbl"
  by (simp add: route_list_save_to_database_def fold_map comp_def)

lemma route_save_distinct:
  "distinct (map route_id tbl) \<Longrightarrow> distinct (map route_id (route_list_save_to_database dflt df tbl))"
  unfolding route_save_as_fold
  by (rule fold_merge_distinct) (simp_all add: set_route_name_def)

lemma route_save_ids:
  "route_id ` set (route_list_save_to_database dflt df tbl) = route_id ` set tbl \<union> fst ` set df"
proof -
  have "route_id ` set (fold (session_merge route_id set_route_name) (map (RouteORM dflt) df) tbl)
    = route_id ` set tbl \<union> route_id ` set (map (RouteORM dflt) df)"
    by (rule fold_merge_key_set) (simp add: set_route_name_def)
  moreover have "route_id ` set (map (RouteORM dflt) df) = fst ` set df"
    by (simp add: RouteORM_def image_image)
  ultimately show ?thesis by (simp add: route_save_as_fold)
qed

lemma route_save_last_write:
  assumes "distinct (map route_id tbl)" "row \<in> set df"
  shows "\<exists>r. filter (\<lambda>r. route_id r = fst row) (route_list_save_to_database dflt df tbl) = [r]
    \<and> route_name r = snd (last (filter (\<lambda>y. fst y = fst row) df))"
proof -
  let ?xs = "map (RouteORM dflt) df"
  from assms(2) have kin: "fst row \<in> route_id ` set ?xs"
    by (force simp: RouteORM_def)
  have "\<exists>r. filter (\<lambda>r. route_id r = fst row)
        (fold (session_merge route_id set_route_name) ?xs tbl) = [r]
    \<and> route_name r = route_name (last (filter (\<lambda>x. route_id x = fst row) ?xs))"
    by (rule fold_merge_last_write [OF _ _ assms(1) kin]) (simp_all add: set_route_name_def)
  moreover have "filter (\<lambda>x. route_id x = fst row) ?xs =
    map (RouteORM dflt) (filter (\<lambda>y. fst y = fst row) df)"
    by (simp add: filter_map comp_def RouteORM_def)
  moreover from assms(2) have "filter (\<lambda>y. fst y = fst row) df \<noteq> []"
    by (auto simp: filter_empty_conv)
  ultimately show ?thesis
    by (simp add: route_save_as_fold last_map RouteORM_def)
qed

lemma route_save_idem:
  assumes "distinct (map route_id tbl)"
  shows "route_list_save_to_database dflt df (route_list_save_to_database dflt df tbl) =
    route_list_save_to_database dflt df tbl"
  unfolding route_save_as_fold
  by (rule fold_merge_idem [where view = route_name]) (simp_all add: set_route_name_def assms)

lemma merge_rows_distinct:
  "distinct (map stop_key tbl) \<Longrightarrow> distinct (map stop_key (merge_rows rows tbl))"
  unfolding merge_rows_def
  by (rule fold_merge_distinct) simp_all

lemma merge_rows_last_write:
  assumes "distinct (map stop_key tbl)" "x \<in> set rows"
  shows "filter (\<lambda>r. stop_key r = stop_key x) (merge_rows rows tbl) =
    [last (filter (\<lambda>y. stop_key y = stop_key x) rows)]"
proof -
  from assms(2) have kin: "stop_key x \<in> stop_key ` set rows" by simp
  have "\<exists>r. filter (\<lambda>r. stop_key r = stop_key x)
        (fold (session_merge stop_key (\<lambda>old new. new)) rows tbl) = [r]
    \<and> id r = id (last (filter (\<lambda>y. stop_key y = stop_key x) rows))"
    by (rule fold_merge_last_write [OF _ _ assms(1) kin]) simp_all
  then show ?thesis by (auto simp: merge_rows_def)
qed

lemma merge_rows_idem:
  assumes "distinct (map stop_key tbl)"
  shows "merge_rows rows (merge_rows rows tbl) = merge_rows rows tbl"
  unfolding merge_rows_def
  by (rule fold_merge_idem [where view = id]) (simp_all add: assms)

lemma filter_key_unique:
  "distinct (map f xs) \<Longrightarrow> x \<in> set xs \<Longrightarrow> filter (\<lambda>y. f y = f x) xs = [x]"
proof (induction xs)
  case Nil
  then show ?case by simp
next
  case (Cons a xs)
  show ?case
  proof (cases "a = x")
    case True
    with Cons.prems have "f x \<notin> f ` set xs" by simp
    then have "filter (\<lambda>y. f y = f x) xs = []" by (rule filter_key_absent)
    with True show ?thesis by simp
  next
    case False
    with Cons.prems have "x \<in> set xs" "f a \<noteq> f x" by auto
    with Cons show ?thesis by simp
  qed
qed

text \<open>
  Claim C8, amended. When the route records written have pairwise different route ids
  and the table holds no route id beyond those written (and has unique ids), reading
  back returns as many records as were written, and their \<open>(route_id, route_name)\<close>
  pairs are, as a set, the pairs written.
\<close>

theorem route_round_trip:
  assumes "distinct (map fst df)" "distinct (map route_id tbl)"
    "route_id ` set tbl \<subseteq> fst ` set df"
  shows "length (read_from_database (route_list_save_to_database dflt df tbl)) = length df
    \<and> set (map (\<lambda>r. (route_id r, route_name r))
          (read_from_database (route_list_save_to_database dflt df tbl))) = set df"
proof -
  let ?T = "route_list_save_to_database dflt df tbl"
  have dT: "distinct (map route_id ?T)"
    using assms(2) by (rule route_save_distinct)
  have ids: "route_id ` set ?T = fst ` set df"
    using assms(3) by (auto simp: route_save_ids)
  have "length ?T = length (map route_id ?T)" by simp
  also have "\<dots> = card (set (map route_id ?T))"
    using dT by (simp only: distinct_card)
  also have "\<dots> = card (set (map fst df))"
    using ids by simp
  also have "\<dots> = length df"
    using assms(1) by (simp only: distinct_card length_map)
  finally have len: "length ?T = length df" .
  have row: "\<exists>r. filter (\<lambda>r. route_id r = fst row) ?T = [r] \<and> route_name r = snd row"
    if "row \<in> set df" for row
  proof -
    from assms(1) that have "filter (\<lambda>y. fst y = fst row) df = [row]"
      by (rule filter_key_unique)
    with route_save_last_write [OF assms(2) that, of dflt] show ?thesis by simp
  qed
  have "set (map (\<lambda>r. (route_id r, route_name r)) ?T) = set df"
  proof (intro set_eqI iffI)
    fix p
    assume "p \<in> set (map (\<lambda>r. (route_id r, route_name r)) ?T)"
    then obtain r where r: "r \<in> set ?T" "p = (route_id r, route_name r)" by auto
    with ids obtain row where rw: "row \<in> set df" "fst row = route_id r" by force
    from row [OF rw(1)] obtain r' where r': "filter (\<lambda>r. route_id r = fst row) ?T = [r']"
      "route_name r' = snd row" by blast
    from r(1) rw(2) have "r \<in> set (filter (\<lambda>r. route_id r = fst row) ?T)" by simp
    with r'(1) have "r = r'" by simp
    with r'(2) rw r(2) show "p \<in> set df" by (cases row) simp
  next
    fix p
    assume p: "p \<in> set df"
    from row [OF p] obtain r where r: "filter (\<lambda>r. route_id r = fst p) ?T = [r]"
      "route_name r = snd p" by blast
    then have "r \<in> set (filter (\<lambda>r. route_id r = fst p) ?T)" by simp
    then have "r \<in> set ?T" "route_id r = fst p" by simp_all
    with r(2) have "(route_id r, route_name r) = p" by simp
    with \<open>r \<in> set ?T\<close> show "p \<in> set (map (\<lambda>r. (route_id r, route_name r)) ?T)"
      by force
  qed
  with len show ?thesis by (simp add: read_from_database_def)
qed

theorem route_round_trip_witness:
  "distinct (map fst [(''01'', ''Line 1''), (''02'', ''Line 2'')])
   \<and> distinct (map route_id [\<lparr>route_id = ''02'', route_name = ''old'', route_data_updated = failed\<rparr>])
   \<and> length (read_from_database (route_list_save_to_database pending
        [(''01'', ''Line 1''), (''02'', ''Line 2'')]
        [\<lparr>route_id = ''02'', route_name = ''old'', route_data_updated = failed\<rparr>])) = 2
   \<and> read_from_database (route_list_save_to_database pending
        [(''01'', ''Line 1''), (''02'', ''Line 2'')]
        [\<lparr>route_id = ''02'', route_name = ''old'', route_data_updated = failed\<rparr>])
       = [\<lparr>route_id = ''02'', route_name = ''Line 2'', route_data_updated = failed\<rparr>,
          \<lparr>route_id = ''01'', route_name = ''Line 1'', route_data_updated = pending\<rparr>]"
proof -
  have h1: "distinct (map fst [(''01'', ''Line 1''), (''02'', ''Line 2'')])"
    by simp
  have h2: "distinct (map route_id
      [\<lparr>route_id = ''02'', route_name = ''old'', route_data_updated = failed\<rparr>])"
    by simp
  have h3: "route_id ` set [\<lparr>route_id = ''02'', route_name = ''old'', route_data_updated = failed\<rparr>]
      \<subseteq> fst ` set [(''01'', ''Line 1''), (''02'', ''Line 2'')]"
    by simp
  from route_round_trip [OF h1 h2 h3, of pending]
  have "length (read_from_database (route_list_save_to_database pending
        [(''01'', ''Line 1''), (''02'', ''Line 2'')]
        [\<lparr>route_id = ''02'', route_name = ''old'', route_data_updated = failed\<rparr>])) = 2"
    by simp
  moreover have "read_from_database (route_list_save_to_database pending
        [(''01'', ''Line 1''), (''02'', ''Line 2'')]
        [\<lparr>route_id = ''02'', route_name = ''old'', route_data_updated = failed\<rparr>])
       = [\<lparr>route_id = ''02'', route_name = ''Line 2'', route_data_updated = failed\<rparr>,
          \<lparr>route_id = ''01'', route_name = ''Line 1'', route_data_updated = pending\<rparr>]"
    by (simp add: read_from_database_def route_list_save_to_database_def RouteORM_def
        set_route_name_def)
  ultimately show ?thesis
    using h1 h2 by simp
qed

text \<open>
  The claim as stated fails when two of the records written share a route id: two
  records are written and one is read back.
\<close>

theorem route_round_trip_counterexample:
  "read_from_database (route_list_save_to_database pending
     [(''01'', ''Line 1''), (''01'', ''Line 1 express'')] [])
     = [\<lparr>route_id = ''01'', route_name = ''Line 1 express'', route_data_updated = pending\<rparr>]
   \<and> length (read_from_database (route_list_save_to_database pending
     [(''01'', ''Line 1''), (''01'', ''Line 1 express'')] []))
     \<noteq> length [(''01'', ''Line 1''), (''01'', ''Line 1 express'')]"
  by (simp add: read_from_database_def route_list_save_to_database_def RouteORM_def
      set_route_name_def)

section \<open>Properties of the renderer\<close>

text \<open>
  Claim C5, amended. In \<^verbatim>\<open>interactive_bus_info.py\<close> a fetch with direction \<open>come\<close> whose
  click fails (target absent or timeout) does not abort: the failure is printed and the
  content that loaded is returned. (\<^verbatim>\<open>_fetch_content\<close> of \<^verbatim>\<open>00003.py\<close> and
  \<^verbatim>\<open>scraper/realtime_scraper.py\<close> does not catch the exception of the click.)
\<close>

theorem fetch_route_info_click_not_fatal:
  assumes "loaded pg = Some c" "after_click pg = None"
  shows "fetch_route_info ''come'' pg =
    Inr ([''fetching'', ''click on the inbound tab failed''], c)"
  using assms by (simp add: fetch_route_info_def)

theorem fetch_route_info_click_not_fatal_witness:
  "loaded \<lparr>loaded = Some ''<html></html>'', after_click = None\<rparr> = Some ''<html></html>''
   \<and> after_click \<lparr>loaded = Some ''<html></html>'', after_click = None\<rparr> = None
   \<and> fetch_route_info ''come'' \<lparr>loaded = Some ''<html></html>'', after_click = None\<rparr> =
       Inr ([''fetching'', ''click on the inbound tab failed''], ''<html></html>'')"
proof -
  have h1: "loaded \<lparr>loaded = Some ''<html></html>'', after_click = None\<rparr> = Some ''<html></html>''"
    and h2: "after_click \<lparr>loaded = Some ''<html></html>'', after_click = None\<rparr> = None"
    by simp_all
  from fetch_route_info_click_not_fatal [OF h1 h2] h1 h2 show ?thesis
    by simp
qed

text \<open>
  The claim as stated fails for \<^verbatim>\<open>_fetch_content\<close>: with direction \<open>come\<close> and a failing
  click the fetch raises, although the page had loaded.
\<close>

theorem fetch_content_click_counterexample:
  "fetch_content ''come'' \<lparr>loaded = Some ''<html></html>'', after_click = None\<rparr>
     = Inl (BrowserError ''click failed'')"
  by (simp add: fetch_content_def)

section \<open>Properties of the extractors\<close>

lemma collect_length: "collect f xs = Inr ys \<Longrightarrow> length ys = length xs"
proof (induction xs arbitrary: ys)
  case Nil
  then show ?case by simp
next
  case (Cons x xs)
  then show ?case
    by (auto split: sum.splits)
qed

lemma collect_nth:
  "collect f xs = Inr ys \<Longrightarrow> i < length xs \<Longrightarrow> f (xs ! i) = Inr (ys ! i)"
proof (induction xs arbitrary: ys i)
  case Nil
  then show ?case by simp
next
  case (Cons x xs)
  from Cons.prems(1) obtain y ys' where y: "f x = Inr y" "collect f xs = Inr ys'" "ys = y # ys'"
    by (auto split: sum.splits)
  show ?case
  proof (cases i)
    case 0
    with y show ?thesis by simp
  next
    case (Suc j)
    with Cons.prems(2) have "j < length xs" by simp
    from Cons.IH [OF y(2) this] Suc y(3) show ?thesis by simp
  qed
qed

lemma collect_fails:
  "x \<in> set xs \<Longrightarrow> f x = Inl e \<Longrightarrow> \<exists>e'. collect f xs = Inl e'"
proof (induction xs)
  case Nil
  then show ?case by simp
next
  case (Cons a xs)
  then show ?case
    by (cases "f a"; cases "collect f xs") auto
qed

lemma findall_Nil: "findall p [] = (case rmatch p [] of None \<Rightarrow> [] | Some (caps, n) \<Rightarrow> [caps])"
  by (subst findall.simps) (simp split: option.splits)

lemma parse_route_list_not_empty: "parse_route_list content \<noteq> Inr []"
proof
  assume a: "parse_route_list content = Inr []"
  then have ne: "findall route_list_pattern content \<noteq> []"
    by (auto simp: parse_route_list_def Let_def split: if_splits)
  with a have "collect unpack_route (findall route_list_pattern content) = Inr []"
    by (simp add: parse_route_list_def Let_def)
  from collect_length [OF this] ne show False by simp
qed

lemma parse_route_info_text_not_empty: "parse_route_info_text rid dir content \<noteq> Inr []"
proof
  assume a: "parse_route_info_text rid dir content = Inr []"
  then have ne: "findall stop_pattern content \<noteq> []"
    by (auto simp: parse_route_info_text_def Let_def split: if_splits)
  with a have "collect (frame_row rid dir) (findall stop_pattern content) = Inr []"
    by (simp add: parse_route_info_text_def Let_def)
  from collect_length [OF this] ne show False by simp
qed

lemma parse_route_info_Inr:
  assumes "parse_route_info rid dir content = Inr rows"
  shows "\<exists>df lats lons nums. parse_route_info_text rid dir content = Inr df
    \<and> collect to_float (map latitude df) = Inr lats
    \<and> collect to_float (map longitude df) = Inr lons
    \<and> collect to_int (map stop_number df) = Inr nums
    \<and> rows = map (\<lambda>(r, n, la, lo). retype r n la lo) (zip df (zip nums (zip lats lons)))"
  using assms unfolding parse_route_info_def
  by (auto split: sum.splits)

lemma parse_route_info_length:
  assumes "parse_route_info rid dir content = Inr rows"
  shows "length rows = length (findall stop_pattern content) \<and> findall stop_pattern content \<noteq> []"
proof -
  from parse_route_info_Inr [OF assms] obtain df lats lons nums where
    df: "parse_route_info_text rid dir content = Inr df"
    and lats: "collect to_float (map latitude df) = Inr lats"
    and lons: "collect to_float (map longitude df) = Inr lons"
    and nums: "collect to_int (map stop_number df) = Inr nums"
    and rows: "rows = map (\<lambda>(r, n, la, lo). retype r n la lo) (zip df (zip nums (zip lats lons)))"
    by blast
  from df have ne: "findall stop_pattern content \<noteq> []"
    and c: "collect (frame_row rid dir) (findall stop_pattern content) = Inr df"
    by (auto simp: parse_route_info_text_def Let_def split: if_splits)
  from collect_length [OF c] collect_length [OF lats] collect_length [OF lons]
    collect_length [OF nums] rows ne
  show ?thesis by simp
qed


text \<open>
  Claim C2, amended. On a content on which the pattern matches nowhere,
  \<^verbatim>\<open>parse_route_list\<close> and \<^verbatim>\<open>parse_route_info\<close> of \<^verbatim>\<open>00003.py\<close> and
  \<^verbatim>\<open>scraper/realtime_scraper.py\<close> raise the no-data error, and none of them ever returns an
  empty frame. (\<^verbatim>\<open>parse_route_info\<close> of \<^verbatim>\<open>interactive_bus_info.py\<close> returns an empty frame
  instead, which its caller tests.)
\<close>

theorem no_match_raises:
  "(findall route_list_pattern content = [] \<longrightarrow>
      parse_route_list content = Inl (ValueError ''No data found for route table''))
   \<and> (findall stop_pattern content = [] \<longrightarrow>
      parse_route_info_text rid dir content = Inl (ValueError (''No data found for route ID '' @ rid))
      \<and> parse_route_info rid dir content = Inl (ValueError (''No data found for route ID '' @ rid)))
   \<and> parse_route_list content \<noteq> Inr []
   \<and> parse_route_info_text rid dir content \<noteq> Inr []
   \<and> parse_route_info rid dir content \<noteq> Inr []"
proof (intro conjI impI)
  assume "findall route_list_pattern content = []"
  then show "parse_route_list content = Inl (ValueError ''No data found for route table'')"
    by (simp add: parse_route_list_def)
next
  assume "findall stop_pattern content = []"
  then show t: "parse_route_info_text rid dir content =
      Inl (ValueError (''No data found for route ID '' @ rid))"
    by (simp add: parse_route_info_text_def)
  then show "parse_route_info rid dir content =
      Inl (ValueError (''No data found for route ID '' @ rid))"
    by (simp add: parse_route_info_def)
next
  show "parse_route_list content \<noteq> Inr []"
    by (rule parse_route_list_not_empty)
next
  show "parse_route_info_text rid dir content \<noteq> Inr []"
    by (rule parse_route_info_text_not_empty)
next
  show "parse_route_info rid dir content \<noteq> Inr []"
  proof
    assume "parse_route_info rid dir content = Inr []"
    from parse_route_info_length [OF this] show False by simp
  qed
qed

theorem no_match_raises_witness:
  "findall route_list_pattern ''<ul></ul>'' = []
   \<and> findall stop_pattern ''<ul></ul>'' = []
   \<and> parse_route_list ''<ul></ul>'' = Inl (ValueError ''No data found for route table'')
   \<and> parse_route_info_text ''0161000900'' ''go'' ''<ul></ul>''
       = Inl (ValueError ''No data found for route ID 0161000900'')
   \<and> parse_route_info ''0161000900'' ''go'' ''<ul></ul>''
       = Inl (ValueError ''No data found for route ID 0161000900'')"
proof -
  have h1: "findall route_list_pattern ''<ul></ul>'' = []"
    by code_simp
  have h2: "findall stop_pattern ''<ul></ul>'' = []"
    by code_simp
  from no_match_raises [of "''<ul></ul>''" "''0161000900''" "''go''"] h1 h2
  show ?thesis by simp
qed

text \<open>
  The claim as stated fails for \<^verbatim>\<open>interactive_bus_info.py\<close>: without a match its
  \<^verbatim>\<open>parse_route_info\<close> returns the empty frame.
\<close>

theorem parse_route_info_interactive_counterexample:
  "findall stop_pattern ''<ul></ul>'' = []
   \<and> parse_route_info_interactive ''0161000900'' ''come'' ''<ul></ul>'' = Inr []"
proof -
  have "findall stop_pattern ''<ul></ul>'' = []"
    by code_simp
  then show ?thesis
    by (simp add: parse_route_info_interactive_def)
qed

section \<open>Properties of the driver loop\<close>

subsection \<open>Which rows a pass touches\<close>

lemma collect_set: "collect f xs = Inr ys \<Longrightarrow> y \<in> set ys \<Longrightarrow> \<exists>x \<in> set xs. f x = Inr y"
proof (induction xs arbitrary: ys)
  case Nil
  then show ?case by simp
next
  case (Cons a xs)
  from Cons.prems(1) obtain b ys' where b: "f a = Inr b" "collect f xs = Inr ys'" "ys = b # ys'"
    by (auto split: sum.splits)
  show ?case
  proof (cases "y = b")
    case True
    with b show ?thesis by simp
  next
    case False
    with Cons.prems(2) b have "y \<in> set ys'" by simp
    from Cons.IH [OF b(2) this] show ?thesis by auto
  qed
qed











lemma filter_set_route_status:
  "filter (\<lambda>r. route_id r = q) (set_route_status rid v tbl) =
     (if q = rid then map (\<lambda>r. r\<lparr>route_data_updated := v\<rparr>) (filter (\<lambda>r. route_id r = q) tbl)
      else filter (\<lambda>r. route_id r = q) tbl)"
  by (induction tbl) (auto simp: set_route_status_def)

lemma status_of_set_route_status:
  "status_of q (set_route_status rid v tbl) =
     (if q = rid then map (\<lambda>_. v) (status_of q tbl) else status_of q tbl)"
  by (simp add: status_of_def filter_set_route_status comp_def)


subsection \<open>A pass of the loop, for both drivers\<close>






subsection \<open>The body of \<open>try\<close>\<close>



lemma try_route_routes:
  "route_table (snd (try_route a st)) = route_table st"
  "status_writes (snd (try_route a st)) = status_writes st"
  by (simp_all add: try_route_def split: sum.splits)



lemma process_route_eq:
  "process_route a st =
     store_set_route_status (att_route a) (if fst (try_route a st) = None then updated else failed)
       (snd (try_route a st))"
  by (cases "try_route a st") (auto simp: process_route_def split: option.splits)





lemma try_route_00003_routes:
  "route_table (snd (try_route_00003 a st)) = route_table st"
  "status_writes (snd (try_route_00003 a st)) = status_writes st"
  by (simp_all add: try_route_00003_def route_info_save_to_database_00003_def split: sum.splits)



lemma process_route_00003_eq:
  "process_route_00003 a st =
     store_set_route_status (att_route a) (if fst (try_route_00003 a st) = None then 1 else 2)
       (snd (try_route_00003 a st))"
  by (cases "try_route_00003 a st") (auto simp: process_route_00003_def split: option.splits)



subsection \<open>Failure isolation\<close>








lemma try_route_fails_iff:
  "fst (try_route a st) \<noteq> None \<longleftrightarrow>
     (case new_route_info ''go'' (att_page a) of
        Inl e \<Rightarrow> True
      | Inr content \<Rightarrow>
          (case parse_route_info (att_route a) ''go'' content of
             Inl e \<Rightarrow> True
           | Inr df \<Rightarrow> \<not> att_db_ok a))"
  by (simp add: try_route_def split: sum.splits)

lemma try_route_00003_fails_iff:
  "fst (try_route_00003 a st) \<noteq> None \<longleftrightarrow>
     (case new_route_info ''go'' (att_page a) of
        Inl e \<Rightarrow> True
      | Inr content \<Rightarrow>
          (case parse_route_info_text (att_route a) ''go'' content of
             Inl e \<Rightarrow> True
           | Inr df \<Rightarrow>
               \<not> att_db_ok a \<or> \<not> att_plot_ok a
               \<or> (\<exists>e. route_info_save_to_database_00003 df (stop_table st) = Inl e)))"
  by (auto simp: try_route_00003_def route_info_save_to_database_00003_def split: sum.splits)



definition stop_block :: "string \<Rightarrow> string \<Rightarrow> string \<Rightarrow> string \<Rightarrow> string" where
  \<open>stop_block n nm la lo =
     ''<li><span class="auto-list-stationlist-position auto-list-stationlist-position-time">3 min</span> <span class="auto-list-stationlist-number"> '' @ n @
     ''</span> <span class="auto-list-stationlist-place">'' @ nm @
     ''</span><input id="a" name="item.UniStopId" type="hidden" value="1234"><input id="b" name="item.Latitude" type="hidden" value="'' @ la @
     ''"><input id="c" name="item.Longitude" type="hidden" value="'' @ lo @ ''"></li>''\<close>

definition demo_attempt :: "string \<Rightarrow> string option \<Rightarrow> attempt" where
  "demo_attempt rid content =
     \<lparr>att_route = rid, att_page = \<lparr>loaded = content, after_click = None\<rparr>,
      att_db_ok = True, att_plot_ok = True\<rparr>"

definition demo_routes :: "'s \<Rightarrow> 's route_row list" where
  "demo_routes dflt =
     [\<lparr>route_id = ''r1'', route_name = ''Line 1'', route_data_updated = dflt\<rparr>,
      \<lparr>route_id = ''r2'', route_name = ''Line 2'', route_data_updated = dflt\<rparr>]"

definition demo_store :: "'s \<Rightarrow> ('s, 'n, 'i, 'f) store" where
  "demo_store dflt = \<lparr>route_table = demo_routes dflt, stop_table = [], status_writes = []\<rparr>"

definition good_attempt :: attempt where
  "good_attempt = demo_attempt ''r1'' (Some (stop_block ''1'' ''Main St'' ''25.03'' ''121.5''))"

definition bad_attempt :: attempt where
  "bad_attempt = demo_attempt ''r2'' (Some (stop_block ''1'' ''Side St'' ''1.2.3'' ''121.5''))"


lemma bad_attempt_raises:
  "fst (try_route bad_attempt st) = Some (ValueError ''could not convert string to float'')"
proof -
  have "parse_route_info ''r2'' ''go'' (stop_block ''1'' ''Side St'' ''1.2.3'' ''121.5'')
      = Inl (ValueError ''could not convert string to float'')"
    by code_simp
  then show ?thesis
    by (simp add: try_route_def bad_attempt_def demo_attempt_def new_route_info_def
        fetch_content_def)
qed


subsection \<open>Status writes\<close>

lemma process_route_writes:
  "status_writes (process_route a st) =
     status_writes st @
       [(att_route a, status_of (att_route a) (route_table st),
         if fst (try_route a st) = None then updated else failed)]"
  by (simp add: process_route_eq store_set_route_status_def try_route_routes)

lemma process_route_status_other:
  assumes "q \<noteq> att_route a"
  shows "status_of q (route_table (process_route a st)) = status_of q (route_table st)"
  using assms
  by (simp add: process_route_eq store_set_route_status_def try_route_routes
      status_of_set_route_status)

text \<open>
  The comparison of \<^verbatim>\<open>scraper/realtime_scraper.py\<close> selects no row, whatever the table
  holds. What follows is about the loop for any list of routes.
\<close>

lemma pending_routes_empty: "pending_routes tbl = []"
  by (simp add: pending_routes_def enum_eq_str_def)

lemma process_route_table:
  "route_table (process_route a st) =
     map (\<lambda>r. if route_id r = att_route a
               then r\<lparr>route_data_updated := (if fst (try_route a st) = None then updated else failed)\<rparr>
               else r) (route_table st)"
  by (simp add: process_route_eq store_set_route_status_def try_route_routes set_route_status_def)

lemma process_route_00003_writes:
  "status_writes (process_route_00003 a st) =
     status_writes st @
       [(att_route a, status_of (att_route a) (route_table st),
         if fst (try_route_00003 a st) = None then 1 else 2)]"
  by (simp add: process_route_00003_eq store_set_route_status_def try_route_00003_routes)

lemma process_route_00003_table:
  "route_table (process_route_00003 a st) =
     map (\<lambda>r. if route_id r = att_route a
               then r\<lparr>route_data_updated := (if fst (try_route_00003 a st) = None then 1 else 2)\<rparr>
               else r) (route_table st)"
  by (simp add: process_route_00003_eq store_set_route_status_def try_route_00003_routes
      set_route_status_def)

lemma process_route_00003_status_other:
  assumes "q \<noteq> att_route a"
  shows "status_of q (route_table (process_route_00003 a st)) = status_of q (route_table st)"
  using assms
  by (simp add: process_route_00003_eq store_set_route_status_def try_route_00003_routes
      status_of_set_route_status)

lemma fold_writes:
  assumes w: "\<And>a st. \<exists>v. (v = ok \<or> v = bad) \<and> status_writes (step a st) =
      status_writes st @ [(att_route a, status_of (att_route a) (route_table st), v)]"
  shows "\<exists>ws. status_writes (fold step as st) = status_writes st @ ws
    \<and> map fst ws = map att_route as
    \<and> (\<forall>w \<in> set ws. snd (snd w) = ok \<or> snd (snd w) = bad)"
proof (induction as arbitrary: st)
  case Nil
  then show ?case by simp
next
  case (Cons a as)
  from w [of a st] obtain v where v: "v = ok \<or> v = bad"
    "status_writes (step a st) =
      status_writes st @ [(att_route a, status_of (att_route a) (route_table st), v)]"
    by blast
  from Cons.IH [of "step a st"] obtain ws where ws:
    "status_writes (fold step as (step a st)) = status_writes (step a st) @ ws"
    "map fst ws = map att_route as"
    "\<forall>w \<in> set ws. snd (snd w) = ok \<or> snd (snd w) = bad"
    by blast
  let ?w = "(att_route a, status_of (att_route a) (route_table st), v)"
  have "status_writes (fold step (a # as) st) = status_writes st @ (?w # ws)"
    by (simp add: ws(1) v(2))
  moreover have "map fst (?w # ws) = map att_route (a # as)"
    by (simp add: ws(2))
  moreover have "\<forall>w \<in> set (?w # ws). snd (snd w) = ok \<or> snd (snd w) = bad"
    using ws(3) v(1) by simp
  ultimately show ?case by blast
qed

lemma fold_writes_from:
  assumes w: "\<And>a st. \<exists>v. status_writes (step a st) =
      status_writes st @ [(att_route a, status_of (att_route a) (route_table st), v)]"
    and other: "\<And>a st q. q \<noteq> att_route a \<Longrightarrow>
      status_of q (route_table (step a st)) = status_of q (route_table st)"
    and "distinct (map att_route as)"
    and "\<forall>a \<in> set as. status_of (att_route a) (route_table st) = [p]"
  shows "\<exists>ws. status_writes (fold step as st) = status_writes st @ ws
    \<and> map fst ws = map att_route as
    \<and> (\<forall>w \<in> set ws. fst (snd w) = [p])"
  using assms(3,4)
proof (induction as arbitrary: st)
  case Nil
  then show ?case by simp
next
  case (Cons a as)
  from w [of a st] obtain v where v:
    "status_writes (step a st) =
      status_writes st @ [(att_route a, status_of (att_route a) (route_table st), v)]"
    by blast
  from Cons.prems(1) have d: "distinct (map att_route as)"
    and nin: "att_route a \<notin> att_route ` set as"
    by simp_all
  have "\<forall>b \<in> set as. status_of (att_route b) (route_table (step a st)) = [p]"
  proof
    fix b
    assume b: "b \<in> set as"
    with nin have "att_route b \<noteq> att_route a" by (metis imageI)
    then have "status_of (att_route b) (route_table (step a st))
        = status_of (att_route b) (route_table st)"
      by (rule other)
    with b Cons.prems(2) show "status_of (att_route b) (route_table (step a st)) = [p]"
      by simp
  qed
  from Cons.IH [OF d this] obtain ws where ws:
    "status_writes (fold step as (step a st)) = status_writes (step a st) @ ws"
    "map fst ws = map att_route as"
    "\<forall>w \<in> set ws. fst (snd w) = [p]"
    by blast
  from Cons.prems(2) have pa: "status_of (att_route a) (route_table st) = [p]"
    by simp
  let ?w = "(att_route a, status_of (att_route a) (route_table st), v)"
  have "status_writes (fold step (a # as) st) = status_writes st @ (?w # ws)"
    by (simp add: ws(1) v)
  moreover have "map fst (?w # ws) = map att_route (a # as)"
    by (simp add: ws(2))
  moreover have "\<forall>w \<in> set (?w # ws). fst (snd w) = [p]"
    using ws(3) pa by simp
  ultimately show ?case by blast
qed

text \<open>
  Claim C7, amended. Every pass of either driver loop writes the status of its route
  exactly once: with updated (1 in \<^verbatim>\<open>00003.py\<close>) when the body of \<^verbatim>\<open>try\<close> returned and with
  failed (2) when it raised. The write sets that value in the rows of the route,
  whatever status they held, and changes no other row of the route table. So a run
  writes once for each attempt, in the order of the attempts, and only the two values.
  The status before a write is the one the table held: in a run over pairwise different
  routes that are all pending (0) when it starts, every write is on a pending status.
\<close>

theorem status_written_once:
  "status_writes (process_route a st) =
     status_writes st @
       [(att_route a, status_of (att_route a) (route_table st),
         if fst (try_route a st) = None then updated else failed)]
   \<and> route_table (process_route a st) =
       map (\<lambda>r. if route_id r = att_route a
                 then r\<lparr>route_data_updated :=
                        (if fst (try_route a st) = None then updated else failed)\<rparr>
                 else r) (route_table st)
   \<and> status_writes (process_route_00003 a st') =
       status_writes st' @
         [(att_route a, status_of (att_route a) (route_table st'),
           if fst (try_route_00003 a st') = None then 1 else 2)]
   \<and> route_table (process_route_00003 a st') =
       map (\<lambda>r. if route_id r = att_route a
                 then r\<lparr>route_data_updated :=
                        (if fst (try_route_00003 a st') = None then 1 else 2)\<rparr>
                 else r) (route_table st')
   \<and> (\<exists>ws. status_writes (driver as st) = status_writes st @ ws
          \<and> map fst ws = map att_route as
          \<and> (\<forall>w \<in> set ws. snd (snd w) = updated \<or> snd (snd w) = failed))
   \<and> (\<exists>ws. status_writes (driver_00003 as st') = status_writes st' @ ws
          \<and> map fst ws = map att_route as
          \<and> (\<forall>w \<in> set ws. snd (snd w) = 1 \<or> snd (snd w) = 2))
   \<and> (distinct (map att_route as)
        \<and> (\<forall>a \<in> set as. status_of (att_route a) (route_table st) = [pending]) \<longrightarrow>
       (\<exists>ws. status_writes (driver as st) = status_writes st @ ws
          \<and> map fst ws = map att_route as
          \<and> (\<forall>w \<in> set ws. fst (snd w) = [pending])))
   \<and> (distinct (map att_route as)
        \<and> (\<forall>a \<in> set as. status_of (att_route a) (route_table st') = [0]) \<longrightarrow>
       (\<exists>ws. status_writes (driver_00003 as st') = status_writes st' @ ws
          \<and> map fst ws = map att_route as
          \<and> (\<forall>w \<in> set ws. fst (snd w) = [0])))"
proof (intro conjI impI)
  show "status_writes (process_route a st) =
     status_writes st @
       [(att_route a, status_of (att_route a) (route_table st),
         if fst (try_route a st) = None then updated else failed)]"
    by (rule process_route_writes)
  show "route_table (process_route a st) =
       map (\<lambda>r. if route_id r = att_route a
                 then r\<lparr>route_data_updated :=
                        (if fst (try_route a st) = None then updated else failed)\<rparr>
                 else r) (route_table st)"
    by (rule process_route_table)
  show "status_writes (process_route_00003 a st') =
       status_writes st' @
         [(att_route a, status_of (att_route a) (route_table st'),
           if fst (try_route_00003 a st') = None then 1 else 2)]"
    by (rule process_route_00003_writes)
  show "route_table (process_route_00003 a st') =
       map (\<lambda>r. if route_id r = att_route a
                 then r\<lparr>route_data_updated :=
                        (if fst (try_route_00003 a st') = None then 1 else 2)\<rparr>
                 else r) (route_table st')"
    by (rule process_route_00003_table)
  show "\<exists>ws. status_writes (driver as st) = status_writes st @ ws
          \<and> map fst ws = map att_route as
          \<and> (\<forall>w \<in> set ws. snd (snd w) = updated \<or> snd (snd w) = failed)"
    unfolding driver_def
    by (rule fold_writes) (simp add: process_route_writes)
  show "\<exists>ws. status_writes (driver_00003 as st') = status_writes st' @ ws
          \<and> map fst ws = map att_route as
          \<and> (\<forall>w \<in> set ws. snd (snd w) = 1 \<or> snd (snd w) = 2)"
    unfolding driver_00003_def
    by (rule fold_writes) (simp add: process_route_00003_writes)
next
  assume h: "distinct (map att_route as)
    \<and> (\<forall>a \<in> set as. status_of (att_route a) (route_table st) = [pending])"
  show "\<exists>ws. status_writes (driver as st) = status_writes st @ ws
          \<and> map fst ws = map att_route as
          \<and> (\<forall>w \<in> set ws. fst (snd w) = [pending])"
    unfolding driver_def
  proof (rule fold_writes_from)
    show "\<exists>v. status_writes (process_route a st) =
        status_writes st @ [(att_route a, status_of (att_route a) (route_table st), v)]" for a st
      by (simp add: process_route_writes)
    show "status_of q (route_table (process_route a st)) = status_of q (route_table st)"
      if "q \<noteq> att_route a" for a st q
      using that by (rule process_route_status_other)
    from h show "distinct (map att_route as)" by simp
    from h show "\<forall>a \<in> set as. status_of (att_route a) (route_table st) = [pending]" by simp
  qed
next
  assume h: "distinct (map att_route as)
    \<and> (\<forall>a \<in> set as. status_of (att_route a) (route_table st') = [0])"
  show "\<exists>ws. status_writes (driver_00003 as st') = status_writes st' @ ws
          \<and> map fst ws = map att_route as
          \<and> (\<forall>w \<in> set ws. fst (snd w) = [0])"
    unfolding driver_00003_def
  proof (rule fold_writes_from)
    show "\<exists>v. status_writes (process_route_00003 a st) =
        status_writes st @ [(att_route a, status_of (att_route a) (route_table st), v)]" for a st
      by (simp add: process_route_00003_writes)
    show "status_of q (route_table (process_route_00003 a st)) = status_of q (route_table st)"
      if "q \<noteq> att_route a" for a st q
      using that by (rule process_route_00003_status_other)
    from h show "distinct (map att_route as)" by simp
    from h show "\<forall>a \<in> set as. status_of (att_route a) (route_table st') = [0]" by simp
  qed
qed

lemma demo_run:
  "driver [good_attempt, bad_attempt] (demo_store pending) =
     \<lparr>route_table =
        [\<lparr>route_id = ''r1'', route_name = ''Line 1'', route_data_updated = updated\<rparr>,
         \<lparr>route_id = ''r2'', route_name = ''Line 2'', route_data_updated = failed\<rparr>],
      stop_table =
        [\<lparr>arrival_info = ''3 min'', stop_number = SqlInteger 1, stop_name = ''Main St'',
          stop_id = SqlInteger 1234, latitude = 2503 / 100, longitude = 243 / 2,
          direction = ''go'', stop_route_id = ''r1''\<rparr>],
      status_writes = [(''r1'', [pending], updated), (''r2'', [pending], failed)]\<rparr>"
  by code_simp

lemma demo_run_00003:
  "driver_00003 [good_attempt, bad_attempt] (demo_store 0) =
     \<lparr>route_table =
        [\<lparr>route_id = ''r1'', route_name = ''Line 1'', route_data_updated = 1\<rparr>,
         \<lparr>route_id = ''r2'', route_name = ''Line 2'', route_data_updated = 2\<rparr>],
      stop_table =
        [\<lparr>arrival_info = ''3 min'', stop_number = SqlInteger 1, stop_name = ''Main St'',
          stop_id = SqlInteger 1234, latitude = 2503 / 100, longitude = 243 / 2,
          direction = ''go'', stop_route_id = ''r1''\<rparr>],
      status_writes = [(''r1'', [0], 1), (''r2'', [0], 2)]\<rparr>"
  by code_simp

lemma bad_attempt_raises_00003:
  "fst (try_route_00003 bad_attempt st)
     = Some (DatabaseError ''could not convert string to float'')"
proof -
  have "parse_route_info_text ''r2'' ''go'' (stop_block ''1'' ''Side St'' ''1.2.3'' ''121.5'')
      = Inr [\<lparr>arrival_info = ''3 min'', stop_number = ''1'', stop_name = ''Side St'',
          stop_id = ''1234'', latitude = ''1.2.3'', longitude = ''121.5'', direction = ''go'',
          stop_route_id = ''r2''\<rparr>]"
    by code_simp
  moreover have "route_info_save_to_database_00003
      [\<lparr>arrival_info = ''3 min'', stop_number = ''1'', stop_name = ''Side St'',
          stop_id = ''1234'', latitude = ''1.2.3'', longitude = ''121.5'', direction = ''go'',
          stop_route_id = ''r2''\<rparr>] tbl
      = Inl (DatabaseError ''could not convert string to float'')" for tbl
  proof -
    have "bus_stop_orm \<lparr>arrival_info = ''3 min'', stop_number = ''1'', stop_name = ''Side St'',
          stop_id = ''1234'', latitude = ''1.2.3'', longitude = ''121.5'', direction = ''go'',
          stop_route_id = ''r2''\<rparr> = Inl (DatabaseError ''could not convert string to float'')"
      by code_simp
    then show ?thesis
      by (simp add: route_info_save_to_database_00003_def)
  qed
  ultimately show ?thesis
    by (simp add: try_route_00003_def bad_attempt_def demo_attempt_def new_route_info_def
        fetch_content_def)
qed

theorem status_written_once_witness:
  "distinct (map att_route [good_attempt, bad_attempt])
   \<and> status_of ''r1'' (demo_routes pending) = [pending]
   \<and> status_of ''r2'' (demo_routes pending) = [pending]
   \<and> status_writes (process_route bad_attempt (demo_store pending))
       = [(''r2'', [pending], failed)]
   \<and> route_table (process_route bad_attempt (demo_store pending))
       = [\<lparr>route_id = ''r1'', route_name = ''Line 1'', route_data_updated = pending\<rparr>,
          \<lparr>route_id = ''r2'', route_name = ''Line 2'', route_data_updated = failed\<rparr>]
   \<and> status_writes (process_route_00003 bad_attempt (demo_store 0)) = [(''r2'', [0], 2)]
   \<and> route_table (process_route_00003 bad_attempt (demo_store 0))
       = [\<lparr>route_id = ''r1'', route_name = ''Line 1'', route_data_updated = 0\<rparr>,
          \<lparr>route_id = ''r2'', route_name = ''Line 2'', route_data_updated = 2\<rparr>]
   \<and> map fst (status_writes (driver [good_attempt, bad_attempt] (demo_store pending)))
       = [''r1'', ''r2'']
   \<and> status_writes (driver [good_attempt, bad_attempt] (demo_store pending))
       = [(''r1'', [pending], updated), (''r2'', [pending], failed)]
   \<and> map fst (status_writes (driver_00003 [good_attempt, bad_attempt] (demo_store 0)))
       = [''r1'', ''r2'']
   \<and> status_writes (driver_00003 [good_attempt, bad_attempt] (demo_store 0))
       = [(''r1'', [0], 1), (''r2'', [0], 2)]"
proof -
  let ?st = "demo_store pending :: realtime_store"
  let ?st' = "demo_store 0 :: store_00003"
  have r2: "att_route bad_attempt = ''r2''" and r1: "att_route good_attempt = ''r1''"
    by (simp_all add: bad_attempt_def good_attempt_def demo_attempt_def)
  have h1: "distinct (map att_route [good_attempt, bad_attempt])"
    by (simp add: r1 r2)
  have s1: "status_of ''r1'' (demo_routes pending) = [pending]"
    and s2: "status_of ''r2'' (demo_routes pending) = [pending]"
    and s1': "status_of ''r1'' (demo_routes (0 :: int)) = [0]"
    and s2': "status_of ''r2'' (demo_routes (0 :: int)) = [0]"
    by (simp_all add: status_of_def demo_routes_def)
  have h2: "\<forall>a \<in> set [good_attempt, bad_attempt].
      status_of (att_route a) (route_table ?st) = [pending]"
    by (simp add: r1 r2 demo_store_def s1 s2)
  have h2': "\<forall>a \<in> set [good_attempt, bad_attempt].
      status_of (att_route a)
        (route_table ?st') = [0]"
    by (simp add: r1 r2 demo_store_def s1' s2')
  have w0: "status_writes ?st = []" "status_writes ?st' = []"
    by (simp_all add: demo_store_def)
  have f: "fst (try_route bad_attempt ?st) \<noteq> None"
    by (simp add: bad_attempt_raises)
  have f': "fst (try_route_00003 bad_attempt ?st') \<noteq> None"
    by (simp add: bad_attempt_raises_00003)
  note inst = status_written_once [where a = bad_attempt and st = ?st
      and st' = ?st' and as = "[good_attempt, bad_attempt]"]
  from inst have "status_writes (process_route bad_attempt ?st) =
     status_writes ?st @
       [(att_route bad_attempt, status_of (att_route bad_attempt) (route_table ?st),
         if fst (try_route bad_attempt ?st) = None then updated else failed)]"
    by (rule conjunct1)
  with f have A: "status_writes (process_route bad_attempt ?st)
      = [(''r2'', [pending], failed)]"
    by (simp add: r2 demo_store_def s2)
  from inst have "route_table (process_route bad_attempt ?st) =
       map (\<lambda>r. if route_id r = att_route bad_attempt
                 then r\<lparr>route_data_updated :=
                        (if fst (try_route bad_attempt ?st) = None
                         then updated else failed)\<rparr>
                 else r) (route_table ?st)"
    by blast
  with f have B: "route_table (process_route bad_attempt ?st)
       = [\<lparr>route_id = ''r1'', route_name = ''Line 1'', route_data_updated = pending\<rparr>,
          \<lparr>route_id = ''r2'', route_name = ''Line 2'', route_data_updated = failed\<rparr>]"
    by (simp add: r2 demo_store_def demo_routes_def)
  from inst have "status_writes (process_route_00003 bad_attempt ?st') =
       status_writes ?st' @
         [(att_route bad_attempt, status_of (att_route bad_attempt) (route_table ?st'),
           if fst (try_route_00003 bad_attempt ?st') = None then 1 else 2)]"
    by blast
  with f' have C: "status_writes (process_route_00003 bad_attempt ?st')
      = [(''r2'', [0], 2)]"
    by (simp add: r2 demo_store_def s2')
  from inst have "route_table (process_route_00003 bad_attempt ?st') =
       map (\<lambda>r. if route_id r = att_route bad_attempt
                 then r\<lparr>route_data_updated :=
                        (if fst (try_route_00003 bad_attempt ?st') = None then 1 else 2)\<rparr>
                 else r) (route_table ?st')"
    by blast
  with f' have D: "route_table (process_route_00003 bad_attempt ?st')
       = [\<lparr>route_id = ''r1'', route_name = ''Line 1'', route_data_updated = 0\<rparr>,
          \<lparr>route_id = ''r2'', route_name = ''Line 2'', route_data_updated = 2\<rparr>]"
    by (simp add: r2 demo_store_def demo_routes_def)
  from inst h1 h2 have "\<exists>ws. status_writes (driver [good_attempt, bad_attempt] ?st)
        = status_writes ?st @ ws
      \<and> map fst ws = map att_route [good_attempt, bad_attempt]
      \<and> (\<forall>w \<in> set ws. fst (snd w) = [pending])"
    by blast
  then have E: "map fst (status_writes (driver [good_attempt, bad_attempt] ?st))
      = [''r1'', ''r2'']"
    by (auto simp: w0 r1 r2)
  from inst h1 h2' have "\<exists>ws. status_writes (driver_00003 [good_attempt, bad_attempt] ?st')
        = status_writes ?st' @ ws
      \<and> map fst ws = map att_route [good_attempt, bad_attempt]
      \<and> (\<forall>w \<in> set ws. fst (snd w) = [0])"
    by blast
  then have F: "map fst (status_writes (driver_00003 [good_attempt, bad_attempt] ?st'))
      = [''r1'', ''r2'']"
    by (auto simp: w0 r1 r2)
  have G: "status_writes (driver [good_attempt, bad_attempt] ?st)
       = [(''r1'', [pending], updated), (''r2'', [pending], failed)]"
    by (simp add: demo_run)
  have H: "status_writes (driver_00003 [good_attempt, bad_attempt] ?st')
       = [(''r1'', [0], 1), (''r2'', [0], 2)]"
    by (simp add: demo_run_00003)
  from h1 s1 s2 A B C D E G F H show ?thesis
    by (intro conjI)
qed

definition demo_first_run :: "store_00003" where
  "demo_first_run = driver_00003 [good_attempt] (demo_store 0)"

definition demo_second_start :: "store_00003" where
  "demo_second_start =
     demo_first_run\<lparr>route_table :=
       route_list_save_to_database 0 [(''r1'', ''Line 1''), (''r2'', ''Line 2'')]
         (route_table demo_first_run)\<rparr>"

lemma demo_first_run_value:
  "demo_first_run =
     \<lparr>route_table =
        [\<lparr>route_id = ''r1'', route_name = ''Line 1'', route_data_updated = 1\<rparr>,
         \<lparr>route_id = ''r2'', route_name = ''Line 2'', route_data_updated = 0\<rparr>],
      stop_table =
        [\<lparr>arrival_info = ''3 min'', stop_number = SqlInteger 1, stop_name = ''Main St'',
          stop_id = SqlInteger 1234, latitude = 2503 / 100, longitude = 243 / 2,
          direction = ''go'', stop_route_id = ''r1''\<rparr>],
      status_writes = [(''r1'', [0], 1)]\<rparr>"
  unfolding demo_first_run_def by code_simp

text \<open>
  The claim as stated fails for the driver of \<^verbatim>\<open>00003.py\<close>. A first run of the program
  takes the route \<open>r1\<close> from pending (0) to updated (1). A second run saves the route
  list again, which keeps the status, and attempts the route again; the page does not
  load, and the status is written along the transition updated to failed (1 to 2).
\<close>

theorem status_rewritten_counterexample:
  "status_writes demo_first_run = [(''r1'', [0], 1)]
   \<and> status_of ''r1'' (route_table demo_second_start) = [1]
   \<and> status_writes (driver_00003 [demo_attempt ''r1'' None] demo_second_start)
       = [(''r1'', [0], 1), (''r1'', [1], 2)]
   \<and> status_of ''r1'' (route_table (driver_00003 [demo_attempt ''r1'' None] demo_second_start))
       = [2]"
proof -
  have a: "status_writes demo_first_run = [(''r1'', [0], 1)]"
    by (simp add: demo_first_run_value)
  have start: "demo_second_start =
     \<lparr>route_table =
        [\<lparr>route_id = ''r1'', route_name = ''Line 1'', route_data_updated = 1\<rparr>,
         \<lparr>route_id = ''r2'', route_name = ''Line 2'', route_data_updated = 0\<rparr>],
      stop_table =
        [\<lparr>arrival_info = ''3 min'', stop_number = SqlInteger 1, stop_name = ''Main St'',
          stop_id = SqlInteger 1234, latitude = 2503 / 100, longitude = 243 / 2,
          direction = ''go'', stop_route_id = ''r1''\<rparr>],
      status_writes = [(''r1'', [0], 1)]\<rparr>"
    by (simp add: demo_second_start_def demo_first_run_value route_list_save_to_database_def
        RouteORM_def set_route_name_def)
  have b: "status_of ''r1'' (route_table demo_second_start) = [1]"
    by (simp add: start status_of_def)
  have run: "driver_00003 [demo_attempt ''r1'' None] demo_second_start
      = store_set_route_status ''r1'' 2 demo_second_start"
    by (simp add: driver_00003_def process_route_00003_def try_route_00003_def demo_attempt_def
        new_route_info_def fetch_content_def)
  have c: "status_writes (driver_00003 [demo_attempt ''r1'' None] demo_second_start)
       = [(''r1'', [0], 1), (''r1'', [1], 2)]"
    by (simp add: run store_set_route_status_def b) (simp add: start)
  have d: "status_of ''r1'' (route_table (driver_00003 [demo_attempt ''r1'' None] demo_second_start))
       = [2]"
    by (simp add: run store_set_route_status_def status_of_set_route_status b)
  from a b c d show ?thesis by (intro conjI)
qed

section \<open>Properties of the matcher\<close>

subsection \<open>What a match captures\<close>

lemma rep_lazy_sound:
  "rep_lazy c mn cont k s = Some (k', r) \<Longrightarrow>
     k \<le> k' \<and> mn \<le> k' \<and> k' - k \<le> length s
     \<and> list_all (in_class c) (take (k' - k) s) \<and> cont (drop (k' - k) s) = Some r"
proof (induction s arbitrary: k)
  case Nil
  then show ?case by (auto split: if_splits)
next
  case (Cons ch t)
  show ?case
  proof (cases "mn \<le> k \<and> cont (ch # t) \<noteq> None")
    case True
    with Cons.prems show ?thesis by auto
  next
    case False
    with Cons.prems have ch: "in_class c ch" and rec: "rep_lazy c mn cont (Suc k) t = Some (k', r)"
      by (auto split: if_splits option.splits)
    from Cons.IH [OF rec] have "Suc k \<le> k'" "mn \<le> k'" "k' - Suc k \<le> length t"
      "list_all (in_class c) (take (k' - Suc k) t)" "cont (drop (k' - Suc k) t) = Some r"
      by simp_all
    moreover from \<open>Suc k \<le> k'\<close> have "k' - k = Suc (k' - Suc k)" by simp
    ultimately show ?thesis using ch by simp
  qed
qed

lemma rep_greedy_sound:
  "rep_greedy c mn cont k s = Some (k', r) \<Longrightarrow>
     k \<le> k' \<and> mn \<le> k' \<and> k' - k \<le> length s
     \<and> list_all (in_class c) (take (k' - k) s) \<and> cont (drop (k' - k) s) = Some r"
proof (induction s arbitrary: k)
  case Nil
  then show ?case by (auto split: if_splits)
next
  case (Cons ch t)
  show ?case
  proof (cases "in_class c ch \<and> rep_greedy c mn cont (Suc k) t \<noteq> None")
    case True
    with Cons.prems have ch: "in_class c ch" and rec: "rep_greedy c mn cont (Suc k) t = Some (k', r)"
      by auto
    from Cons.IH [OF rec] have "Suc k \<le> k'" "mn \<le> k'" "k' - Suc k \<le> length t"
      "list_all (in_class c) (take (k' - Suc k) t)" "cont (drop (k' - Suc k) t) = Some r"
      by simp_all
    moreover from \<open>Suc k \<le> k'\<close> have "k' - k = Suc (k' - Suc k)" by simp
    ultimately show ?thesis using ch by simp
  next
    case False
    with Cons.prems have "mn \<le> k" "k' = k" "cont (ch # t) = Some r"
      by (auto split: if_splits option.splits)
    then show ?thesis by simp
  qed
qed

text \<open>The text a capture group can hold: characters of its class, at least the minimum.\<close>

fun capture_ok :: "item \<Rightarrow> string \<Rightarrow> bool" where
  "capture_ok (Lit l) t = False"
| "capture_ok (Rep greedy c mn cap) t = (mn \<le> length t \<and> list_all (in_class c) t)"

fun is_capture :: "item \<Rightarrow> bool" where
  "is_capture (Lit l) = False"
| "is_capture (Rep greedy c mn cap) = cap"

lemma match_item_Lit:
  assumes "match_item (Lit l) cont s = Some (caps, n)"
  obtains t n' where "cont t = Some (caps, n')"
  using assms by (auto split: option.splits)

lemma match_item_Rep:
  assumes "match_item (Rep greedy c mn cap) cont s = Some (caps, n)"
  obtains k caps' n' where "cont (drop k s) = Some (caps', n')"
    "caps = (if cap then take k s # caps' else caps')"
    "mn \<le> k" "k \<le> length s" "list_all (in_class c) (take k s)"
proof -
  from assms obtain k caps' n' where
    r: "(if greedy then rep_greedy c mn cont 0 s else rep_lazy c mn cont 0 s) = Some (k, caps', n')"
    and caps: "caps = (if cap then take k s # caps' else caps')"
    by auto
  have snd: "mn \<le> k \<and> k - 0 \<le> length s \<and> list_all (in_class c) (take (k - 0) s)
      \<and> cont (drop (k - 0) s) = Some (caps', n')"
  proof (cases greedy)
    case True
    with r have "rep_greedy c mn cont 0 s = Some (k, caps', n')" by simp
    from rep_greedy_sound [OF this] show ?thesis by simp
  next
    case False
    with r have "rep_lazy c mn cont 0 s = Some (k, caps', n')" by simp
    from rep_lazy_sound [OF this] show ?thesis by simp
  qed
  show ?thesis
  proof (rule that)
    from snd show "cont (drop k s) = Some (caps', n')" by simp
    from caps show "caps = (if cap then take k s # caps' else caps')" .
    from snd show "mn \<le> k" "k \<le> length s" "list_all (in_class c) (take k s)" by simp_all
  qed
qed

lemma rmatch_captures:
  "rmatch p s = Some (caps, n) \<Longrightarrow> list_all2 capture_ok (filter is_capture p) caps"
proof (induction p arbitrary: s caps n)
  case Nil
  then show ?case by simp
next
  case (Cons it p)
  show ?case
  proof (cases it)
    case (Lit l)
    with Cons.prems have "match_item (Lit l) (rmatch p) s = Some (caps, n)" by simp
    then obtain t n' where "rmatch p t = Some (caps, n')" by (rule match_item_Lit)
    from Cons.IH [OF this] Lit show ?thesis by simp
  next
    case (Rep greedy c mn cap)
    with Cons.prems have "match_item (Rep greedy c mn cap) (rmatch p) s = Some (caps, n)" by simp
    then obtain k caps' n' where k: "rmatch p (drop k s) = Some (caps', n')"
      "caps = (if cap then take k s # caps' else caps')"
      "mn \<le> k" "k \<le> length s" "list_all (in_class c) (take k s)"
      by (rule match_item_Rep)
    from Cons.IH [OF k(1)] k(2-5) Rep show ?thesis by simp
  qed
qed

lemma findall_matches:
  "m \<in> set (findall p s) \<Longrightarrow> \<exists>s' n. rmatch p s' = Some (m, n)"
proof (induction p s rule: findall.induct)
  case (1 p s)
  show ?case
  proof (cases "rmatch p s")
    case None
    note none = this
    show ?thesis
    proof (cases s)
      case Nil
      with none "1.prems" show ?thesis by (simp add: findall.simps [of p "[]"])
    next
      case (Cons c t)
      with none "1.prems" have "m \<in> set (findall p t)"
        by (simp add: findall.simps [of p "c # t"])
      from "1.IH"(1) [OF none Cons this] show ?thesis .
    qed
  next
    case (Some r)
    obtain caps n where r: "r = (caps, n)" by (cases r)
    show ?thesis
    proof (cases "m = caps")
      case True
      with Some r show ?thesis by auto
    next
      case False
      with Some r "1.prems" have ne: "s \<noteq> []" and "m \<in> set (findall p (drop (max 1 n) s))"
        by (auto simp: findall.simps [of p s] split: if_splits)
      from "1.IH"(2) [OF Some r [symmetric] ne this(2)] show ?thesis .
    qed
  qed
qed

subsection \<open>The stop-list pattern\<close>

lemma stop_pattern_captures:
  "filter is_capture stop_pattern =
     [Rep False AnyChar 0 True, Rep True Digit 1 True, Rep False AnyChar 0 True,
      Rep True Digit 1 True, Rep True DigitDot 1 True, Rep True DigitDot 1 True]"
  by (simp add: stop_pattern_def)

lemma stop_match_shape:
  assumes "m \<in> set (findall stop_pattern content)"
  obtains a n nm sid la lo where "m = [a, n, nm, sid, la, lo]"
    "n \<noteq> []" "list_all is_digit n" "sid \<noteq> []" "list_all is_digit sid"
    "la \<noteq> []" "list_all (in_class DigitDot) la" "lo \<noteq> []" "list_all (in_class DigitDot) lo"
proof -
  from findall_matches [OF assms] obtain s' k where "rmatch stop_pattern s' = Some (m, k)"
    by blast
  from rmatch_captures [OF this] have "list_all2 capture_ok
      [Rep False AnyChar 0 True, Rep True Digit 1 True, Rep False AnyChar 0 True,
       Rep True Digit 1 True, Rep True DigitDot 1 True, Rep True DigitDot 1 True] m"
    by (simp only: stop_pattern_captures)
  then obtain a n nm sid la lo where m: "m = [a, n, nm, sid, la, lo]"
    and ok: "capture_ok (Rep True Digit 1 True) n" "capture_ok (Rep True Digit 1 True) sid"
      "capture_ok (Rep True DigitDot 1 True) la" "capture_ok (Rep True DigitDot 1 True) lo"
    by (auto simp: list_all2_Cons1)
  from ok have "n \<noteq> []" "list_all is_digit n" "sid \<noteq> []" "list_all is_digit sid"
    "la \<noteq> []" "list_all (in_class DigitDot) la" "lo \<noteq> []" "list_all (in_class DigitDot) lo"
    by (auto simp: list_all_iff)
  with m show ?thesis by (rule that)
qed

lemma digit_val_nonneg: "is_digit c \<Longrightarrow> 0 \<le> digit_val c"
  by (auto simp: is_digit_def digit_val_def)

lemma decimal_fold_nonneg:
  "0 \<le> a \<Longrightarrow> list_all is_digit s \<Longrightarrow> 0 \<le> foldl (\<lambda>a c. 10 * a + digit_val c) a s"
proof (induction s arbitrary: a)
  case Nil
  then show ?case by simp
next
  case (Cons c s)
  from Cons.prems have "0 \<le> 10 * a + digit_val c"
    by (simp add: digit_val_nonneg)
  with Cons show ?case by simp
qed

lemma decimal_nonneg: "list_all is_digit s \<Longrightarrow> 0 \<le> decimal s"
  by (simp add: decimal_def decimal_fold_nonneg)

lemma to_float_nonneg:
  assumes "to_float s = Inr v"
  shows "0 \<le> v"
proof -
  have ip: "list_all is_digit (takeWhile is_digit s)"
    by (simp add: list_all_iff) (metis set_takeWhileD)
  then have d: "0 \<le> decimal (takeWhile is_digit s)" by (rule decimal_nonneg)
  show ?thesis
  proof (cases "dropWhile is_digit s")
    case Nil
    with assms have "v = of_int (decimal (takeWhile is_digit s))"
      by (auto simp: to_float_def Let_def split: if_splits)
    with d show ?thesis by simp
  next
    case (Cons c fp)
    with assms have fp: "list_all is_digit fp"
      and v: "v = of_int (decimal (takeWhile is_digit s)) + of_int (decimal fp) / 10 ^ length fp"
      by (auto simp: to_float_def Let_def split: if_splits)
    from fp have "0 \<le> decimal fp" by (rule decimal_nonneg)
    with d v show ?thesis by simp
  qed
qed

lemma sign_not_DigitDot: "\<not> in_class DigitDot (CHR ''-'')"
  by (simp add: is_digit_def)

lemma DigitDot_no_sign:
  assumes "list_all (in_class DigitDot) t"
  shows "CHR ''-'' \<notin> set t"
proof
  assume "CHR ''-'' \<in> set t"
  with assms have "in_class DigitDot (CHR ''-'')"
    by (simp only: list_all_iff)
  with sign_not_DigitDot show False by simp
qed

lemma frame_row_Inr:
  assumes "frame_row rid dir m = Inr r"
  obtains a n nm sid la lo where "m = [a, n, nm, sid, la, lo]"
    "r = \<lparr>arrival_info = a, stop_number = n, stop_name = nm, stop_id = sid,
          latitude = la, longitude = lo, direction = dir, stop_route_id = rid\<rparr>"
  using assms by (induction rid dir m rule: frame_row.induct) auto

lemma text_row_coordinates:
  assumes "parse_route_info_text rid dir content = Inr df" "r \<in> set df"
  shows "list_all (in_class DigitDot) (latitude r) \<and> list_all (in_class DigitDot) (longitude r)"
proof -
  from assms(1) have "collect (frame_row rid dir) (findall stop_pattern content) = Inr df"
    by (auto simp: parse_route_info_text_def Let_def split: if_splits)
  from collect_set [OF this assms(2)] obtain m where m: "m \<in> set (findall stop_pattern content)"
    "frame_row rid dir m = Inr r"
    by blast
  from m(1) obtain a n nm sid la lo where shape: "m = [a, n, nm, sid, la, lo]"
    "list_all (in_class DigitDot) la" "list_all (in_class DigitDot) lo"
    by (rule stop_match_shape)
  with m(2) show ?thesis by auto
qed

lemma collect_to_float_nonneg:
  assumes "collect to_float xs = Inr vs" "v \<in> set vs"
  shows "0 \<le> v"
proof -
  from collect_set [OF assms] obtain x where "to_float x = Inr v" by blast
  then show ?thesis by (rule to_float_nonneg)
qed

lemma parse_route_info_nonneg:
  assumes "parse_route_info rid dir content = Inr rows" "r \<in> set rows"
  shows "0 \<le> latitude r \<and> 0 \<le> longitude r"
proof -
  from parse_route_info_Inr [OF assms(1)] obtain df lats lons nums where
    df: "parse_route_info_text rid dir content = Inr df"
    and lats: "collect to_float (map latitude df) = Inr lats"
    and lons: "collect to_float (map longitude df) = Inr lons"
    and rows: "rows = map (\<lambda>(r, n, la, lo). retype r n la lo) (zip df (zip nums (zip lats lons)))"
    by blast
  from assms(2) rows obtain r0 n la lo where z: "(r0, n, la, lo) \<in> set (zip df (zip nums (zip lats lons)))"
    and r: "r = retype r0 n la lo"
    by auto
  from z have "(n, la, lo) \<in> set (zip nums (zip lats lons))" by (rule set_zip_rightD)
  then have "(la, lo) \<in> set (zip lats lons)" by (rule set_zip_rightD)
  then have "la \<in> set lats" "lo \<in> set lons"
    by (auto dest: set_zip_leftD set_zip_rightD)
  with lats lons have "0 \<le> la" "0 \<le> lo"
    by (auto dest: collect_to_float_nonneg)
  with r show ?thesis by (simp add: retype_def)
qed

lemma parse_route_info_interactive_nonneg:
  assumes "parse_route_info_interactive rid dir content = Inr rows" "r \<in> set rows"
  shows "0 \<le> latitude r \<and> 0 \<le> longitude r"
proof (cases "findall stop_pattern content = []")
  case True
  with assms show ?thesis by (simp add: parse_route_info_interactive_def)
next
  case False
  with assms(1) obtain df lats lons where
    df: "collect (frame_row rid dir) (findall stop_pattern content) = Inr df"
    and lats: "collect to_float (map latitude df) = Inr lats"
    and lons: "collect to_float (map longitude df) = Inr lons"
    and rows: "rows = map (\<lambda>(r, la, lo). retype r (stop_number r) la lo) (zip df (zip lats lons))"
    by (auto simp: parse_route_info_interactive_def split: sum.splits)
  from assms(2) rows obtain r0 la lo where z: "(r0, la, lo) \<in> set (zip df (zip lats lons))"
    and r: "r = retype r0 (stop_number r0) la lo"
    by auto
  from z have "(la, lo) \<in> set (zip lats lons)" by (rule set_zip_rightD)
  then have "la \<in> set lats" "lo \<in> set lons"
    by (auto dest: set_zip_leftD set_zip_rightD)
  with lats lons have "0 \<le> la" "0 \<le> lo"
    by (auto dest: collect_to_float_nonneg)
  with r show ?thesis by (simp add: retype_def)
qed

text \<open>
  Claim C9. In every match of the stop-list pattern the captured latitude and longitude
  texts are not empty and consist of digits and dots only, so they hold no sign; every
  latitude and longitude that \<^verbatim>\<open>parse_route_info\<close> converts to a number is therefore not
  negative (in the variants that convert), and in the variant that keeps the text the
  coordinate columns hold digits and dots only.
\<close>

theorem coordinates_unsigned:
  "(\<forall>m \<in> set (findall stop_pattern content).
      \<exists>a n nm sid la lo. m = [a, n, nm, sid, la, lo] \<and> la \<noteq> [] \<and> lo \<noteq> []
        \<and> (\<forall>c \<in> set la. is_digit c \<or> c = CHR ''.'')
        \<and> (\<forall>c \<in> set lo. is_digit c \<or> c = CHR ''.'')
        \<and> CHR ''-'' \<notin> set la \<and> CHR ''-'' \<notin> set lo)
   \<and> (\<forall>rows. parse_route_info rid dir content = Inr rows \<longrightarrow>
        (\<forall>r \<in> set rows. 0 \<le> latitude r \<and> 0 \<le> longitude r))
   \<and> (\<forall>rows. parse_route_info_interactive rid dir content = Inr rows \<longrightarrow>
        (\<forall>r \<in> set rows. 0 \<le> latitude r \<and> 0 \<le> longitude r))
   \<and> (\<forall>rows. parse_route_info_text rid dir content = Inr rows \<longrightarrow>
        (\<forall>r \<in> set rows. (\<forall>c \<in> set (latitude r). is_digit c \<or> c = CHR ''.'')
           \<and> (\<forall>c \<in> set (longitude r). is_digit c \<or> c = CHR ''.'')))"
proof (intro conjI ballI allI impI)
  fix m
  assume "m \<in> set (findall stop_pattern content)"
  then obtain a n nm sid la lo where m: "m = [a, n, nm, sid, la, lo]"
    and la: "la \<noteq> []" "list_all (in_class DigitDot) la"
    and lo: "lo \<noteq> []" "list_all (in_class DigitDot) lo"
    by (rule stop_match_shape)
  from la(2) lo(2) have "CHR ''-'' \<notin> set la" "CHR ''-'' \<notin> set lo"
    by (auto dest: DigitDot_no_sign)
  moreover from la(2) lo(2) have "\<forall>c \<in> set la. is_digit c \<or> c = CHR ''.''"
    "\<forall>c \<in> set lo. is_digit c \<or> c = CHR ''.''"
    by (simp_all add: list_all_iff)
  ultimately show "\<exists>a n nm sid la lo. m = [a, n, nm, sid, la, lo] \<and> la \<noteq> [] \<and> lo \<noteq> []
        \<and> (\<forall>c \<in> set la. is_digit c \<or> c = CHR ''.'')
        \<and> (\<forall>c \<in> set lo. is_digit c \<or> c = CHR ''.'')
        \<and> CHR ''-'' \<notin> set la \<and> CHR ''-'' \<notin> set lo"
    using m la(1) lo(1) by blast
next
  fix rows r
  assume "parse_route_info rid dir content = Inr rows" "r \<in> set rows"
  then have "0 \<le> latitude r \<and> 0 \<le> longitude r" by (rule parse_route_info_nonneg)
  then show "0 \<le> latitude r" "0 \<le> longitude r" by simp_all
next
  fix rows r
  assume "parse_route_info_interactive rid dir content = Inr rows" "r \<in> set rows"
  then have "0 \<le> latitude r \<and> 0 \<le> longitude r"
    by (rule parse_route_info_interactive_nonneg)
  then show "0 \<le> latitude r" "0 \<le> longitude r" by simp_all
next
  fix rows r c
  assume p: "parse_route_info_text rid dir content = Inr rows" "r \<in> set rows"
  from text_row_coordinates [OF p]
  have l: "list_all (in_class DigitDot) (latitude r)" "list_all (in_class DigitDot) (longitude r)"
    by simp_all
  { assume "c \<in> set (latitude r)"
    with l(1) show "is_digit c \<or> c = CHR ''.''" by (simp add: list_all_iff) }
  { assume "c \<in> set (longitude r)"
    with l(2) show "is_digit c \<or> c = CHR ''.''" by (simp add: list_all_iff) }
qed


definition demo_stop_row :: "(int, string, rat) stop_row" where
  "demo_stop_row =
     \<lparr>arrival_info = ''3 min'', stop_number = 1, stop_name = ''Main St'', stop_id = ''1234'',
      latitude = 2503 / 100, longitude = 243 / 2, direction = ''go'', stop_route_id = ''r1''\<rparr>"

lemma demo_findall:
  "findall stop_pattern (stop_block ''1'' ''Main St'' ''25.03'' ''121.5'')
     = [[''3 min'', ''1'', ''Main St'', ''1234'', ''25.03'', ''121.5'']]"
  by code_simp

lemma demo_parse:
  "parse_route_info ''r1'' ''go'' (stop_block ''1'' ''Main St'' ''25.03'' ''121.5'')
     = Inr [demo_stop_row]"
  by code_simp

theorem coordinates_unsigned_witness:
  "findall stop_pattern (stop_block ''1'' ''Main St'' ''25.03'' ''121.5'')
     = [[''3 min'', ''1'', ''Main St'', ''1234'', ''25.03'', ''121.5'']]
   \<and> CHR ''-'' \<notin> set ''25.03'' \<and> CHR ''-'' \<notin> set ''121.5''
   \<and> parse_route_info ''r1'' ''go'' (stop_block ''1'' ''Main St'' ''25.03'' ''121.5'')
     = Inr [demo_stop_row]
   \<and> 0 \<le> latitude demo_stop_row \<and> 0 \<le> longitude demo_stop_row"
proof -
  note inst = coordinates_unsigned [of "stop_block ''1'' ''Main St'' ''25.03'' ''121.5''"
      "''r1''" "''go''"]
  from inst have "\<forall>m \<in> set (findall stop_pattern (stop_block ''1'' ''Main St'' ''25.03'' ''121.5'')).
      \<exists>a n nm sid la lo. m = [a, n, nm, sid, la, lo] \<and> la \<noteq> [] \<and> lo \<noteq> []
        \<and> (\<forall>c \<in> set la. is_digit c \<or> c = CHR ''.'')
        \<and> (\<forall>c \<in> set lo. is_digit c \<or> c = CHR ''.'')
        \<and> CHR ''-'' \<notin> set la \<and> CHR ''-'' \<notin> set lo"
    by (rule conjunct1)
  then have sign: "CHR ''-'' \<notin> set ''25.03'' \<and> CHR ''-'' \<notin> set ''121.5''"
    by (simp only: demo_findall) simp
  from inst have "\<forall>rows. parse_route_info ''r1'' ''go''
        (stop_block ''1'' ''Main St'' ''25.03'' ''121.5'') = Inr rows \<longrightarrow>
        (\<forall>r \<in> set rows. 0 \<le> latitude r \<and> 0 \<le> longitude r)"
    by (rule conjunct1 [OF conjunct2])
  with demo_parse have "\<forall>r \<in> set [demo_stop_row]. 0 \<le> latitude r \<and> 0 \<le> longitude r"
    by blast
  then have "0 \<le> latitude demo_stop_row \<and> 0 \<le> longitude demo_stop_row"
    by simp
  with sign demo_findall demo_parse show ?thesis
    by (intro conjI) simp_all
qed

subsection \<open>Numeric columns\<close>

lemma parse_route_info_rows:
  assumes "parse_route_info rid dir content = Inr rows" "i < length rows"
  shows "\<exists>a n nm sid la lo.
      findall stop_pattern content ! i = [a, n, nm, sid, la, lo]
      \<and> to_int n = Inr (stop_number (rows ! i))
      \<and> to_float la = Inr (latitude (rows ! i))
      \<and> to_float lo = Inr (longitude (rows ! i))
      \<and> arrival_info (rows ! i) = a \<and> stop_name (rows ! i) = nm \<and> stop_id (rows ! i) = sid
      \<and> direction (rows ! i) = dir \<and> stop_route_id (rows ! i) = rid"
proof -
  let ?ms = "findall stop_pattern content"
  from parse_route_info_Inr [OF assms(1)] obtain df lats lons nums where
    df: "parse_route_info_text rid dir content = Inr df"
    and lats: "collect to_float (map latitude df) = Inr lats"
    and lons: "collect to_float (map longitude df) = Inr lons"
    and nums: "collect to_int (map stop_number df) = Inr nums"
    and rows: "rows = map (\<lambda>(r, n, la, lo). retype r n la lo) (zip df (zip nums (zip lats lons)))"
    by blast
  from df have c: "collect (frame_row rid dir) ?ms = Inr df"
    by (auto simp: parse_route_info_text_def Let_def split: if_splits)
  from collect_length [OF c] collect_length [OF lats] collect_length [OF lons]
    collect_length [OF nums]
  have len: "length df = length ?ms" "length lats = length df" "length lons = length df"
    "length nums = length df"
    by simp_all
  with rows assms(2) have i: "i < length df" by simp
  with len have i': "i < length ?ms" by simp
  from collect_nth [OF c i'] have "frame_row rid dir (?ms ! i) = Inr (df ! i)" .
  then obtain a n nm sid la lo where m: "?ms ! i = [a, n, nm, sid, la, lo]"
    and r: "df ! i = \<lparr>arrival_info = a, stop_number = n, stop_name = nm, stop_id = sid,
          latitude = la, longitude = lo, direction = dir, stop_route_id = rid\<rparr>"
    by (rule frame_row_Inr)
  from collect_nth [OF lats, of i] i have "to_float (latitude (df ! i)) = Inr (lats ! i)" by simp
  with r have la: "to_float la = Inr (lats ! i)" by simp
  from collect_nth [OF lons, of i] i have "to_float (longitude (df ! i)) = Inr (lons ! i)" by simp
  with r have lo: "to_float lo = Inr (lons ! i)" by simp
  from collect_nth [OF nums, of i] i have "to_int (stop_number (df ! i)) = Inr (nums ! i)" by simp
  with r have n: "to_int n = Inr (nums ! i)" by simp
  from rows i len have "rows ! i = retype (df ! i) (nums ! i) (lats ! i) (lons ! i)"
    by simp
  with r have "rows ! i = \<lparr>arrival_info = a, stop_number = nums ! i, stop_name = nm,
      stop_id = sid, latitude = lats ! i, longitude = lons ! i, direction = dir,
      stop_route_id = rid\<rparr>"
    by (simp add: retype_def)
  with m la lo n show ?thesis by simp
qed

text \<open>
  Claim C3, amended. When \<^verbatim>\<open>parse_route_info\<close> of \<^verbatim>\<open>scraper/realtime_scraper.py\<close>
  returns, it returns one record for each match of the pattern, in order, with the stop
  number converted to an integer and latitude and longitude converted to numbers, the
  stop id being the captured digit text; and when the conversion of a captured
  latitude, longitude or stop number fails, the whole parse raises.
\<close>

theorem parse_route_info_numeric:
  "(parse_route_info rid dir content = Inr rows \<longrightarrow>
      length rows = length (findall stop_pattern content)
      \<and> (\<forall>i < length rows. \<exists>a n nm sid la lo.
            findall stop_pattern content ! i = [a, n, nm, sid, la, lo]
            \<and> to_int n = Inr (stop_number (rows ! i))
            \<and> to_float la = Inr (latitude (rows ! i))
            \<and> to_float lo = Inr (longitude (rows ! i))
            \<and> arrival_info (rows ! i) = a \<and> stop_name (rows ! i) = nm
            \<and> stop_id (rows ! i) = sid
            \<and> direction (rows ! i) = dir \<and> stop_route_id (rows ! i) = rid))
   \<and> ((\<exists>m \<in> set (findall stop_pattern content).
          isl (to_int (m ! 1)) \<or> isl (to_float (m ! 4)) \<or> isl (to_float (m ! 5))) \<longrightarrow>
        isl (parse_route_info rid dir content))"
proof (intro conjI impI allI)
  assume "parse_route_info rid dir content = Inr rows"
  then show "length rows = length (findall stop_pattern content)"
    by (simp add: parse_route_info_length)
next
  fix i
  assume "parse_route_info rid dir content = Inr rows" "i < length rows"
  then show "\<exists>a n nm sid la lo.
      findall stop_pattern content ! i = [a, n, nm, sid, la, lo]
      \<and> to_int n = Inr (stop_number (rows ! i))
      \<and> to_float la = Inr (latitude (rows ! i))
      \<and> to_float lo = Inr (longitude (rows ! i))
      \<and> arrival_info (rows ! i) = a \<and> stop_name (rows ! i) = nm \<and> stop_id (rows ! i) = sid
      \<and> direction (rows ! i) = dir \<and> stop_route_id (rows ! i) = rid"
    by (rule parse_route_info_rows)
next
  assume bad: "\<exists>m \<in> set (findall stop_pattern content).
      isl (to_int (m ! 1)) \<or> isl (to_float (m ! 4)) \<or> isl (to_float (m ! 5))"
  show "isl (parse_route_info rid dir content)"
  proof (rule ccontr)
    assume "\<not> isl (parse_route_info rid dir content)"
    then obtain rows' where p: "parse_route_info rid dir content = Inr rows'"
      by (cases "parse_route_info rid dir content") auto
    from bad obtain m where m: "m \<in> set (findall stop_pattern content)"
      "isl (to_int (m ! 1)) \<or> isl (to_float (m ! 4)) \<or> isl (to_float (m ! 5))"
      by blast
    from m(1) obtain i where i: "i < length (findall stop_pattern content)"
      "findall stop_pattern content ! i = m"
      by (auto simp: in_set_conv_nth)
    from p i(1) have "i < length rows'" by (simp add: parse_route_info_length)
    from parse_route_info_rows [OF p this] i(2) obtain a n nm sid la lo where
      "m = [a, n, nm, sid, la, lo]" "to_int n = Inr (stop_number (rows' ! i))"
      "to_float la = Inr (latitude (rows' ! i))" "to_float lo = Inr (longitude (rows' ! i))"
      by auto
    with m(2) show False by simp
  qed
qed


lemma demo_bad_findall:
  "findall stop_pattern (stop_block ''1'' ''Side St'' ''1.2.3'' ''121.5'')
     = [[''3 min'', ''1'', ''Side St'', ''1234'', ''1.2.3'', ''121.5'']]"
  by code_simp

lemma demo_bad_float: "isl (to_float ''1.2.3'')"
  by code_simp

theorem parse_route_info_numeric_witness:
  "parse_route_info ''r1'' ''go'' (stop_block ''1'' ''Main St'' ''25.03'' ''121.5'')
     = Inr [demo_stop_row]
   \<and> length [demo_stop_row]
     = length (findall stop_pattern (stop_block ''1'' ''Main St'' ''25.03'' ''121.5''))
   \<and> to_int ''1'' = Inr (stop_number demo_stop_row)
   \<and> to_float ''25.03'' = Inr (latitude demo_stop_row)
   \<and> [''3 min'', ''1'', ''Side St'', ''1234'', ''1.2.3'', ''121.5'']
       \<in> set (findall stop_pattern (stop_block ''1'' ''Side St'' ''1.2.3'' ''121.5''))
   \<and> isl (to_float ''1.2.3'')
   \<and> isl (parse_route_info ''r2'' ''go'' (stop_block ''1'' ''Side St'' ''1.2.3'' ''121.5''))"
proof -
  note good = parse_route_info_numeric [of "''r1''" "''go''"
      "stop_block ''1'' ''Main St'' ''25.03'' ''121.5''" "[demo_stop_row]"]
  from good demo_parse
  have len: "length [demo_stop_row]
      = length (findall stop_pattern (stop_block ''1'' ''Main St'' ''25.03'' ''121.5''))"
    and rows: "\<forall>i < length [demo_stop_row]. \<exists>a n nm sid la lo.
        findall stop_pattern (stop_block ''1'' ''Main St'' ''25.03'' ''121.5'') ! i
          = [a, n, nm, sid, la, lo]
        \<and> to_int n = Inr (stop_number ([demo_stop_row] ! i))
        \<and> to_float la = Inr (latitude ([demo_stop_row] ! i))
        \<and> to_float lo = Inr (longitude ([demo_stop_row] ! i))
        \<and> arrival_info ([demo_stop_row] ! i) = a \<and> stop_name ([demo_stop_row] ! i) = nm
        \<and> stop_id ([demo_stop_row] ! i) = sid
        \<and> direction ([demo_stop_row] ! i) = ''go'' \<and> stop_route_id ([demo_stop_row] ! i) = ''r1''"
    by blast+
  from rows have "\<exists>a n nm sid la lo.
        findall stop_pattern (stop_block ''1'' ''Main St'' ''25.03'' ''121.5'') ! 0
          = [a, n, nm, sid, la, lo]
        \<and> to_int n = Inr (stop_number ([demo_stop_row] ! 0))
        \<and> to_float la = Inr (latitude ([demo_stop_row] ! 0))"
    by auto
  then have conv: "to_int ''1'' = Inr (stop_number demo_stop_row)
      \<and> to_float ''25.03'' = Inr (latitude demo_stop_row)"
    by (simp add: demo_findall)
  have mem: "[''3 min'', ''1'', ''Side St'', ''1234'', ''1.2.3'', ''121.5'']
       \<in> set (findall stop_pattern (stop_block ''1'' ''Side St'' ''1.2.3'' ''121.5''))"
    by (simp add: demo_bad_findall)
  have "isl (to_float ([''3 min'', ''1'', ''Side St'', ''1234'', ''1.2.3'', ''121.5''] ! 4))"
    using demo_bad_float by simp
  with mem have "\<exists>m \<in> set (findall stop_pattern (stop_block ''1'' ''Side St'' ''1.2.3'' ''121.5'')).
      isl (to_int (m ! 1)) \<or> isl (to_float (m ! 4)) \<or> isl (to_float (m ! 5))"
    by blast
  with parse_route_info_numeric [of "''r2''" "''go''"
      "stop_block ''1'' ''Side St'' ''1.2.3'' ''121.5''"]
  have "isl (parse_route_info ''r2'' ''go'' (stop_block ''1'' ''Side St'' ''1.2.3'' ''121.5''))"
    by blast
  with demo_parse len conv mem demo_bad_float show ?thesis
    by (intro conjI) simp_all
qed

text \<open>
  The claim as stated fails. Two entries, the first with the latitude text \<open>abc\<close>: the
  parse of \<^verbatim>\<open>scraper/realtime_scraper.py\<close> does not fail, it returns one record, the first
  entry with the coordinates of the second, and its stop id is the captured text. And
  \<^verbatim>\<open>parse_route_info\<close> of \<^verbatim>\<open>00003.py\<close> converts nothing: the latitude text \<open>1.2.3\<close> is
  returned as it is.
\<close>

theorem parse_route_info_malformed_counterexample:
  "parse_route_info ''r1'' ''go''
     (stop_block ''1'' ''Main St'' ''abc'' ''121.5'' @ stop_block ''2'' ''Side St'' ''25.04'' ''121.6'')
     = Inr [\<lparr>arrival_info = ''3 min'', stop_number = 1, stop_name = ''Main St'',
             stop_id = ''1234'', latitude = 2504 / 100, longitude = 1216 / 10,
             direction = ''go'', stop_route_id = ''r1''\<rparr>]
   \<and> parse_route_info_text ''r1'' ''go'' (stop_block ''1'' ''Main St'' ''1.2.3'' ''121.5'')
     = Inr [\<lparr>arrival_info = ''3 min'', stop_number = ''1'', stop_name = ''Main St'',
             stop_id = ''1234'', latitude = ''1.2.3'', longitude = ''121.5'',
             direction = ''go'', stop_route_id = ''r1''\<rparr>]"
  by code_simp

subsection \<open>The route-list pattern on a well-formed page\<close>

lemma strip_prefix_append: "strip_prefix l (l @ t) = Some t"
  by (induction l) auto

lemma strip_prefix_Some: "strip_prefix l s = Some t \<Longrightarrow> s = l @ t"
proof (induction l s rule: strip_prefix.induct)
  case (1 s)
  then show ?case by simp
next
  case (2 c l)
  then show ?case by simp
next
  case (3 c l d s)
  then show ?case by (auto split: if_splits)
qed

text \<open>
  \<open>starts_within d x\<close>: when \<open>x\<close> is followed by \<open>d\<close>, an occurrence of \<open>d\<close> starts
  inside \<open>x\<close>.
\<close>

fun starts_within :: "string \<Rightarrow> string \<Rightarrow> bool" where
  "starts_within d [] = False"
| "starts_within d (c # x) = (strip_prefix d (c # x @ d) \<noteq> None \<or> starts_within d x)"

lemma strip_prefix_shorter:
  assumes "strip_prefix d (u @ d @ t) \<noteq> None"
  shows "strip_prefix d (u @ d) \<noteq> None"
proof -
  from assms obtain r where "strip_prefix d (u @ d @ t) = Some r" by auto
  then have eq: "u @ d @ t = d @ r" by (rule strip_prefix_Some)
  then have "take (length d) (u @ d) = d"
    by (metis append_eq_conv_conj append.assoc length_append take_all_iff take_append
        le_add2)
  then have "u @ d = d @ drop (length d) (u @ d)"
    by (metis append_take_drop_id)
  then show ?thesis
    by (metis strip_prefix_append option.distinct(1))
qed

lemma not_starts_within:
  assumes "\<not> starts_within d x" "j < length x"
  shows "strip_prefix d (drop j x @ d @ t) = None"
  using assms
proof (induction x arbitrary: j)
  case Nil
  then show ?case by simp
next
  case (Cons c x)
  show ?case
  proof (cases j)
    case 0
    from Cons.prems(1) have "strip_prefix d ((c # x) @ d) = None" by simp
    with strip_prefix_shorter [of d "c # x" t] have "strip_prefix d ((c # x) @ d @ t) = None"
      by blast
    with 0 show ?thesis by simp
  next
    case (Suc i)
    with Cons.prems have "\<not> starts_within d x" "i < length x" by simp_all
    from Cons.IH [OF this] Suc show ?thesis by simp
  qed
qed

lemma not_starts_within_end:
  assumes "\<not> starts_within d x" "j < length x"
  shows "strip_prefix d (drop j x) = None"
proof (rule ccontr)
  assume "strip_prefix d (drop j x) \<noteq> None"
  then obtain r where "strip_prefix d (drop j x) = Some r" by auto
  then have "drop j x = d @ r" by (rule strip_prefix_Some)
  then have "drop j x @ d @ [] = d @ (r @ d)" by simp
  then have "strip_prefix d (drop j x @ d @ []) = Some (r @ d)"
    by (simp only: strip_prefix_append)
  with not_starts_within [OF assms, of "[]"] show False by simp
qed


lemma rep_lazy_skip:
  assumes "\<forall>j < length x. cont (drop j x @ y) = None" "list_all (in_class c) x"
  shows "rep_lazy c mn cont k (x @ y) = rep_lazy c mn cont (k + length x) y"
  using assms
proof (induction x arbitrary: k)
  case Nil
  then show ?case by simp
next
  case (Cons ch x)
  from Cons.prems(1) have "cont (drop 0 (ch # x) @ y) = None" by blast
  then have here: "cont (ch # x @ y) = None" by simp
  have "\<forall>j < length x. cont (drop j x @ y) = None"
  proof (intro allI impI)
    fix j
    assume "j < length x"
    then have "Suc j < length (ch # x)" by simp
    with Cons.prems(1) have "cont (drop (Suc j) (ch # x) @ y) = None" by blast
    then show "cont (drop j x @ y) = None" by simp
  qed
  moreover from Cons.prems(2) have "list_all (in_class c) x" "in_class c ch" by simp_all
  ultimately show ?case
    using Cons.IH [of "Suc k"] here by simp
qed

lemma rep_lazy_hit: "mn \<le> k \<Longrightarrow> cont y = Some r \<Longrightarrow> rep_lazy c mn cont k y = Some (k, r)"
  by (cases y) auto

lemma rep_lazy_first:
  assumes "\<forall>j < length x. cont (drop j x @ y) = None" "cont y = Some r"
  shows "rep_lazy AnyChar 0 cont 0 (x @ y) = Some (length x, r)"
proof -
  have "list_all (in_class AnyChar) x" by (simp add: list_all_iff)
  with assms(1) have "rep_lazy AnyChar 0 cont 0 (x @ y) = rep_lazy AnyChar 0 cont (0 + length x) y"
    by (rule rep_lazy_skip)
  also from assms(2) have "\<dots> = Some (0 + length x, r)"
    by (intro rep_lazy_hit) simp_all
  finally show ?thesis by simp
qed

lemma findall_skip:
  assumes "\<forall>j < length g. rmatch p (drop j g @ y) = None"
  shows "findall p (g @ y) = findall p y"
  using assms
proof (induction g)
  case Nil
  then show ?case by simp
next
  case (Cons c g)
  from Cons.prems have "rmatch p (drop 0 (c # g) @ y) = None" by blast
  then have here: "rmatch p (c # g @ y) = None" by simp
  have "\<forall>j < length g. rmatch p (drop j g @ y) = None"
  proof (intro allI impI)
    fix j
    assume "j < length g"
    then have "Suc j < length (c # g)" by simp
    with Cons.prems have "rmatch p (drop (Suc j) (c # g) @ y) = None" by blast
    then show "rmatch p (drop j g @ y) = None" by simp
  qed
  from Cons.IH [OF this] here show ?case
    by (simp add: findall.simps [of p "c # g @ y"])
qed

lemma findall_hit:
  assumes "rmatch p s = Some (caps, n)" "s \<noteq> []"
  shows "findall p s = caps # findall p (drop (max 1 n) s)"
  using assms by (simp add: findall.simps [of p s])

lemma findall_none:
  assumes "\<forall>j \<le> length g. rmatch p (drop j g) = None"
  shows "findall p g = []"
proof -
  from assms have "rmatch p (drop (length g) g) = None" by blast
  then have e: "findall p [] = []"
    by (simp add: findall.simps [of p "[]"])
  from assms have "\<forall>j < length g. rmatch p (drop j g @ []) = None"
    by simp
  from findall_skip [OF this] e show ?thesis by simp
qed


text \<open>
  A well-formed route-list page, in the words of the specification: anchor entries of the
  micro-syntax \<^verbatim>\<open><li><a href="javascript:go('ID')">NAME</a></li>\<close>, with other text before,
  between and after them. The closing \<^verbatim>\<open>')">\<close> of an entry is the first one behind its
  opening, its \<^verbatim>\<open></a></li>\<close> the first one behind that, and no entry opens inside the
  other text.
\<close>

definition anchor :: "string \<times> string \<Rightarrow> string" where
  "anchor e = route_open @ fst e @ route_mid @ snd e @ route_close"

definition wf_anchor :: "string \<times> string \<Rightarrow> bool" where
  "wf_anchor e \<longleftrightarrow> \<not> starts_within route_mid (fst e) \<and> \<not> starts_within route_close (snd e)"

fun route_doc :: "string \<Rightarrow> ((string \<times> string) \<times> string) list \<Rightarrow> string" where
  "route_doc g0 [] = g0"
| "route_doc g0 ((e, g) # es) = g0 @ anchor e @ route_doc g es"

lemma rmatch_route_open_None:
  "strip_prefix route_open s = None \<Longrightarrow> rmatch route_list_pattern s = None"
  by (simp add: route_list_pattern_def)

lemma rmatch_anchor:
  assumes "wf_anchor e"
  shows "rmatch route_list_pattern (anchor e @ rest) = Some ([fst e, snd e], length (anchor e))"
proof -
  obtain rid name where e: "e = (rid, name)" by (cases e)
  from assms e have wr: "\<not> starts_within route_mid rid" and wn: "\<not> starts_within route_close name"
    by (simp_all add: wf_anchor_def)
  let ?K4 = "match_item (Lit route_close) (rmatch [])"
  let ?K3 = "match_item (Rep False AnyChar 0 True) ?K4"
  let ?K2 = "match_item (Lit route_mid) ?K3"
  let ?K1 = "match_item (Rep False AnyChar 0 True) ?K2"
  have k4: "?K4 (route_close @ rest) = Some ([], length route_close)"
    by (simp add: strip_prefix_append)
  have k4n: "\<forall>j < length name. ?K4 (drop j name @ route_close @ rest) = None"
    using wn by (simp add: not_starts_within)
  have "rep_lazy AnyChar 0 ?K4 0 (name @ route_close @ rest)
      = Some (length name, [], length route_close)"
    using k4n k4 by (rule rep_lazy_first)
  then have k3: "?K3 (name @ route_close @ rest)
      = Some ([name], length name + length route_close)"
    by simp
  have "?K2 (route_mid @ name @ route_close @ rest)
      = map_option (\<lambda>(caps, n). (caps, length route_mid + n))
          (?K3 (name @ route_close @ rest))"
    by (simp only: match_item.simps(1) strip_prefix_append option.case)
  then have k2: "?K2 (route_mid @ name @ route_close @ rest)
      = Some ([name], length route_mid + (length name + length route_close))"
    by (simp only: k3 option.map prod.case)
  have k2n: "\<forall>j < length rid.
      ?K2 (drop j rid @ route_mid @ name @ route_close @ rest) = None"
    using wr by (simp add: not_starts_within)
  have "rep_lazy AnyChar 0 ?K2 0 (rid @ route_mid @ name @ route_close @ rest)
      = Some (length rid, [name], length route_mid + (length name + length route_close))"
    using k2n k2 by (rule rep_lazy_first)
  then have k1: "?K1 (rid @ route_mid @ name @ route_close @ rest)
      = Some ([rid, name],
          length rid + (length route_mid + (length name + length route_close)))"
    by simp
  have "match_item (Lit route_open) ?K1 (route_open @ rid @ route_mid @ name @ route_close @ rest)
      = map_option (\<lambda>(caps, n). (caps, length route_open + n))
          (?K1 (rid @ route_mid @ name @ route_close @ rest))"
    by (simp only: match_item.simps(1) strip_prefix_append option.case)
  then have "match_item (Lit route_open) ?K1
        (route_open @ rid @ route_mid @ name @ route_close @ rest)
      = Some ([rid, name], length route_open +
          (length rid + (length route_mid + (length name + length route_close))))"
    by (simp only: k1 option.map prod.case)
  then show ?thesis
    by (simp add: e anchor_def route_list_pattern_def)
qed

lemma route_open_not_empty: "strip_prefix route_open [] = None"
  by (simp add: route_open_def)

lemma anchor_not_empty: "anchor e @ rest \<noteq> []" "1 \<le> length (anchor e)"
  by (simp_all add: anchor_def route_open_def)

lemma findall_route_doc:
  assumes "\<not> starts_within route_open g0"
    "\<forall>eg \<in> set es. wf_anchor (fst eg) \<and> \<not> starts_within route_open (snd eg)"
  shows "findall route_list_pattern (route_doc g0 es) = map (\<lambda>eg. [fst (fst eg), snd (fst eg)]) es"
  using assms
proof (induction es arbitrary: g0)
  case Nil
  have "\<forall>j \<le> length g0. rmatch route_list_pattern (drop j g0) = None"
  proof (intro allI impI)
    fix j
    assume j: "j \<le> length g0"
    show "rmatch route_list_pattern (drop j g0) = None"
    proof (cases "j < length g0")
      case True
      with Nil.prems(1) have "strip_prefix route_open (drop j g0) = None"
        by (rule not_starts_within_end)
      then show ?thesis by (rule rmatch_route_open_None)
    next
      case False
      with j have "drop j g0 = []" by simp
      with route_open_not_empty show ?thesis by (simp add: rmatch_route_open_None)
    qed
  qed
  then show ?case by (simp add: findall_none)
next
  case (Cons eg es)
  obtain e g where eg: "eg = (e, g)" by (cases eg)
  from Cons.prems(2) eg have we: "wf_anchor e" and wg: "\<not> starts_within route_open g"
    and rest: "\<forall>eg \<in> set es. wf_anchor (fst eg) \<and> \<not> starts_within route_open (snd eg)"
    by simp_all
  let ?R = "route_doc g es"
  have "\<forall>j < length g0. rmatch route_list_pattern (drop j g0 @ anchor e @ ?R) = None"
  proof (intro allI impI)
    fix j
    assume "j < length g0"
    with Cons.prems(1) have "strip_prefix route_open
        (drop j g0 @ route_open @ (fst e @ route_mid @ snd e @ route_close @ ?R)) = None"
      by (rule not_starts_within)
    then have "strip_prefix route_open (drop j g0 @ anchor e @ ?R) = None"
      by (simp add: anchor_def)
    then show "rmatch route_list_pattern (drop j g0 @ anchor e @ ?R) = None"
      by (rule rmatch_route_open_None)
  qed
  then have "findall route_list_pattern (g0 @ anchor e @ ?R)
      = findall route_list_pattern (anchor e @ ?R)"
    by (rule findall_skip)
  also have "\<dots> = [fst e, snd e] #
      findall route_list_pattern (drop (max 1 (length (anchor e))) (anchor e @ ?R))"
    using rmatch_anchor [OF we, of ?R] anchor_not_empty(1) [of e ?R] by (rule findall_hit)
  also have "drop (max 1 (length (anchor e))) (anchor e @ ?R) = ?R"
    using anchor_not_empty(2) [of e] by (simp add: max_def)
  also have "findall route_list_pattern ?R = map (\<lambda>eg. [fst (fst eg), snd (fst eg)]) es"
    using wg rest by (rule Cons.IH)
  finally show ?case by (simp add: eg)
qed

lemma collect_unpack_route:
  "collect unpack_route (map (\<lambda>eg. [fst (fst eg), snd (fst eg)]) es)
     = Inr (map (\<lambda>eg. (fst (fst eg), strip (snd (fst eg)))) es)"
  by (induction es) simp_all

lemma strip_decompose:
  "\<exists>a b. s = a @ strip s @ b \<and> list_all is_space a \<and> list_all is_space b"
proof -
  let ?t = "dropWhile is_space s"
  let ?u = "dropWhile is_space (rev ?t)"
  have "s = takeWhile is_space s @ ?t" by simp
  moreover have "rev ?t = takeWhile is_space (rev ?t) @ ?u" by simp
  then have "?t = rev (takeWhile is_space (rev ?t) @ ?u)" by (metis rev_rev_ident)
  then have "?t = rev ?u @ rev (takeWhile is_space (rev ?t))" by (simp only: rev_append)
  ultimately have "s = takeWhile is_space s @ strip s @ rev (takeWhile is_space (rev ?t))"
    by (simp add: strip_def)
  moreover have "list_all is_space (takeWhile is_space s)"
    by (simp add: list_all_iff) (metis set_takeWhileD)
  moreover have "list_all is_space (rev (takeWhile is_space (rev ?t)))"
    by (simp add: list_all_iff) (metis set_takeWhileD)
  ultimately show ?thesis by blast
qed

lemma strip_ends:
  "strip s = [] \<or> (\<not> is_space (hd (strip s)) \<and> \<not> is_space (last (strip s)))"
proof (cases "strip s = []")
  case True
  then show ?thesis by simp
next
  case False
  let ?t = "dropWhile is_space s"
  let ?u = "dropWhile is_space (rev ?t)"
  from False have u: "?u \<noteq> []" by (simp add: strip_def)
  then have "\<not> is_space (hd ?u)" by (rule hd_dropWhile)
  with u have l: "\<not> is_space (last (strip s))" by (simp add: strip_def last_rev)
  have t: "?t \<noteq> []"
  proof
    assume "?t = []"
    then have "?u = dropWhile is_space (rev [])" by (simp only:)
    with u show False by simp
  qed
  then have ht: "\<not> is_space (hd ?t)" by (rule hd_dropWhile)
  have "rev ?t = takeWhile is_space (rev ?t) @ ?u" by simp
  with u have "last (rev ?t) = last ?u" by (metis last_appendR)
  with t have "last ?u = hd ?t" by (simp add: last_rev)
  with u ht have "\<not> is_space (hd (strip s))" by (simp add: strip_def hd_rev)
  with l show ?thesis by simp
qed


text \<open>
  Claim C6, amended. On a well-formed route-list page with \<open>N \<ge> 1\<close> anchor entries,
  \<^verbatim>\<open>parse_route_list\<close> returns exactly the \<open>N\<close> pairs of route token and display name, in
  document order, each name stripped: the name without the white space around it,
  beginning and ending with a character that is not white space (or empty).
  (With no anchor entry it raises the no-data error.)
\<close>

theorem parse_route_list_well_formed:
  assumes "\<not> starts_within route_open g0"
    "\<forall>eg \<in> set es. wf_anchor (fst eg) \<and> \<not> starts_within route_open (snd eg)"
    "es \<noteq> []"
  shows "parse_route_list (route_doc g0 es)
      = Inr (map (\<lambda>eg. (fst (fst eg), strip (snd (fst eg)))) es)
    \<and> length (map (\<lambda>eg. (fst (fst eg), strip (snd (fst eg)))) es) = length es
    \<and> (\<forall>eg \<in> set es.
          (\<exists>a b. snd (fst eg) = a @ strip (snd (fst eg)) @ b
             \<and> list_all is_space a \<and> list_all is_space b)
          \<and> (strip (snd (fst eg)) = []
              \<or> \<not> is_space (hd (strip (snd (fst eg))))
                \<and> \<not> is_space (last (strip (snd (fst eg))))))"
proof (intro conjI ballI)
  from assms(1,2) have f: "findall route_list_pattern (route_doc g0 es)
      = map (\<lambda>eg. [fst (fst eg), snd (fst eg)]) es"
    by (rule findall_route_doc)
  with assms(3) have "findall route_list_pattern (route_doc g0 es) \<noteq> []" by simp
  then have "parse_route_list (route_doc g0 es)
      = collect unpack_route (findall route_list_pattern (route_doc g0 es))"
    by (simp add: parse_route_list_def)
  then show "parse_route_list (route_doc g0 es)
      = Inr (map (\<lambda>eg. (fst (fst eg), strip (snd (fst eg)))) es)"
    by (simp only: f collect_unpack_route)
next
  show "length (map (\<lambda>eg. (fst (fst eg), strip (snd (fst eg)))) es) = length es"
    by simp
next
  fix eg
  show "\<exists>a b. snd (fst eg) = a @ strip (snd (fst eg)) @ b
      \<and> list_all is_space a \<and> list_all is_space b"
    by (rule strip_decompose)
  show "strip (snd (fst eg)) = []
      \<or> \<not> is_space (hd (strip (snd (fst eg)))) \<and> \<not> is_space (last (strip (snd (fst eg))))"
    by (rule strip_ends)
qed

definition demo_name :: string where
  "demo_name = CHR 0xA0 # '' Line 9 '' @ [CHR 0x85]"

definition demo_entries :: "((string \<times> string) \<times> string) list" where
  "demo_entries =
     [((''0161000900'', demo_name), '' ''),
      ((''02'', ''B2''), ''</ul>'')]"

theorem parse_route_list_well_formed_witness:
  "\<not> starts_within route_open ''<ul>''
   \<and> wf_anchor (''0161000900'', demo_name) \<and> \<not> starts_within route_open '' ''
   \<and> wf_anchor (''02'', ''B2'') \<and> \<not> starts_within route_open ''</ul>''
   \<and> parse_route_list (route_doc ''<ul>'' demo_entries)
       = Inr [(''0161000900'', ''Line 9''), (''02'', ''B2'')]"
proof -
  have h1: "\<not> starts_within route_open ''<ul>''"
    by code_simp
  have w: "wf_anchor (''0161000900'', demo_name)" "\<not> starts_within route_open '' ''"
    "wf_anchor (''02'', ''B2'')" "\<not> starts_within route_open ''</ul>''"
    by code_simp+
  then have h2: "\<forall>eg \<in> set demo_entries.
      wf_anchor (fst eg) \<and> \<not> starts_within route_open (snd eg)"
    by (simp add: demo_entries_def)
  have h3: "demo_entries \<noteq> []"
    by (simp add: demo_entries_def)
  have s: "strip demo_name = ''Line 9''" "strip ''B2'' = ''B2''"
    by code_simp+
  from parse_route_list_well_formed [OF h1 h2 h3]
  have "parse_route_list (route_doc ''<ul>'' demo_entries)
      = Inr (map (\<lambda>eg. (fst (fst eg), strip (snd (fst eg)))) demo_entries)"
    by (rule conjunct1)
  then have "parse_route_list (route_doc ''<ul>'' demo_entries)
      = Inr [(''0161000900'', ''Line 9''), (''02'', ''B2'')]"
    by (simp add: demo_entries_def s)
  with h1 w show ?thesis by (intro conjI)
qed

text \<open>
  The claim as stated fails for \<open>N = 0\<close>: on a page without an anchor entry
  \<^verbatim>\<open>parse_route_list\<close> does not return zero pairs, it raises.
\<close>

theorem parse_route_list_empty_counterexample:
  "\<not> starts_within route_open ''<ul></ul>''
   \<and> parse_route_list (route_doc ''<ul></ul>'' [])
       = Inl (ValueError ''No data found for route table'')"
  by code_simp

section \<open>Saving a parsed frame\<close>

lemma collect_Inl_iff:
  "(\<exists>e. collect f xs = Inl e) \<longleftrightarrow> (\<exists>x \<in> set xs. \<exists>e. f x = Inl e)"
proof (induction xs)
  case Nil
  then show ?case by simp
next
  case (Cons a xs)
  then show ?case
    by (cases "f a"; cases "collect f xs") auto
qed

lemma collect_list_all2:
  "collect f xs = Inr ys \<Longrightarrow> list_all2 (\<lambda>x y. f x = Inr y) xs ys"
proof (induction xs arbitrary: ys)
  case Nil
  then show ?case by simp
next
  case (Cons a xs)
  then show ?case
    by (auto split: sum.splits)
qed

lemma list_all2_left:
  "list_all2 P xs ys \<Longrightarrow> x \<in> set xs \<Longrightarrow> \<exists>y \<in> set ys. P x y"
  by (induction xs ys rule: list_all2_induct) auto

lemma bus_stop_orm_Inl_iff:
  "(\<exists>e. bus_stop_orm x = Inl e) \<longleftrightarrow>
     (\<exists>e. to_float (latitude x) = Inl e) \<or> (\<exists>e. to_float (longitude x) = Inl e)"
  by (auto simp: bus_stop_orm_def split: sum.splits)

lemma text_row_numbers:
  assumes "parse_route_info_text rid dir content = Inr df" "r \<in> set df"
  shows "stop_number r \<noteq> [] \<and> list_all is_digit (stop_number r)
    \<and> stop_id r \<noteq> [] \<and> list_all is_digit (stop_id r)"
proof -
  from assms(1) have "collect (frame_row rid dir) (findall stop_pattern content) = Inr df"
    by (auto simp: parse_route_info_text_def Let_def split: if_splits)
  from collect_set [OF this assms(2)] obtain m where m: "m \<in> set (findall stop_pattern content)"
    "frame_row rid dir m = Inr r"
    by blast
  from m(1) obtain a n nm sid la lo where shape: "m = [a, n, nm, sid, la, lo]"
    "n \<noteq> []" "list_all is_digit n" "sid \<noteq> []" "list_all is_digit sid"
    by (rule stop_match_shape)
  with m(2) show ?thesis by auto
qed

lemma bus_stop_orm_key:
  assumes "bus_stop_orm x = Inr y" "stop_number x \<noteq> []" "list_all is_digit (stop_number x)"
    "decimal (stop_number x) < 9223372036854775808"
  shows "stop_key y = (stop_route_id x, direction x, SqlInteger (decimal (stop_number x)))"
  using assms by (auto simp: bus_stop_orm_def stop_key_def integer_affinity_def split: sum.splits)

lemma bound_rows_keys:
  assumes "list_all2 (\<lambda>x y. bus_stop_orm x = Inr y) df rows"
    "\<forall>r \<in> set df. stop_number r \<noteq> [] \<and> list_all is_digit (stop_number r)
        \<and> decimal (stop_number r) < 9223372036854775808"
  shows "map stop_key rows
    = map (\<lambda>x. (stop_route_id x, direction x, SqlInteger (decimal (stop_number x)))) df"
  using assms
proof (induction df rows rule: list_all2_induct)
  case Nil
  then show ?case by simp
next
  case (Cons x xs y ys)
  from Cons.prems have "stop_number x \<noteq> []" "list_all is_digit (stop_number x)"
    "decimal (stop_number x) < 9223372036854775808"
    by simp_all
  with Cons.hyps(1)
  have "stop_key y = (stop_route_id x, direction x, SqlInteger (decimal (stop_number x)))"
    by (rule bus_stop_orm_key)
  with Cons show ?case by simp
qed

lemma bound_rows_distinct:
  assumes "list_all2 (\<lambda>x y. bus_stop_orm x = Inr y) df rows"
    "\<forall>r \<in> set df. stop_number r \<noteq> [] \<and> list_all is_digit (stop_number r)
        \<and> decimal (stop_number r) < 9223372036854775808"
    "distinct (map (\<lambda>r. decimal (stop_number r)) df)"
  shows "distinct (map stop_key rows)"
proof -
  let ?g = "\<lambda>x. (stop_route_id x, direction x, SqlInteger (decimal (stop_number x)))"
  have "map (\<lambda>r. decimal (stop_number r)) df
      = map (\<lambda>k. case snd (snd k) of SqlInteger n \<Rightarrow> n | _ \<Rightarrow> 0) (map ?g df)"
    by simp
  with assms(3) have "distinct (map (\<lambda>k. case snd (snd k) of SqlInteger n \<Rightarrow> n | _ \<Rightarrow> 0) (map ?g df))"
    by (simp only:)
  then have "distinct (map ?g df)"
    by (simp only: distinct_map)
  with bound_rows_keys [OF assms(1,2)] show ?thesis by simp
qed

lemma save_00003_Inr:
  assumes "route_info_save_to_database_00003 df tbl = Inr t"
  obtains rows where "collect bus_stop_orm df = Inr rows" "t = merge_rows rows tbl"
  using assms by (auto simp: route_info_save_to_database_00003_def split: sum.splits)

lemma save_00003_last_write:
  assumes parsed: "parse_route_info_text rid dir content = Inr df"
    and once: "distinct (map (\<lambda>r. decimal (stop_number r)) df)"
    and fits: "\<forall>r \<in> set df. decimal (stop_number r) < 9223372036854775808"
    and keys: "distinct (map stop_key tbl)"
    and saved: "route_info_save_to_database_00003 df tbl = Inr t"
  shows "distinct (map stop_key t)"
    "\<forall>x \<in> set df. \<exists>y. bus_stop_orm x = Inr y
        \<and> stop_key y = (stop_route_id x, direction x, SqlInteger (decimal (stop_number x)))
        \<and> filter (\<lambda>r. stop_key r = stop_key y) t = [y]"
    "route_info_save_to_database_00003 df t = Inr t"
proof -
  from saved obtain rows where rows: "collect bus_stop_orm df = Inr rows"
    and t: "t = merge_rows rows tbl"
    by (rule save_00003_Inr)
  from rows have l2: "list_all2 (\<lambda>x y. bus_stop_orm x = Inr y) df rows"
    by (rule collect_list_all2)
  from parsed fits have shape: "\<forall>r \<in> set df. stop_number r \<noteq> [] \<and> list_all is_digit (stop_number r)
        \<and> decimal (stop_number r) < 9223372036854775808"
    by (auto dest: text_row_numbers)
  from l2 shape once have d: "distinct (map stop_key rows)"
    by (rule bound_rows_distinct)
  from keys t show "distinct (map stop_key t)"
    by (simp add: merge_rows_distinct)
  show "\<forall>x \<in> set df. \<exists>y. bus_stop_orm x = Inr y
        \<and> stop_key y = (stop_route_id x, direction x, SqlInteger (decimal (stop_number x)))
        \<and> filter (\<lambda>r. stop_key r = stop_key y) t = [y]"
  proof
    fix x
    assume x: "x \<in> set df"
    from list_all2_left [OF l2 x] obtain y where y: "y \<in> set rows" "bus_stop_orm x = Inr y"
      by blast
    from shape x have "stop_number x \<noteq> []" "list_all is_digit (stop_number x)"
      "decimal (stop_number x) < 9223372036854775808"
      by simp_all
    with y(2)
    have k: "stop_key y = (stop_route_id x, direction x, SqlInteger (decimal (stop_number x)))"
      by (rule bus_stop_orm_key)
    from d y(1) have "filter (\<lambda>z. stop_key z = stop_key y) rows = [y]"
      by (rule filter_key_unique)
    with merge_rows_last_write [OF keys y(1)] t
    have "filter (\<lambda>r. stop_key r = stop_key y) t = [y]"
      by simp
    with y(2) k show "\<exists>y. bus_stop_orm x = Inr y
        \<and> stop_key y = (stop_route_id x, direction x, SqlInteger (decimal (stop_number x)))
        \<and> filter (\<lambda>r. stop_key r = stop_key y) t = [y]"
      by blast
  qed
  from keys t rows show "route_info_save_to_database_00003 df t = Inr t"
    by (simp add: route_info_save_to_database_00003_def merge_rows_idem)
qed

lemma save_00003_raises_iff:
  "(\<exists>e. route_info_save_to_database_00003 df tbl = Inl e) \<longleftrightarrow>
     (\<exists>x \<in> set df. (\<exists>e. to_float (latitude x) = Inl e) \<or> (\<exists>e. to_float (longitude x) = Inl e))"
proof -
  have "(\<exists>e. route_info_save_to_database_00003 df tbl = Inl e)
      \<longleftrightarrow> (\<exists>e. collect bus_stop_orm df = Inl e)"
    by (auto simp: route_info_save_to_database_00003_def split: sum.splits)
  then show ?thesis
    by (simp add: collect_Inl_iff bus_stop_orm_Inl_iff)
qed

lemma StopORM_key_eq: "stop_key (StopORM y) = stop_key (StopORM x) \<longleftrightarrow> stop_key y = stop_key x"
  by (simp add: StopORM_def stop_key_def)

lemma stop_save_distinct:
  "distinct (map stop_key tbl) \<Longrightarrow> distinct (map stop_key (route_info_save_to_database df tbl))"
  by (simp add: route_info_save_to_database_def merge_rows_distinct)

lemma stop_save_last_write:
  assumes "distinct (map stop_key tbl)" "x \<in> set df"
  shows "filter (\<lambda>r. stop_key r = stop_key (StopORM x)) (route_info_save_to_database df tbl) =
    [StopORM (last (filter (\<lambda>y. stop_key y = stop_key x) df))]"
proof -
  from assms(2) have "StopORM x \<in> set (map StopORM df)" by simp
  from merge_rows_last_write [OF assms(1) this]
  have "filter (\<lambda>r. stop_key r = stop_key (StopORM x)) (route_info_save_to_database df tbl) =
    [last (filter (\<lambda>y. stop_key y = stop_key (StopORM x)) (map StopORM df))]"
    by (simp add: route_info_save_to_database_def)
  moreover have "filter (\<lambda>y. stop_key y = stop_key (StopORM x)) (map StopORM df)
      = map StopORM (filter (\<lambda>y. stop_key y = stop_key x) df)"
    by (simp add: filter_map comp_def StopORM_key_eq)
  moreover from assms(2) have "filter (\<lambda>y. stop_key y = stop_key x) df \<noteq> []"
    by (auto simp: filter_empty_conv)
  ultimately show ?thesis
    by (simp add: last_map)
qed

lemma stop_save_idem:
  assumes "distinct (map stop_key tbl)"
  shows "route_info_save_to_database df (route_info_save_to_database df tbl) =
    route_info_save_to_database df tbl"
  using assms by (simp add: route_info_save_to_database_def merge_rows_idem)

text \<open>
  Claim C1, amended. When \<^verbatim>\<open>save_to_database\<close> returns, it is a last-write-wins upsert by
  the primary key as the table holds it. After a first and a second save, on tables with
  unique keys:
  \<^item> route list (both files): every \<open>route_id\<close> of the second frame has exactly one row,
    with the name the second frame wrote last for it, and saving a frame a second time
    changes nothing;
  \<^item> stops in \<^verbatim>\<open>scraper/realtime_scraper.py\<close>, for frames that \<^verbatim>\<open>parse_route_info\<close> returned:
    every key \<open>(route_id, direction, stop_number)\<close> of the second frame has exactly one
    row, the row the second frame wrote last for it, as the columns hold it, and saving
    a frame a second time changes nothing;
  \<^item> stops in \<^verbatim>\<open>00003.py\<close>, for frames of captured texts that \<^verbatim>\<open>parse_route_info\<close> returned
    and in which every stop number occurs once and is below \<open>2^63\<close>: when both saves
    return, every row of the second frame has exactly one row in the table, under the
    key \<open>(route_id, direction, stop number as an integer)\<close>, holding its converted values,
    and saving the frame again returns the same table;
  \<^item> the conversions in \<^verbatim>\<open>save_to_database\<close> of \<^verbatim>\<open>00003.py\<close> raise exactly when the latitude
    or longitude text of some row is no float literal.
\<close>

theorem save_to_database_last_write_wins:
  assumes "distinct (map route_id routes)" "distinct (map stop_key stops)"
    and "parse_route_info rid1 dir1 page1 = Inr df1"
      "parse_route_info rid2 dir2 page2 = Inr df2"
    and "parse_route_info_text rid3 dir3 page3 = Inr tf1"
      "parse_route_info_text rid4 dir4 page4 = Inr tf2"
    and "distinct (map (\<lambda>r. decimal (stop_number r)) tf1)"
      "distinct (map (\<lambda>r. decimal (stop_number r)) tf2)"
    and "\<forall>r \<in> set tf1. decimal (stop_number r) < 9223372036854775808"
      "\<forall>r \<in> set tf2. decimal (stop_number r) < 9223372036854775808"
    and "route_info_save_to_database_00003 tf1 stops = Inr t1"
      "route_info_save_to_database_00003 tf2 t1 = Inr t2"
  shows "(\<forall>row \<in> set rf2.
            \<exists>r. filter (\<lambda>r. route_id r = fst row)
                   (route_list_save_to_database dflt rf2
                      (route_list_save_to_database dflt rf1 routes)) = [r]
                \<and> route_name r = snd (last (filter (\<lambda>y. fst y = fst row) rf2)))
       \<and> route_list_save_to_database dflt rf2 (route_list_save_to_database dflt rf2 routes)
            = route_list_save_to_database dflt rf2 routes
       \<and> (\<forall>x \<in> set df2.
            filter (\<lambda>r. stop_key r = (stop_route_id x, direction x, SqlInteger (stop_number x)))
              (route_info_save_to_database df2 (route_info_save_to_database df1 stops))
            = [StopORM (last (filter (\<lambda>y. stop_key y = stop_key x) df2))])
       \<and> route_info_save_to_database df2 (route_info_save_to_database df2 stops)
            = route_info_save_to_database df2 stops
       \<and> (\<forall>x \<in> set tf2.
            \<exists>y. bus_stop_orm x = Inr y
              \<and> stop_key y = (stop_route_id x, direction x, SqlInteger (decimal (stop_number x)))
              \<and> filter (\<lambda>r. stop_key r = stop_key y) t2 = [y])
       \<and> route_info_save_to_database_00003 tf2 t2 = Inr t2
       \<and> ((\<exists>e. route_info_save_to_database_00003 tf tbl = Inl e) \<longleftrightarrow>
            (\<exists>x \<in> set tf. (\<exists>e. to_float (latitude x) = Inl e)
                \<or> (\<exists>e. to_float (longitude x) = Inl e)))"
proof (intro conjI ballI)
  fix row
  assume "row \<in> set rf2"
  moreover from assms(1)
  have "distinct (map route_id (route_list_save_to_database dflt rf1 routes))"
    by (rule route_save_distinct)
  ultimately show "\<exists>r. filter (\<lambda>r. route_id r = fst row)
      (route_list_save_to_database dflt rf2 (route_list_save_to_database dflt rf1 routes)) = [r]
      \<and> route_name r = snd (last (filter (\<lambda>y. fst y = fst row) rf2))"
    by (intro route_save_last_write)
next
  from assms(1)
  show "route_list_save_to_database dflt rf2 (route_list_save_to_database dflt rf2 routes)
      = route_list_save_to_database dflt rf2 routes"
    by (rule route_save_idem)
next
  fix x
  assume x: "x \<in> set df2"
  from assms(2) have "distinct (map stop_key (route_info_save_to_database df1 stops))"
    by (rule stop_save_distinct)
  from stop_save_last_write [OF this x]
  show "filter (\<lambda>r. stop_key r = (stop_route_id x, direction x, SqlInteger (stop_number x)))
      (route_info_save_to_database df2 (route_info_save_to_database df1 stops))
    = [StopORM (last (filter (\<lambda>y. stop_key y = stop_key x) df2))]"
    by (simp add: stop_key_def StopORM_def)
next
  from assms(2) show "route_info_save_to_database df2 (route_info_save_to_database df2 stops)
      = route_info_save_to_database df2 stops"
    by (rule stop_save_idem)
next
  from save_00003_last_write(1) [OF assms(5,7,9,2,11)] have d1: "distinct (map stop_key t1)" .
  note second = save_00003_last_write [OF assms(6,8,10) d1 assms(12)]
  {
    fix x
    assume "x \<in> set tf2"
    with second(2) show "\<exists>y. bus_stop_orm x = Inr y
        \<and> stop_key y = (stop_route_id x, direction x, SqlInteger (decimal (stop_number x)))
        \<and> filter (\<lambda>r. stop_key r = stop_key y) t2 = [y]"
      by blast
  }
  from second(3) show "route_info_save_to_database_00003 tf2 t2 = Inr t2" .
next
  show "(\<exists>e. route_info_save_to_database_00003 tf tbl = Inl e) \<longleftrightarrow>
      (\<exists>x \<in> set tf. (\<exists>e. to_float (latitude x) = Inl e) \<or> (\<exists>e. to_float (longitude x) = Inl e))"
    by (rule save_00003_raises_iff)
qed

definition demo_frame ::
    "string \<Rightarrow> string \<Rightarrow> string \<Rightarrow> (string, string, string) stop_row list" where
  "demo_frame n nm la =
     [\<lparr>arrival_info = ''3 min'', stop_number = n, stop_name = nm, stop_id = ''1234'',
       latitude = la, longitude = ''121.5'', direction = ''go'', stop_route_id = ''r1''\<rparr>]"

definition demo_typed_frame :: "int \<Rightarrow> string \<Rightarrow> rat \<Rightarrow> (int, string, rat) stop_row list" where
  "demo_typed_frame n nm la =
     [\<lparr>arrival_info = ''3 min'', stop_number = n, stop_name = nm, stop_id = ''1234'',
       latitude = la, longitude = 243 / 2, direction = ''go'', stop_route_id = ''r1''\<rparr>]"

definition demo_table :: "string \<Rightarrow> rat \<Rightarrow> stored_stop list" where
  "demo_table nm la =
     [\<lparr>arrival_info = ''3 min'', stop_number = SqlInteger 1, stop_name = nm,
       stop_id = SqlInteger 1234, latitude = la, longitude = 243 / 2, direction = ''go'',
       stop_route_id = ''r1''\<rparr>]"

lemma demo_first_page:
  "parse_route_info ''r1'' ''go'' (stop_block ''1'' ''Main Street'' ''24.5'' ''121.5'')
     = Inr (demo_typed_frame 1 ''Main Street'' (49 / 2))"
  "parse_route_info_text ''r1'' ''go'' (stop_block ''1'' ''Main Street'' ''24.5'' ''121.5'')
     = Inr (demo_frame ''1'' ''Main Street'' ''24.5'')"
  by code_simp+

lemma demo_second_page:
  "parse_route_info ''r1'' ''go'' (stop_block ''01'' ''Main St'' ''25.03'' ''121.5'')
     = Inr (demo_typed_frame 1 ''Main St'' (2503 / 100))"
  "parse_route_info_text ''r1'' ''go'' (stop_block ''01'' ''Main St'' ''25.03'' ''121.5'')
     = Inr (demo_frame ''01'' ''Main St'' ''25.03'')"
  by code_simp+

lemma demo_saves:
  "route_info_save_to_database_00003 (demo_frame ''1'' ''Main Street'' ''24.5'') []
     = Inr (demo_table ''Main Street'' (49 / 2))"
  "route_info_save_to_database_00003 (demo_frame ''01'' ''Main St'' ''25.03'')
       (demo_table ''Main Street'' (49 / 2))
     = Inr (demo_table ''Main St'' (2503 / 100))"
  "route_info_save_to_database (demo_typed_frame 1 ''Main St'' (2503 / 100))
       (route_info_save_to_database (demo_typed_frame 1 ''Main Street'' (49 / 2)) [])
     = demo_table ''Main St'' (2503 / 100)"
  by code_simp+

lemma demo_bad_save:
  "route_info_save_to_database_00003 (demo_frame ''1'' ''Side St'' ''1.2.3'')
       (demo_table ''Main Street'' (49 / 2))
     = Inl (DatabaseError ''could not convert string to float'')"
  by code_simp

lemma demo_bad_page:
  "parse_route_info_text ''r1'' ''go'' (stop_block ''1'' ''Side St'' ''1.2.3'' ''121.5'')
     = Inr (demo_frame ''1'' ''Side St'' ''1.2.3'')"
  by code_simp

lemma demo_route_saves:
  "route_list_save_to_database pending [(''0161000900'', ''Line 9'')]
        (route_list_save_to_database pending [(''0161000900'', ''Line 8'')] [])
       = [\<lparr>route_id = ''0161000900'', route_name = ''Line 9'', route_data_updated = pending\<rparr>]"
  by (simp add: route_list_save_to_database_def RouteORM_def set_route_name_def)

theorem save_to_database_last_write_wins_witness:
  "parse_route_info ''r1'' ''go'' (stop_block ''1'' ''Main Street'' ''24.5'' ''121.5'')
     = Inr (demo_typed_frame 1 ''Main Street'' (49 / 2))
   \<and> parse_route_info ''r1'' ''go'' (stop_block ''01'' ''Main St'' ''25.03'' ''121.5'')
     = Inr (demo_typed_frame 1 ''Main St'' (2503 / 100))
   \<and> parse_route_info_text ''r1'' ''go'' (stop_block ''1'' ''Main Street'' ''24.5'' ''121.5'')
     = Inr (demo_frame ''1'' ''Main Street'' ''24.5'')
   \<and> parse_route_info_text ''r1'' ''go'' (stop_block ''01'' ''Main St'' ''25.03'' ''121.5'')
     = Inr (demo_frame ''01'' ''Main St'' ''25.03'')
   \<and> route_info_save_to_database_00003 (demo_frame ''1'' ''Main Street'' ''24.5'') []
     = Inr (demo_table ''Main Street'' (49 / 2))
   \<and> route_info_save_to_database_00003 (demo_frame ''01'' ''Main St'' ''25.03'')
       (demo_table ''Main Street'' (49 / 2))
     = Inr (demo_table ''Main St'' (2503 / 100))
   \<and> filter (\<lambda>r. stop_key r = (''r1'', ''go'', SqlInteger 1)) (demo_table ''Main St'' (2503 / 100))
     = demo_table ''Main St'' (2503 / 100)
   \<and> route_info_save_to_database_00003 (demo_frame ''01'' ''Main St'' ''25.03'')
       (demo_table ''Main St'' (2503 / 100))
     = Inr (demo_table ''Main St'' (2503 / 100))
   \<and> filter (\<lambda>r. stop_key r = (''r1'', ''go'', SqlInteger 1))
       (route_info_save_to_database (demo_typed_frame 1 ''Main St'' (2503 / 100))
         (route_info_save_to_database (demo_typed_frame 1 ''Main Street'' (49 / 2)) []))
     = demo_table ''Main St'' (2503 / 100)
   \<and> route_list_save_to_database pending [(''0161000900'', ''Line 9'')]
        (route_list_save_to_database pending [(''0161000900'', ''Line 8'')] [])
       = [\<lparr>route_id = ''0161000900'', route_name = ''Line 9'', route_data_updated = pending\<rparr>]
   \<and> isl (route_info_save_to_database_00003 (demo_frame ''1'' ''Side St'' ''1.2.3'') [])"
proof -
  have h1: "distinct (map route_id ([] :: RouteStatus route_row list))"
    and h2: "distinct (map stop_key ([] :: stored_stop list))"
    by simp_all
  have h7: "distinct (map (\<lambda>r. decimal (stop_number r)) (demo_frame ''1'' ''Main Street'' ''24.5''))"
    and h8: "distinct (map (\<lambda>r. decimal (stop_number r)) (demo_frame ''01'' ''Main St'' ''25.03''))"
    by (simp_all add: demo_frame_def)
  have d1: "decimal ''1'' = 1" and d01: "decimal ''01'' = 1"
    by code_simp+
  have h9: "\<forall>r \<in> set (demo_frame ''1'' ''Main Street'' ''24.5'').
      decimal (stop_number r) < 9223372036854775808"
    by (simp add: demo_frame_def d1)
  have h10: "\<forall>r \<in> set (demo_frame ''01'' ''Main St'' ''25.03'').
      decimal (stop_number r) < 9223372036854775808"
    by (simp add: demo_frame_def d01)
  note inst = save_to_database_last_write_wins [OF h1 h2 demo_first_page(1) demo_second_page(1)
      demo_first_page(2) demo_second_page(2) h7 h8 h9 h10 demo_saves(1) demo_saves(2),
      of "[(''0161000900'', ''Line 9'')]" pending "[(''0161000900'', ''Line 8'')]"
        "demo_frame ''1'' ''Side St'' ''1.2.3''" "[]"]
  let ?x = "hd (demo_frame ''01'' ''Main St'' ''25.03'')"
  have x: "?x \<in> set (demo_frame ''01'' ''Main St'' ''25.03'')"
    by (simp add: demo_frame_def)
  have bx: "bus_stop_orm ?x = Inr (hd (demo_table ''Main St'' (2503 / 100)))"
    by code_simp
  have kx: "(stop_route_id ?x, direction ?x, SqlInteger (decimal (stop_number ?x)))
      = (''r1'', ''go'', SqlInteger 1)"
    by (simp add: demo_frame_def d01)
  from inst have "\<forall>x \<in> set (demo_frame ''01'' ''Main St'' ''25.03'').
      \<exists>y. bus_stop_orm x = Inr y
        \<and> stop_key y = (stop_route_id x, direction x, SqlInteger (decimal (stop_number x)))
        \<and> filter (\<lambda>r. stop_key r = stop_key y) (demo_table ''Main St'' (2503 / 100)) = [y]"
    by blast
  with x obtain y where y: "bus_stop_orm ?x = Inr y"
    "stop_key y = (stop_route_id ?x, direction ?x, SqlInteger (decimal (stop_number ?x)))"
    "filter (\<lambda>r. stop_key r = stop_key y) (demo_table ''Main St'' (2503 / 100)) = [y]"
    by blast
  from y(1) bx have yy: "y = hd (demo_table ''Main St'' (2503 / 100))" by simp
  from y(3) have A: "filter (\<lambda>r. stop_key r = (''r1'', ''go'', SqlInteger 1))
      (demo_table ''Main St'' (2503 / 100)) = demo_table ''Main St'' (2503 / 100)"
    by (simp only: y(2) kx) (simp add: yy demo_table_def)
  from inst have B: "route_info_save_to_database_00003 (demo_frame ''01'' ''Main St'' ''25.03'')
       (demo_table ''Main St'' (2503 / 100))
     = Inr (demo_table ''Main St'' (2503 / 100))"
    by blast
  let ?z = "hd (demo_typed_frame 1 ''Main St'' (2503 / 100))"
  have z: "?z \<in> set (demo_typed_frame 1 ''Main St'' (2503 / 100))"
    by (simp add: demo_typed_frame_def)
  from inst have "\<forall>x \<in> set (demo_typed_frame 1 ''Main St'' (2503 / 100)).
      filter (\<lambda>r. stop_key r = (stop_route_id x, direction x, SqlInteger (stop_number x)))
        (route_info_save_to_database (demo_typed_frame 1 ''Main St'' (2503 / 100))
          (route_info_save_to_database (demo_typed_frame 1 ''Main Street'' (49 / 2)) []))
      = [StopORM (last (filter (\<lambda>y. stop_key y = stop_key x)
            (demo_typed_frame 1 ''Main St'' (2503 / 100))))]"
    by blast
  with z have "filter (\<lambda>r. stop_key r = (stop_route_id ?z, direction ?z, SqlInteger (stop_number ?z)))
        (route_info_save_to_database (demo_typed_frame 1 ''Main St'' (2503 / 100))
          (route_info_save_to_database (demo_typed_frame 1 ''Main Street'' (49 / 2)) []))
      = [StopORM (last (filter (\<lambda>y. stop_key y = stop_key ?z)
            (demo_typed_frame 1 ''Main St'' (2503 / 100))))]"
    by blast
  moreover have "(stop_route_id ?z, direction ?z, SqlInteger (stop_number ?z))
      = (''r1'', ''go'', SqlInteger 1)"
    by (simp add: demo_typed_frame_def)
  moreover have "[StopORM (last (filter (\<lambda>y. stop_key y = stop_key ?z)
            (demo_typed_frame 1 ''Main St'' (2503 / 100))))] = demo_table ''Main St'' (2503 / 100)"
    by code_simp
  ultimately have C: "filter (\<lambda>r. stop_key r = (''r1'', ''go'', SqlInteger 1))
       (route_info_save_to_database (demo_typed_frame 1 ''Main St'' (2503 / 100))
         (route_info_save_to_database (demo_typed_frame 1 ''Main Street'' (49 / 2)) []))
     = demo_table ''Main St'' (2503 / 100)"
    by (simp only:)
  have bad: "\<exists>x \<in> set (demo_frame ''1'' ''Side St'' ''1.2.3'').
      (\<exists>e. to_float (latitude x) = Inl e) \<or> (\<exists>e. to_float (longitude x) = Inl e)"
    using demo_bad_float by (simp add: demo_frame_def isl_def)
  from inst have "(\<exists>e. route_info_save_to_database_00003 (demo_frame ''1'' ''Side St'' ''1.2.3'') []
        = Inl e) \<longleftrightarrow>
      (\<exists>x \<in> set (demo_frame ''1'' ''Side St'' ''1.2.3'').
          (\<exists>e. to_float (latitude x) = Inl e) \<or> (\<exists>e. to_float (longitude x) = Inl e))"
    by blast
  with bad have D: "isl (route_info_save_to_database_00003 (demo_frame ''1'' ''Side St'' ''1.2.3'') [])"
    by (auto simp: isl_def)
  from demo_first_page(1) demo_second_page(1) demo_first_page(2) demo_second_page(2)
    demo_saves(1) demo_saves(2) A B C demo_route_saves D
  show ?thesis by (intro conjI)
qed

text \<open>
  The claim as stated fails for \<^verbatim>\<open>save_to_database\<close> of \<^verbatim>\<open>00003.py\<close>: a page whose latitude
  text is \<open>1.2.3\<close> is parsed into a frame, and writing that frame for a key that was
  written before raises; the row of the key keeps the values of the first write.
\<close>

theorem save_to_database_raises_counterexample:
  "parse_route_info_text ''r1'' ''go'' (stop_block ''1'' ''Main Street'' ''24.5'' ''121.5'')
     = Inr (demo_frame ''1'' ''Main Street'' ''24.5'')
   \<and> parse_route_info_text ''r1'' ''go'' (stop_block ''1'' ''Side St'' ''1.2.3'' ''121.5'')
     = Inr (demo_frame ''1'' ''Side St'' ''1.2.3'')
   \<and> route_info_save_to_database_00003 (demo_frame ''1'' ''Main Street'' ''24.5'') []
     = Inr (demo_table ''Main Street'' (49 / 2))
   \<and> route_info_save_to_database_00003 (demo_frame ''1'' ''Side St'' ''1.2.3'')
       (demo_table ''Main Street'' (49 / 2))
     = Inl (DatabaseError ''could not convert string to float'')"
  using demo_first_page(2) demo_bad_page demo_saves(1) demo_bad_save
  by (intro conjI)

end
